theory Spec2Isabelle
  imports Complex_Main
begin

section \<open>Finite-difference pricing of vanilla options: the two notebooks\<close>

text \<open>
  The repository holds two notebooks. \<open>Implicit_FDM.ipynb\<close> (Python 3) defines
  \<open>compute_transition_probabilities\<close>, \<open>create_tridiagonal_matrix\<close>,
  \<open>initialize_option_matrix\<close>, \<open>backward_iteration\<close> and the entry point
  \<open>vanilla_option_implicit\<close>. The second notebook (Python 2 kernel) defines the single
  function \<open>VanillaOption_Explicit\<close>.

  Arithmetic: the values held in NumPy's \<open>float64\<close> arrays are modelled as
  \<^typ>\<open>real\<close>, and the operations on them are exact. Rounding is modelled in the one
  place where it decides what the program does next: the number of elements of
  \<open>np.arange(0, S_max + dS, dS)\<close> is computed in double precision, as NumPy does
  (\<open>float64\<close>, \<open>arange_rounded\<close>), because one element too many makes the row
  assignment of the implicit notebook raise. Division by zero, which in NumPy yields
  \<open>nan\<close> and \<open>inf\<close>, is modelled by a result without value (\<open>np_divide\<close>).
  Overflow is outside the model. Python integers are \<^typ>\<open>int\<close>; array sizes and
  indices that are known to be non-negative are \<^typ>\<open>nat\<close>. A one-dimensional array is a
  list, a two-dimensional array a list of rows. Python exceptions are values of the type
  \<open>error\<close>.
\<close>

type_synonym vec = "real list"
type_synonym matrix = "real list list"

datatype error = ZeroDivisionError | ValueError | IndexError | LinAlgError


subsection \<open>NumPy operations\<close>

text \<open>\<open>np.arange(0, M, dtype=float)\<close> for an integer \<open>M\<close>: the values \<open>0, 1, ..., M - 1\<close>,
  and the empty array when \<open>M \<le> 0\<close>.\<close>

definition arange_int :: "int \<Rightarrow> vec" where
  "arange_int M = map real [0..<nat M]"

text \<open>\<open>np.arange(start, stop, step)\<close> on floats: \<open>ceil((stop - start) / step)\<close> values
  \<open>start + i * step\<close> (none when that number is negative); a zero step raises
  \<open>ZeroDivisionError\<close>. NumPy computes the quotient in double precision. The model has
  the function twice. \<open>arange\<close> takes the number of values over the reals. It stands
  for the calls \<open>np.arange(S_min, S_max + dS/2.0, dS)\<close> of the explicit notebook, whose
  quotient \<open>M + 1/2\<close> lies half a step away from the integers on either side, out of
  the reach of a rounding error of relative size \<open>2^-53\<close> on any grid that fits in
  memory.\<close>

definition arange :: "real \<Rightarrow> real \<Rightarrow> real \<Rightarrow> error + vec" where
  "arange start stop step =
     (if step = 0 then Inl ZeroDivisionError
      else Inr (map (\<lambda>i. start + real i * step) [0..<nat \<lceil>(stop - start) / step\<rceil>]))"

text \<open>Double precision: \<open>float64 x\<close> is the double nearest to \<open>x\<close>, with a significand
  of 53 bits and ties rounded to the even significand (the exponent is not bounded: no
  overflow, no subnormal numbers). For \<open>x\<close> in the binade \<open>[2^e, 2^(e+1))\<close> the doubles
  are the multiples of \<open>2^(e-52)\<close>.\<close>

definition round_half_even :: "real \<Rightarrow> int" where
  "round_half_even y =
     (let f = \<lfloor>y\<rfloor>
      in if y - of_int f < 1 / 2 then f
         else if 1 / 2 < y - of_int f then f + 1
         else if even f then f else f + 1)"

definition float64 :: "real \<Rightarrow> real" where
  "float64 x =
     (if x = 0 then 0
      else let e = \<lfloor>log 2 \<bar>x\<bar>\<rfloor>
           in sgn x * of_int (round_half_even (\<bar>x\<bar> * 2 powr (52 - of_int e)))
                * 2 powr (of_int e - 52))"

text \<open>\<open>arange_rounded\<close> computes the number of values as NumPy does, as the ceiling of
  the double \<open>(stop - start) / step\<close>, the difference and the quotient each rounded, from
  the double the program holds for the step. It stands for the call
  \<open>np.arange(0, S_max + dS, dS)\<close> of the implicit notebook, whose quotient is the integer
  \<open>M + 1\<close> in exact arithmetic and can exceed it in double precision. The values
  \<open>start + i * step\<close> themselves are reals, like all values of the grid.\<close>

definition arange_rounded :: "real \<Rightarrow> real \<Rightarrow> real \<Rightarrow> error + vec" where
  "arange_rounded start stop step =
     (if step = 0 then Inl ZeroDivisionError
      else Inr (map (\<lambda>i. start + real i * step)
                  [0..<nat \<lceil>float64 (float64 (stop - start) / float64 step)\<rceil>]))"

text \<open>The number of values of \<open>np.arange(0, S_max + dS, dS)\<close>: the program holds the doubles
  nearest to \<open>S_max\<close> and \<open>dS\<close>, adds them in double precision, and divides the sum by
  the step, again in double precision.\<close>

definition node_count :: "real \<Rightarrow> real \<Rightarrow> nat" where
  "node_count S_max dS =
     nat \<lceil>float64 (float64 (float64 S_max + float64 dS) / float64 dS)\<rceil>"

text \<open>\<open>np.diag(v, k)\<close>: the square matrix of size \<open>len(v) + |k|\<close> with \<open>v\<close> on the
  \<open>k\<close>-th diagonal (\<open>k = -1\<close> below the main diagonal, \<open>k = 1\<close> above it).\<close>

definition np_diag :: "vec \<Rightarrow> int \<Rightarrow> matrix" where
  "np_diag v k =
     (let n = length v + nat \<bar>k\<bar>
      in map (\<lambda>i. map (\<lambda>j. if int j - int i = k then v ! (min i j) else 0) [0..<n]) [0..<n])"

text \<open>Entrywise sum of two arrays of the same shape.\<close>

definition mat_add :: "matrix \<Rightarrow> matrix \<Rightarrow> matrix" where
  "mat_add A B = map2 (\<lambda>r s. map2 (+) r s) A B"

text \<open>\<open>np.dot(v, A)\<close> for a vector (or a \<open>1 \<times> n\<close> matrix) \<open>v\<close> of length \<open>n\<close> and an
  \<open>n \<times> n\<close> array \<open>A\<close>: the row vector times the matrix, entry \<open>j\<close> being
  \<open>sum_k v[k] * A[k, j]\<close>.\<close>

definition dot_vm :: "vec \<Rightarrow> matrix \<Rightarrow> vec" where
  "dot_vm v A = map (\<lambda>j. \<Sum>k\<leftarrow>[0..<length v]. v ! k * A ! k ! j) [0..<length v]"

text \<open>\<open>la.norm(A, np.inf)\<close> of a non-empty two-dimensional array: the largest absolute
  row sum.\<close>

definition norm_inf :: "matrix \<Rightarrow> real" where
  "norm_inf A = (let rs = map (\<lambda>row. sum_list (map abs row)) A in fold max (tl rs) (hd rs))"

text \<open>\<open>np.maximum(x, y)\<close> on two arrays of the same length.\<close>

definition np_maximum :: "vec \<Rightarrow> vec \<Rightarrow> vec" where
  "np_maximum xs ys = map2 max xs ys"

text \<open>\<open>for i in range(n - 1, -1, -1): body\<close>, the loop of both schemes: the body runs
  for \<open>i = n - 1, ..., 0\<close> on the state it is handed.\<close>

fun for_range_down :: "(nat \<Rightarrow> 's \<Rightarrow> 's) \<Rightarrow> nat \<Rightarrow> 's \<Rightarrow> 's" where
  "for_range_down body 0 s = s"
| "for_range_down body (Suc i) s = for_range_down body i (body i s)"


subsection \<open>\<open>la.inv\<close>: inversion by elimination with partial pivoting\<close>

text \<open>
  \<open>la.inv\<close> calls LAPACK, which eliminates with partial pivoting and raises
  \<open>LinAlgError\<close> when a pivot column is zero. The model runs Gauss-Jordan elimination on
  the rows of the augmented matrix \<open>[A | I]\<close>: in column \<open>j\<close> the pivot is the first
  row at or below \<open>j\<close> with the largest absolute entry; it is swapped into place, scaled
  to pivot 1 and subtracted from every other row.
\<close>

fun argmax_abs :: "matrix \<Rightarrow> nat \<Rightarrow> nat list \<Rightarrow> nat \<Rightarrow> nat" where
  "argmax_abs R j [] best = best"
| "argmax_abs R j (i # is) best =
     argmax_abs R j is (if \<bar>R ! best ! j\<bar> < \<bar>R ! i ! j\<bar> then i else best)"

definition scale_row :: "real \<Rightarrow> vec \<Rightarrow> vec" where
  "scale_row s r = map (\<lambda>x. s * x) r"

definition sub_row :: "vec \<Rightarrow> real \<Rightarrow> vec \<Rightarrow> vec" where
  "sub_row r s p = map2 (\<lambda>x y. x - s * y) r p"

definition eliminate :: "nat \<Rightarrow> matrix \<Rightarrow> matrix option" where
  "eliminate j R =
     (let p = argmax_abs R j [Suc j..<length R] j
      in if R ! p ! j = 0 then None
         else
           let R1 = R[j := R ! p, p := R ! j];
               prow = scale_row (1 / (R1 ! j ! j)) (R1 ! j)
           in Some (map (\<lambda>i. if i = j then prow else sub_row (R1 ! i) (R1 ! i ! j) prow)
                      [0..<length R]))"

fun gauss_jordan :: "nat \<Rightarrow> nat \<Rightarrow> matrix \<Rightarrow> matrix option" where
  "gauss_jordan 0 j R = Some R"
| "gauss_jordan (Suc n) j R =
     (case eliminate j R of None \<Rightarrow> None | Some R' \<Rightarrow> gauss_jordan n (Suc j) R')"

definition identity_row :: "nat \<Rightarrow> nat \<Rightarrow> vec" where
  "identity_row n i = map (\<lambda>j. if i = j then 1 else 0) [0..<n]"

definition la_inv :: "matrix \<Rightarrow> error + matrix" where
  "la_inv A =
     (let n = length A;
          aug = map (\<lambda>i. A ! i @ identity_row n i) [0..<n]
      in case gauss_jordan n 0 aug of
           None \<Rightarrow> Inl LinAlgError
         | Some R \<Rightarrow> Inr (map (drop n) R))"


subsection \<open>The implicit scheme (\<open>Implicit_FDM.ipynb\<close>)\<close>

definition compute_transition_probabilities ::
  "int \<Rightarrow> real \<Rightarrow> real \<Rightarrow> real \<Rightarrow> real \<Rightarrow> vec \<times> vec \<times> vec" where
  "compute_transition_probabilities M dt r q sigma =
     (let j = arange_int M
      in (map (\<lambda>j. 0.5 * (r - q) * j * dt - 0.5 * sigma\<^sup>2 * j\<^sup>2 * dt) j,
          map (\<lambda>j. 1.0 + sigma\<^sup>2 * j\<^sup>2 * dt + r * dt) j,
          map (\<lambda>j. - 0.5 * (r - q) * j * dt - 0.5 * sigma\<^sup>2 * j\<^sup>2 * dt) j))"

text \<open>The operator \<open>A = np.diag(b) + np.diag(a[1:], k=-1) + np.diag(c[:-1], k=1)\<close>. The
  three vectors have the same length. With empty vectors the sum is an empty array, whose
  infinity norm raises \<open>ValueError\<close>.\<close>

definition tridiagonal :: "vec \<Rightarrow> vec \<Rightarrow> vec \<Rightarrow> matrix" where
  "tridiagonal a b c = mat_add (mat_add (np_diag b 0) (np_diag (tl a) (- 1))) (np_diag (butlast c) 1)"

definition create_tridiagonal_matrix :: "vec \<Rightarrow> vec \<Rightarrow> vec \<Rightarrow> error + matrix \<times> real" where
  "create_tridiagonal_matrix a b c =
     (if b = [] then Inl ValueError
      else case la_inv (tridiagonal a b c) of
             Inl e \<Rightarrow> Inl e
           | Inr B \<Rightarrow> Inr (B, norm_inf B))"

text \<open>\<open>FV[N, :] = values\<close>: the assigned array must have the row's length, or length 1
  (which NumPy broadcasts).\<close>

definition assign_row :: "matrix \<Rightarrow> nat \<Rightarrow> nat \<Rightarrow> vec \<Rightarrow> error + matrix" where
  "assign_row FV i n xs =
     (if length xs = n then Inr (FV[i := xs])
      else if length xs = 1 then Inr (FV[i := replicate n (hd xs)])
      else Inl ValueError)"

text \<open>The boundary conditions. \<open>np.arange(0, S_max + dS, dS)\<close> is called with the double
  sum of the doubles \<open>S_max\<close> and \<open>dS\<close> as its stop value: \<open>arange_rounded\<close> is given
  the exact sum of the two doubles and rounds it when it takes the difference to the start
  value \<open>0\<close>.\<close>

definition initialize_option_matrix ::
  "int \<Rightarrow> int \<Rightarrow> real \<Rightarrow> real \<Rightarrow> real \<Rightarrow> real \<Rightarrow> real \<Rightarrow> bool \<Rightarrow> error + matrix" where
  "initialize_option_matrix N M S_max dS K r dt is_call =
     (if N + 1 < 0 \<or> M + 1 < 0 then Inl ValueError
      else if M + 1 = 0 then Inl IndexError
      else
        let m = nat M;
            disc = (\<lambda>i. exp (- r * (real_of_int N - real i) * dt));
            FV = map (\<lambda>i. if is_call
                           then (replicate (m + 1) 0)[0 := 0, m := S_max * disc i]
                           else (replicate (m + 1) 0)[0 := K * disc i, m := 0])
                     [0..<nat (N + 1)]
        in case arange_rounded 0 (float64 S_max + float64 dS) dS of
             Inl e \<Rightarrow> Inl e
           | Inr S \<Rightarrow>
               if N + 1 = 0 then Inl IndexError
               else assign_row FV (nat N) (m + 1)
                      (if is_call then map (\<lambda>s. max (s - K) 0) S
                       else map (\<lambda>s. max (K - s) 0) S))"

text \<open>The loop body of \<open>backward_iteration\<close> for the row \<open>i\<close>. The arrays have
  the shapes the entry point passes: \<open>FV\<close> is \<open>(N + 1) \<times> (M + 1)\<close>, \<open>B\<close> is
  \<open>M \<times> M\<close>, \<open>a\<close> and \<open>c\<close> have length \<open>M \<ge> 1\<close>. The body reads the row
  \<open>FV[i + 1]\<close> (\<open>next\<close>) and rewrites the row \<open>FV[i]\<close> (\<open>cur\<close>): first its
  columns \<open>0 .. M - 1\<close>, then, for an American option, the whole row.\<close>

definition implicit_k :: "vec \<Rightarrow> vec \<Rightarrow> vec \<Rightarrow> nat \<Rightarrow> vec" where
  "implicit_k next a c M =
     (replicate M 0)[0 := - (a ! 0) * next ! 0, M - 1 := - (c ! (M - 1)) * next ! M]"

definition exercise_values :: "nat \<Rightarrow> real \<Rightarrow> real \<Rightarrow> bool \<Rightarrow> vec" where
  "exercise_values M dS K is_call =
     (if is_call then map (\<lambda>j. real j * dS - K) [0..<M + 1]
      else map (\<lambda>j. K - real j * dS) [0..<M + 1])"

definition implicit_row ::
  "matrix \<Rightarrow> vec \<Rightarrow> vec \<Rightarrow> nat \<Rightarrow> real \<Rightarrow> real \<Rightarrow> bool \<Rightarrow> bool \<Rightarrow> vec \<Rightarrow> vec \<Rightarrow> vec" where
  "implicit_row B a c M dS K is_call is_american next cur =
     (let k_i = implicit_k next a c M;
          row = dot_vm (map2 (+) (take M next) k_i) B @ drop M cur
      in if is_american then np_maximum (exercise_values M dS K is_call) row else row)"

definition backward_step ::
  "matrix \<Rightarrow> vec \<Rightarrow> vec \<Rightarrow> nat \<Rightarrow> real \<Rightarrow> real \<Rightarrow> bool \<Rightarrow> bool \<Rightarrow> nat \<Rightarrow> matrix \<Rightarrow> matrix" where
  "backward_step B a c M dS K is_call is_american i FV =
     FV[i := implicit_row B a c M dS K is_call is_american (FV ! (i + 1)) (FV ! i)]"

definition backward_iteration ::
  "matrix \<Rightarrow> matrix \<Rightarrow> vec \<Rightarrow> vec \<Rightarrow> nat \<Rightarrow> nat \<Rightarrow> real \<Rightarrow> real \<Rightarrow> bool \<Rightarrow> bool \<Rightarrow> matrix" where
  "backward_iteration FV B a c N M dS K is_call is_american =
     for_range_down (backward_step B a c M dS K is_call is_american) N FV"

text \<open>The entry point up to the end of the loop: the final grid and the norm of \<open>B\<close>.
  \<open>S_max / M\<close> and \<open>T / N\<close> are Python divisions and raise on a zero divisor.\<close>

definition implicit_grid ::
  "real \<Rightarrow> real \<Rightarrow> real \<Rightarrow> real \<Rightarrow> real \<Rightarrow> int \<Rightarrow> int \<Rightarrow> bool \<Rightarrow> bool \<Rightarrow> error + matrix \<times> real" where
  "implicit_grid T K r q sigma N M is_call is_american =
     (let S_max = 2.0 * K
      in if M = 0 then Inl ZeroDivisionError
         else if N = 0 then Inl ZeroDivisionError
         else
           let dS = S_max / real_of_int M;
               dt = T / real_of_int N;
               (a, b, c) = compute_transition_probabilities M dt r q sigma
           in case create_tridiagonal_matrix a b c of
                Inl e \<Rightarrow> Inl e
              | Inr (B, infinity_norm) \<Rightarrow>
                  (case initialize_option_matrix N M S_max dS K r dt is_call of
                     Inl e \<Rightarrow> Inl e
                   | Inr FV \<Rightarrow>
                       Inr (backward_iteration FV B a c (nat N) (nat M) dS K is_call is_american,
                            infinity_norm)))"

definition vanilla_option_implicit ::
  "real \<Rightarrow> real \<Rightarrow> real \<Rightarrow> real \<Rightarrow> real \<Rightarrow> real \<Rightarrow> int \<Rightarrow> int \<Rightarrow> bool \<Rightarrow> bool \<Rightarrow> error + real \<times> real" where
  "vanilla_option_implicit S_0 T K r q sigma N M is_call is_american =
     (case implicit_grid T K r q sigma N M is_call is_american of
        Inl e \<Rightarrow> Inl e
      | Inr (FV, infinity_norm) \<Rightarrow> Inr (FV ! 0 ! nat (M div 2), infinity_norm))"


subsection \<open>The explicit scheme (\<open>VanillaOption_Explicit\<close>)\<close>

text \<open>An array divided by a scalar. NumPy does not raise on a zero divisor: every entry of
  the quotient is then \<open>nan\<close> (for \<open>0 / 0\<close>) or an infinity, none of them a number. The
  model has no such values; the quotient by zero is \<open>None\<close>.\<close>

definition np_divide :: "vec \<Rightarrow> real \<Rightarrow> vec option" where
  "np_divide xs d = (if d = 0 then None else Some (map (\<lambda>x. x / d) xs))"

text \<open>The coefficient vectors of the explicit scheme, each divided by \<open>1 + r * dt\<close>.\<close>

definition explicit_coefficients ::
  "int \<Rightarrow> real \<Rightarrow> real \<Rightarrow> real \<Rightarrow> real \<Rightarrow> (vec \<times> vec \<times> vec) option" where
  "explicit_coefficients M dt r q sigma =
     (let j = arange_int M
      in case (np_divide (map (\<lambda>j. - 0.5 * (r - q) * dt * j + 0.5 * sigma\<^sup>2 * dt * j\<^sup>2) j)
                 (1.0 + r * dt),
               np_divide (map (\<lambda>j. 1.0 - sigma\<^sup>2 * dt * j\<^sup>2) j) (1.0 + r * dt),
               np_divide (map (\<lambda>j. 0.5 * (r - q) * dt * j + 0.5 * sigma\<^sup>2 * dt * j\<^sup>2) j)
                 (1.0 + r * dt)) of
           (Some a, Some b, Some c) \<Rightarrow> Some (a, b, c)
         | _ \<Rightarrow> None)"

text \<open>The arrays the rest of the function works with. Where the divisor is zero the
  program goes on with arrays of \<open>nan\<close> and infinities, and every entry it computes from
  them is one of these; the grid of the model holds reals, so the model goes on with zeros
  in their place. There, only the entries the loop never writes (the column \<open>M\<close> and the
  row \<open>N\<close>) are those of the program, and every statement below about another entry, or
  about the norm, is made for a non-zero divisor.\<close>

definition explicit_arrays :: "int \<Rightarrow> real \<Rightarrow> real \<Rightarrow> real \<Rightarrow> real \<Rightarrow> vec \<times> vec \<times> vec" where
  "explicit_arrays M dt r q sigma =
     (case explicit_coefficients M dt r q sigma of
        Some abc \<Rightarrow> abc
      | None \<Rightarrow> (replicate (nat M) 0, replicate (nat M) 0, replicate (nat M) 0))"

text \<open>\<open>A = np.diag(b) + np.diag(a[1:], k=-1) + np.diag(c[0:M-1], k=1)\<close>.\<close>

definition explicit_matrix :: "vec \<Rightarrow> vec \<Rightarrow> vec \<Rightarrow> int \<Rightarrow> matrix" where
  "explicit_matrix a b c M =
     mat_add (mat_add (np_diag b 0) (np_diag (tl a) (- 1))) (np_diag (take (nat (M - 1)) c) 1)"

text \<open>The boundary conditions, for \<open>N \<ge> 1\<close> and \<open>M \<ge> 1\<close>: the two columns, then the
  payoff row \<open>FV[N, :]\<close>.\<close>

definition explicit_boundary ::
  "nat \<Rightarrow> nat \<Rightarrow> real \<Rightarrow> real \<Rightarrow> real \<Rightarrow> real \<Rightarrow> real \<Rightarrow> bool \<Rightarrow> error + matrix" where
  "explicit_boundary N M S_max dS K r dt isCall =
     (let S_min = 0.0;
          disc = (\<lambda>j. exp (- r * (real N - real j) * dt));
          FV = map (\<lambda>j. if isCall
                         then (replicate (M + 1) 0)[0 := S_min, M := S_max * disc j]
                         else (replicate (M + 1) 0)[0 := K * disc j, M := 0])
                   [0..<N + 1]
      in case arange S_min (S_max + dS / 2.0) dS of
           Inl e \<Rightarrow> Inl e
         | Inr S \<Rightarrow>
             assign_row FV N (M + 1)
               (if isCall then map (\<lambda>s. max (s - K) 0) S
                else map (\<lambda>s. max (K - s) 0) S))"

text \<open>The loop body for the row \<open>i\<close>, reading the row \<open>FV[i + 1]\<close> (\<open>next\<close>) and
  rewriting the row \<open>FV[i]\<close> (\<open>cur\<close>).\<close>

definition explicit_k :: "vec \<Rightarrow> vec \<Rightarrow> vec \<Rightarrow> nat \<Rightarrow> vec" where
  "explicit_k next a c M =
     (replicate M 0)[0 := a ! 0 * next ! 0, M - 1 := c ! (M - 1) * next ! M]"

text \<open>The floor of the American branch,
  \<open>np.arange(S_min, S_max + dS/2, dS) - K\<close> or \<open>K - np.arange(...)\<close>; the step \<open>dS\<close> is
  not zero here, since the payoff row was built from the same \<open>arange\<close>.\<close>

definition explicit_exercise_values :: "real \<Rightarrow> real \<Rightarrow> real \<Rightarrow> bool \<Rightarrow> vec" where
  "explicit_exercise_values S_max dS K isCall =
     (let S = map (\<lambda>i. 0.0 + real i * dS) [0..<nat \<lceil>(S_max + dS / 2 - 0.0) / dS\<rceil>]
      in if isCall then map (\<lambda>s. s - K) S else map (\<lambda>s. K - s) S)"

definition explicit_row ::
  "matrix \<Rightarrow> vec \<Rightarrow> vec \<Rightarrow> nat \<Rightarrow> real \<Rightarrow> real \<Rightarrow> real \<Rightarrow> bool \<Rightarrow> bool \<Rightarrow> vec \<Rightarrow> vec \<Rightarrow> vec" where
  "explicit_row A a c M S_max dS K isCall isAmerican next cur =
     (let k_i = explicit_k next a c M;
          row = map2 (+) (dot_vm (take M next) A) k_i @ drop M cur
      in if isAmerican then np_maximum (explicit_exercise_values S_max dS K isCall) row else row)"

definition explicit_step ::
  "matrix \<Rightarrow> vec \<Rightarrow> vec \<Rightarrow> nat \<Rightarrow> real \<Rightarrow> real \<Rightarrow> real \<Rightarrow> bool \<Rightarrow> bool \<Rightarrow> nat \<Rightarrow> matrix \<Rightarrow> matrix" where
  "explicit_step A a c M S_max dS K isCall isAmerican i FV =
     FV[i := explicit_row A a c M S_max dS K isCall isAmerican (FV ! (i + 1)) (FV ! i)]"

definition explicit_loop ::
  "matrix \<Rightarrow> vec \<Rightarrow> vec \<Rightarrow> nat \<Rightarrow> real \<Rightarrow> real \<Rightarrow> real \<Rightarrow> bool \<Rightarrow> bool \<Rightarrow> nat \<Rightarrow> matrix \<Rightarrow> matrix" where
  "explicit_loop A a c M S_max dS K isCall isAmerican N FV =
     for_range_down (explicit_step A a c M S_max dS K isCall isAmerican) N FV"

text \<open>The function up to the end of the loop: the final grid and the norm of \<open>A\<close>.
  \<open>float(M)\<close> and \<open>float(N)\<close> divide Python floats, so a zero raises; a negative \<open>M\<close>
  gives an empty \<open>A\<close>, whose norm raises; \<open>np.zeros\<close> raises on a negative size, and
  \<open>FV[N, :]\<close> on a grid without rows.\<close>

definition explicit_grid ::
  "real \<Rightarrow> real \<Rightarrow> real \<Rightarrow> real \<Rightarrow> real \<Rightarrow> int \<Rightarrow> int \<Rightarrow> bool \<Rightarrow> bool \<Rightarrow> error + matrix \<times> real" where
  "explicit_grid T K r q sigma N M isCall isAmerican =
     (let S_max = 2.0 * K
      in if M = 0 then Inl ZeroDivisionError
         else if N = 0 then Inl ZeroDivisionError
         else
           let dS = (S_max - 0.0) / real_of_int M;
               dt = T / real_of_int N;
               (a, b, c) = explicit_arrays M dt r q sigma;
               A = explicit_matrix a b c M
           in if M < 0 then Inl ValueError
              else if N + 1 < 0 then Inl ValueError
              else if N + 1 = 0 then (if dS = 0 then Inl ZeroDivisionError else Inl IndexError)
              else
                case explicit_boundary (nat N) (nat M) S_max dS K r dt isCall of
                  Inl e \<Rightarrow> Inl e
                | Inr FV \<Rightarrow>
                    Inr (explicit_loop A a c (nat M) S_max dS K isCall isAmerican (nat N) FV,
                         norm_inf A))"

text \<open>The returned fair value is \<open>FV[0, (FV.shape[1] + 1) / 2]\<close>, with Python 2's integer
  division and \<open>FV.shape[1] = M + 1\<close>.\<close>

definition VanillaOption_Explicit ::
  "real \<Rightarrow> real \<Rightarrow> real \<Rightarrow> real \<Rightarrow> real \<Rightarrow> real \<Rightarrow> int \<Rightarrow> int \<Rightarrow> bool \<Rightarrow> bool \<Rightarrow> error + real \<times> real" where
  "VanillaOption_Explicit S_0 T K r q sigma N M isCall isAmerican =
     (case explicit_grid T K r q sigma N M isCall isAmerican of
        Inl e \<Rightarrow> Inl e
      | Inr (FV, infinityNormOfA) \<Rightarrow> Inr (FV ! 0 ! nat ((M + 1 + 1) div 2), infinityNormOfA))"


section \<open>The quantities the specification names\<close>

text \<open>The intrinsic value at the space node \<open>j\<close>, as the specification words it:
  \<open>max(j * dS - K, 0)\<close> for a call and \<open>max(K - j * dS, 0)\<close> for a put.\<close>

definition intrinsic :: "real \<Rightarrow> real \<Rightarrow> bool \<Rightarrow> nat \<Rightarrow> real" where
  "intrinsic dS K is_call j =
     (if is_call then max (real j * dS - K) 0 else max (K - real j * dS) 0)"

text \<open>The boundary columns of the time row \<open>i\<close>, as the specification words them: for a
  call the low boundary is 0 and the high boundary \<open>S_max * exp(-r * (N - i) * dt)\<close> with
  \<open>S_max = 2 * K\<close>; for a put the low boundary is the discounted strike and the high
  boundary 0. The interior of the row is zero.\<close>

definition boundary_row :: "nat \<Rightarrow> nat \<Rightarrow> real \<Rightarrow> real \<Rightarrow> real \<Rightarrow> bool \<Rightarrow> nat \<Rightarrow> vec" where
  "boundary_row N M K r dt is_call i =
     (if is_call
      then (replicate (M + 1) 0)[0 := 0, M := 2 * K * exp (- r * (real N - real i) * dt)]
      else (replicate (M + 1) 0)[0 := K * exp (- r * (real N - real i) * dt), M := 0])"

text \<open>The value grid after the boundary conditions: the boundary rows, with the last row
  replaced by the terminal payoff.\<close>

definition initial_grid :: "nat \<Rightarrow> nat \<Rightarrow> real \<Rightarrow> real \<Rightarrow> real \<Rightarrow> real \<Rightarrow> bool \<Rightarrow> matrix" where
  "initial_grid N M dS K r dt is_call =
     (map (boundary_row N M K r dt is_call) [0..<N + 1])
       [N := map (intrinsic dS K is_call) [0..<M + 1]]"

text \<open>A matrix applied to a vector, \<open>(A v)[i] = sum_k A[i, k] * v[k]\<close>: the reading of
  ``\<open>A\<close> applied to the vector'' in the specification.\<close>

definition apply_matrix :: "matrix \<Rightarrow> vec \<Rightarrow> vec" where
  "apply_matrix A v = map (\<lambda>row. \<Sum>k\<leftarrow>[0..<length v]. row ! k * v ! k) A"

text \<open>The transpose of a square matrix.\<close>

definition transpose_matrix :: "matrix \<Rightarrow> matrix" where
  "transpose_matrix A = map (\<lambda>j. map (\<lambda>i. A ! i ! j) [0..<length A]) [0..<length A]"

text \<open>The \<open>M \<times> M\<close> tridiagonal matrix of the specification: diagonal \<open>b\<close>,
  sub-diagonal \<open>a[1:]\<close> (so that row \<open>i\<close> holds \<open>a[i]\<close> in column \<open>i - 1\<close>) and
  super-diagonal \<open>c[:-1]\<close> (row \<open>i\<close> holds \<open>c[i]\<close> in column \<open>i + 1\<close>).\<close>

definition tridiagonal_operator :: "vec \<Rightarrow> vec \<Rightarrow> vec \<Rightarrow> nat \<Rightarrow> matrix" where
  "tridiagonal_operator a b c M =
     map (\<lambda>i. map (\<lambda>j. if i = j then b ! i
                       else if i = j + 1 then a ! i
                       else if j = i + 1 then c ! i
                       else 0) [0..<M]) [0..<M]"

text \<open>The product of two square matrices, row by row, and the identity matrix.\<close>

definition mat_mul :: "matrix \<Rightarrow> matrix \<Rightarrow> matrix" where
  "mat_mul A B = map (\<lambda>row. dot_vm row B) A"

definition identity_matrix :: "nat \<Rightarrow> matrix" where
  "identity_matrix n = map (identity_row n) [0..<n]"

definition square :: "nat \<Rightarrow> matrix \<Rightarrow> bool" where
  "square n A \<longleftrightarrow> length A = n \<and> list_all (\<lambda>row. length row = n) A"

text \<open>The two invariants of the elimination on the augmented matrix \<open>[L | R]\<close>. Every row
  keeps \<open>L = R A\<close>: its left half is its right half times the matrix being inverted. After
  the column \<open>j - 1\<close> has been eliminated, the first \<open>j\<close> columns are those of the identity
  matrix.\<close>

definition row_ok :: "matrix \<Rightarrow> nat \<Rightarrow> vec \<Rightarrow> bool" where
  "row_ok A n row \<longleftrightarrow>
     length row = 2 * n \<and> list_all (\<lambda>j. row ! j = (\<Sum>k\<leftarrow>[0..<n]. row ! (n + k) * A ! k ! j)) [0..<n]"

definition cols_done :: "nat \<Rightarrow> nat \<Rightarrow> matrix \<Rightarrow> bool" where
  "cols_done n j R \<longleftrightarrow>
     list_all (\<lambda>i. list_all (\<lambda>k. R ! i ! k = (if i = k then 1 else 0)) [0..<j]) [0..<n]"


section \<open>Notions used in the proofs\<close>

subsection \<open>Invertibility, norms and checked rows\<close>

text \<open>The rows the elimination can reach from a set of rows \<open>S\<close>: it scales a row and
  subtracts a multiple of one row from another.\<close>

inductive_set row_span :: "vec set \<Rightarrow> vec set" for S :: "vec set" where
  base: "v \<in> S \<Longrightarrow> v \<in> row_span S"
| scaled: "v \<in> row_span S \<Longrightarrow> scale_row s v \<in> row_span S"
| subtracted: "v \<in> row_span S \<Longrightarrow> w \<in> row_span S \<Longrightarrow> sub_row v s w \<in> row_span S"

text \<open>An \<open>n \<times> n\<close> matrix is injective when it maps only the zero vector to zero.\<close>

definition injective_matrix :: "nat \<Rightarrow> matrix \<Rightarrow> bool" where
  "injective_matrix n A \<longleftrightarrow>
     (\<forall>x. length x = n \<longrightarrow> (\<forall>i<n. (\<Sum>t\<leftarrow>[0..<n]. A ! i ! t * x ! t) = 0) \<longrightarrow> (\<forall>t<n. x ! t = 0))"

text \<open>Row \<open>i\<close> of the augmented matrix \<open>[A | I]\<close> the elimination starts from.\<close>

definition augmented_row :: "matrix \<Rightarrow> nat \<Rightarrow> nat \<Rightarrow> vec" where
  "augmented_row A n i = A ! i @ identity_row n i"

text \<open>When the elimination finds no pivot in column \<open>j\<close>, the first \<open>j\<close> columns being
  those of the identity already, this vector is mapped to zero by the left half of every
  row.\<close>

definition kernel_candidate :: "nat \<Rightarrow> nat \<Rightarrow> matrix \<Rightarrow> vec" where
  "kernel_candidate n j R =
     map (\<lambda>t. if t = j then 1 else if t < j then - (R ! t ! j) else 0) [0..<n]"

text \<open>A row of the augmented matrix whose left half is orthogonal to \<open>x\<close>.\<close>

definition annihilated :: "nat \<Rightarrow> vec \<Rightarrow> vec \<Rightarrow> bool" where
  "annihilated n x v \<longleftrightarrow> length v = 2 * n \<and> (\<Sum>t\<leftarrow>[0..<n]. v ! t * x ! t) = 0"

text \<open>The sum of the absolute values of a vector.\<close>

definition l1_norm :: "vec \<Rightarrow> real" where
  "l1_norm v = sum_list (map abs v)"

text \<open>A row vector \<open>y\<close> times the tridiagonal matrix of \<open>a\<close>, \<open>b\<close>, \<open>c\<close>, computed from
  the three diagonals: entry \<open>j\<close> is \<open>b[j] y[j] + c[j-1] y[j-1] + a[j+1] y[j+1]\<close>. The
  last entry has no third term; \<open>t\<close> is put in its place (\<open>0\<close> for the plain product).\<close>

definition tri_vm :: "vec \<Rightarrow> vec \<Rightarrow> vec \<Rightarrow> real \<Rightarrow> vec \<Rightarrow> vec" where
  "tri_vm a b c t y =
     map2 (+) (map2 (+) (map2 (*) b y) (0 # butlast (map2 (*) c y))) (tl (map2 (*) a y) @ [t])"

text \<open>The residual of a candidate row \<open>Z\<close> for one implicit step, all quantities scaled to
  integers: the step solves \<open>Z A = Znext + k\<close>, where \<open>k\<close> is zero but for its last entry
  \<open>g * H\<close>; with \<open>d\<close> times the operator in \<open>a\<close>, \<open>b\<close>, \<open>c\<close>, the residual is the
  sum of the absolute values of \<open>d * Znext + k - Z (d A)\<close>.\<close>

definition step_residual :: "vec \<Rightarrow> vec \<Rightarrow> vec \<Rightarrow> real \<Rightarrow> real \<Rightarrow> vec \<Rightarrow> real \<Rightarrow> vec \<Rightarrow> real" where
  "step_residual a b c d g Znext H Z =
     l1_norm (map2 (-) (map (\<lambda>x. d * x) Znext) (tri_vm a b c (- (g * H)) Z))"

text \<open>A list of candidate rows, from the terminal row on, together with the boundary values
  \<open>H\<close>, is checked step by step: neighbouring rows have the same length and the residual
  of each step is at most \<open>tol\<close>.\<close>

fun check_rows :: "vec \<Rightarrow> vec \<Rightarrow> vec \<Rightarrow> real \<Rightarrow> real \<Rightarrow> real \<Rightarrow> vec list \<Rightarrow> vec \<Rightarrow> bool" where
  "check_rows a b c d g tol (Znext # Z # rest) (H # Hs) =
     (length Z = length Znext \<and> step_residual a b c d g Znext H Z \<le> tol
      \<and> check_rows a b c d g tol (Z # rest) Hs)"
| "check_rows a b c d g tol Zs Hs = True"

text \<open>A list of enclosures \<open>l \<le> P * q^m \<le> u\<close> of the powers of a number \<open>q\<close> with
  \<open>lo \<le> den * q \<le> hi\<close>, each obtained from the one before, and of approximations
  \<open>H\<close> of \<open>P * q^m / \<rho>\<close> within \<open>\<eta>\<close>.\<close>

fun check_boundary ::
  "real \<Rightarrow> real \<Rightarrow> real \<Rightarrow> real \<Rightarrow> real \<Rightarrow> real \<Rightarrow> real \<Rightarrow> (real \<times> real \<times> real) list \<Rightarrow> bool" where
  "check_boundary lo hi den \<rho> \<eta> l u [] = True"
| "check_boundary lo hi den \<rho> \<eta> l u ((H, l', u') # rest) =
     (l' * den \<le> l * lo \<and> u * hi \<le> u' * den \<and> \<rho> * (H - \<eta>) \<le> l' \<and> u' \<le> \<rho> * (H + \<eta>)
      \<and> check_boundary lo hi den \<rho> \<eta> l' u' rest)"

text \<open>Row dominance of the tridiagonal matrix of \<open>a\<close>, \<open>b\<close>, \<open>c\<close> with margin \<open>d\<close>:
  \<open>|a[k]| + |c[k]| + d \<le> |b[k]|\<close> in every row.\<close>

definition dominant :: "real \<Rightarrow> vec \<Rightarrow> vec \<Rightarrow> vec \<Rightarrow> bool" where
  "dominant d a b c = list_all (\<lambda>(x, y, z). \<bar>x\<bar> + \<bar>z\<bar> + d \<le> \<bar>y\<bar>) (zip a (zip b c))"


subsection \<open>A certificate for the sample run\<close>

text \<open>The sample run of the notebook (\<open>S_0 = 50, T = 1, K = 50, r = 0.1, q = 0,
  sigma = 0.25, N = 100, M = 40\<close>): the three coefficient vectors times 16000, which are
  integers.\<close>

definition sample_a :: vec where
  "sample_a = map (\<lambda>j. 8 * real j - 5 * (real j)\<^sup>2) [0..<40]"

definition sample_b :: vec where
  "sample_b = map (\<lambda>j. 16016 + 10 * (real j)\<^sup>2) [0..<40]"

definition sample_c :: vec where
  "sample_c = map (\<lambda>j. - 8 * real j - 5 * (real j)\<^sup>2) [0..<40]"

text \<open>Candidates for the rows \<open>FV[100 - m, 0:40]\<close> of the sample run, for
  \<open>m = 0, ..., 100\<close>, times \<open>10^7\<close> and rounded to integers. The first is the payoff
  row. They are data: the proof checks them with \<open>check_rows\<close> and does not depend on how
  they were found.\<close>

definition sample_rows :: "vec list" where
  "sample_rows =
     [[0, 0, 0, 0, 0, 0, 0, 0, 0, 0, 0, 0, 0, 0, 0, 0, 0, 0, 0, 0, 0, 25000000, 50000000,
       75000000, 100000000, 125000000, 150000000, 175000000, 200000000, 225000000, 250000000,
       275000000, 300000000, 325000000, 350000000, 375000000, 400000000, 425000000, 450000000,
       475000000],
      [0, 0, 0, 0, 0, 0, 0, 0, 0, 0, 0, 0, 0, 0, 0, 7, 118, 1669, 21268, 246153, 2605149,
       25362268, 50099178, 75044209, 100012818, 124984292, 149956138, 174928036, 199899941,
       224871849, 249843759, 274815688, 299787706, 324760148, 349734539, 374717529, 399737118,
       424907156, 450675414, 478747896],
      [0, 0, 0, 0, 0, 0, 0, 0, 0, 0, 0, 0, 0, 0, 3, 46, 618, 7279, 74553, 655660, 4781534,
       25891842, 50241696, 75096555, 100026941, 124968694, 149912202, 174855991, 199799832,
       224743705, 249687716, 274632420, 299580514, 324544501, 349580091, 374926159, 401570355,
       433456509, 485817869, 615651923],
      [0, 0, 0, 0, 0, 0, 0, 0, 0, 0, 0, 0, 0, 1, 12, 160, 1889, 19110, 164074, 1171413, 6635961,
       26523509, 50430504, 75160979, 100043651, 124953532, 149868269, 174783890, 199699707,
       224615735, 249532643, 274453615, 299392454, 324405701, 349712045, 376107058, 406293001,
       448718067, 526969883, 695463204],
      [0, 0, 0, 0, 0, 0, 0, 0, 0, 0, 0, 0, 0, 2, 34, 420, 4415, 39152, 290124, 1754113, 8245567,
       27214089, 50663289, 75240329, 100064319, 124939248, 149824464, 174711783, 199599676,
       224488384, 249380392, 274286292, 299247451, 324414820, 350301312, 378517033, 413666988,
       467449231, 564901621, 745244849],
      [0, 0, 0, 0, 0, 0, 0, 0, 0, 0, 0, 0, 0, 6, 82, 923, 8725, 68975, 450764, 2376811, 9666488,
       27935168, 50935245, 75336325, 100090245, 124926365, 149780970, 174639774, 199499978,
       224362571, 249234294, 274141341, 299176562, 324644737, 351467137, 382179637, 423019699,
       487232620, 597389705, 778328091],
      [0, 0, 0, 0, 0, 0, 0, 0, 0, 0, 0, 0, 1, 14, 174, 1788, 15366, 109708, 642895, 3021119,
       10939913, 28668214, 51240665, 75449704, 100122558, 124915447, 149738022, 174568039,
       199401061, 224239836, 249099324, 274032878, 299213463, 325156451, 353262905, 386960735,
       433625781, 506633369, 624573404, 801577325],
      [0, 0, 0, 0, 0, 0, 0, 0, 0, 0, 0, 0, 2, 29, 333, 3155, 24867, 162067, 862932, 3674584,
       12096335, 29401309, 51573811, 75580436, 100162158, 124907066, 149695912, 174496861,
       199303649, 224122451, 248981991, 273976958, 299389972, 325991534, 355683464, 392649281,
       444873464, 524923246, 647242980, 818700237],
      [0, 0, 0, 0, 0, 0, 0, 0, 0, 0, 0, 0, 4, 55, 588, 5177, 37719, 226405, 1107212, 4328859,
       13158549, 30126941, 51929356, 75727929, 100209705, 124901774, 149654987, 174426653,
       199208795, 224013422, 248889997, 273990072, 299732662, 327170312, 358681386, 399015767,
       456306756, 541803812, 666247536, 831801216],
      [0, 0, 0, 0, 0, 0, 0, 0, 0, 0, 0, 1, 8, 98, 977, 8022, 54363, 302784, 1372219, 4978441,
       14143772, 30840526, 52302577, 75891221, 100265626, 124900082, 149615652, 174357985,
       199117910, 223916426, 248831749, 274087755, 300260929, 328693870, 362184009, 405846150,
       467612628, 557213440, 682319143, 842134931],
      [0, 0, 0, 0, 0, 0, 0, 0, 0, 0, 0, 1, 15, 165, 1542, 11860, 75173, 391026, 1654716,
       5619782, 15065151, 31539419, 52689412, 76069121, 100330146, 124902458, 149578372,
       174291601, 199032761, 223835667, 248815827, 274283496, 300986387, 330548002, 366107444,
       412957434, 478590790, 571209698, 696043635, 850485425],
      [0, 0, 0, 0, 0, 0, 0, 0, 0, 0, 0, 2, 25, 265, 2329, 16864, 100463, 490782, 1951795,
       6250683, 15932840, 32222246, 53086433, 76260322, 100403312, 124909316, 149543673,
       174228422, 198955438, 223775693, 248850484, 274588044, 301913238, 332707663, 370366518,
       420201872, 489122903, 583902825, 707877147, 857364343],
      [0, 0, 0, 0, 0, 0, 0, 0, 0, 0, 0, 3, 40, 407, 3392, 23204, 130478, 601571, 2260890,
       6869863, 16754773, 32888455, 53490787, 76463485, 100485039, 124921028, 149512143,
       174169549, 198888305, 223741192, 248943227, 275009074, 303039254, 335141090, 374880996,
       427465110, 499147136, 595420206, 718172299, 863118815],
      [0, 0, 0, 0, 0, 0, 0, 0, 0, 0, 0, 5, 63, 605, 4787, 31043, 165400, 722826, 2579765,
       7476664, 17537227, 33538019, 53900132, 76677296, 100575134, 124937927, 149484435,
       174116240, 198833919, 223736798, 249100515, 275551168, 304357032, 337813188, 379578941,
       434661668, 508639084, 605888523, 727202406, 867992560],
      [0, 0, 0, 0, 0, 0, 0, 0, 0, 0, 1, 8, 95, 874, 6573, 40536, 205354, 853927, 2906492,
       8070850, 18285227, 34171241, 54312552, 76900500, 100673337, 124960318, 149461261,
       174069897, 198794958, 223766908, 249327566, 276216014, 305855311, 340688092, 384398084,
       441729715, 517598229, 615425578, 735180890, 872161887],
      [0, 0, 0, 0, 0, 0, 0, 0, 0, 0, 1, 13, 139, 1228, 8813, 51827, 250411, 994223, 3239419,
       8652459, 19002843, 34788616, 54726501, 77131928, 100779342, 124988488, 149443393,
       174032027, 198774128, 223835543, 249628273, 277002748, 307520182, 343730948, 389285933,
       448626100, 526038667, 624137210, 742276032, 875757680],
      [0, 0, 0, 0, 0, 0, 0, 0, 0, 0, 1, 19, 200, 1686, 11570, 65047, 300593, 1143058, 3577138,
       9221711, 19693412, 35390748, 55140731, 77370510, 100892822, 125022714, 149431650,
       174004215, 198774090, 223946233, 250005204, 277908359, 309336141, 346909064, 394199165,
       455322055, 533982924, 632116778, 748621922, 878879313],
      [0, 0, 0, 0, 0, 0, 0, 0, 0, 0, 2, 28, 281, 2267, 14908, 80314, 355884, 1299781, 3918453,
       9778934, 20359700, 35978295, 55554248, 77615279, 101013448, 125063273, 149426894,
       173988084, 198797388, 224101953, 250459671, 278928129, 311286934, 350192561, 399102664,
       461799675, 541457913, 639445837, 754326552, 881603727],
      [0, 0, 0, 0, 0, 0, 0, 0, 0, 0, 3, 40, 386, 2993, 18891, 97730, 416229, 1463756, 4262354,
       10324526, 21004026, 36551929, 55966263, 77865373, 101140906, 125110448, 149430014,
       173985260, 198846386, 224305080, 250991835, 280056037, 313356219, 353554676, 403968428,
       468049117, 548492350, 646195316, 759477794, 883991517],
      [0, 0, 0, 0, 0, 0, 0, 0, 0, 0, 5, 56, 521, 3884, 23582, 117386, 481546, 1634376, 4607987,
       10858916, 21628352, 37112318, 56376157, 78120033, 101274905, 125164531, 149441920,
       173997340, 198923223, 224557387, 251600850, 281285141, 315528041, 356971807, 408774487,
       474066441, 555115142, 652426814, 764147859, 886091131],
      [0, 0, 0, 0, 0, 0, 0, 0, 0, 0, 7, 78, 691, 4966, 29043, 139357, 551729, 1811059, 4954634,
       11382546, 22234358, 37660108, 56783452, 78378597, 101415185, 125225826, 149463525,
       174025857, 199029779, 224860057, 252285012, 282607899, 317787175, 360423410, 413503905,
       479851951, 561354418, 658193861, 768396632, 887941823],
      [0, 0, 0, 0, 0, 0, 0, 0, 0, 1, 10, 105, 904, 6261, 35333, 163703, 626650, 1993260,
       5301690, 11895859, 22823492, 38195920, 57187784, 78640496, 101561526, 125294651,
       149495737, 174072259, 199167654, 225213715, 253041909, 284016448, 320119337, 363891797,
       418143896, 485408951, 567236971, 663543055, 772274206, 889575776],
      [0, 0, 0, 0, 0, 0, 0, 0, 0, 1, 13, 140, 1165, 7796, 42510, 190472, 706167, 2180464,
       5648649, 12399290, 23397014, 38720343, 57588882, 78905249, 101713745, 125371335,
       149539439, 174137882, 199338155, 225618474, 253868566, 285502818, 322511314, 367361884,
       422685055, 490742812, 572787977, 668515065, 775822818, 891019658],
      [0, 0, 0, 0, 0, 0, 0, 0, 0, 1, 18, 185, 1482, 9595, 50627, 219702, 790127, 2372192,
       5995086, 12893257, 23956027, 39233934, 57986557, 79172450, 101871703, 125456217,
       149595488, 174223936, 199542297, 226073987, 254761581, 287059109, 324951016, 370820922,
       427120716, 495860281, 578030871, 673145486, 779078346, 892295777],
      [0, 0, 0, 0, 0, 0, 0, 0, 0, 2, 25, 240, 1864, 11684, 59734, 251414, 878368, 2568000,
       6340646, 13378161, 24501510, 39737220, 58380684, 79441770, 102035301, 125549642,
       149664693, 174331492, 199780810, 226579501, 255717239, 288677623, 327427489, 374258224,
       431446414, 500768974, 582987344, 677465578, 782071476, 893422959],
      [0, 0, 0, 0, 0, 0, 0, 0, 0, 3, 33, 308, 2319, 14091, 69881, 285624, 970721, 2767475,
       6685034, 13854384, 25034328, 40230697, 58771190, 79712943, 102204478, 125651958,
       149747816, 174461477, 200054149, 227133921, 256731626, 290350958, 329930878, 377664914,
       435659439, 505477001, 587677390, 681502880, 784828618, 894417211],
      [0, 0, 0, 0, 0, 0, 0, 0, 0, 4, 43, 391, 2856, 16841, 81109, 322334, 1067016, 2970237,
       7028003, 14322288, 25555260, 40714833, 59158051, 79985765, 102379209, 125763512,
       149845557, 174614663, 200362515, 227735855, 257800706, 292072078, 332452383, 381033684,
       439758473, 509992697, 592119394, 685281738, 787372640, 895292247],
      [0, 0, 0, 0, 0, 0, 0, 0, 0, 5, 55, 491, 3485, 19961, 93460, 361540, 1167079, 3175933,
       7369350, 14782215, 26065004, 41190070, 59541279, 80260083, 102559501, 125884645,
       149958554, 174791676, 200705871, 228383679, 258920404, 293834351, 334984191, 384358582,
       443743292, 514324432, 596330240, 688823748, 789723450, 896059889],
      [0, 0, 0, 0, 0, 0, 0, 0, 0, 6, 71, 611, 4215, 23476, 106969, 403227, 1270739, 3384242,
       7708906, 15234488, 26564195, 41656826, 59920920, 80535795, 102745393, 126015688,
       150087372, 174992991, 201083968, 229075575, 260086659, 295631575, 337519401, 387634819,
       447614527, 518480472, 600325419, 692148125, 791898467, 896730393],
      [0, 0, 0, 0, 0, 0, 0, 0, 1, 8, 89, 754, 5057, 27412, 121670, 447375, 1377826, 3594866,
       8046533, 15679413, 27053407, 42115497, 60297046, 80812840, 102936945, 126156958,
       150232508, 175218942, 201496365, 229809583, 261295480, 297457991, 340051952, 390858599,
       451373471, 522468887, 604119147, 695272024, 793913007, 897312702],
      [0, 0, 0, 0, 0, 0, 0, 0, 1, 11, 112, 922, 6021, 31793, 137590, 493957, 1488170, 3807532,
       8382120, 16117278, 27533169, 42566461, 60669753, 81091193, 103134240, 126308753,
       150394381, 175469726, 201942457, 230583638, 262542976, 299308275, 342576543, 394026975,
       455021915, 526297487, 607724473, 698210806, 795780595, 897814660],
      [0, 0, 0, 0, 0, 0, 0, 0, 1, 14, 140, 1119, 7119, 36644, 154755, 542941, 1601608, 4021991,
       8715575, 16548355, 28003964, 43010075, 61039157, 81370863, 103337376, 126471351,
       150573338, 175745412, 202421491, 231395604, 263825390, 301177535, 345088562, 397137716,
       458562033, 529973783, 611153379, 700978268, 797513226, 898243174],
      [0, 0, 0, 0, 0, 0, 0, 0, 1, 17, 173, 1348, 8361, 41989, 173185, 594289, 1717979, 4238014,
       9046828, 16972902, 28466242, 43446685, 61405388, 81651886, 103546466, 126645006,
       150769653, 176045953, 202932592, 232243305, 265139114, 303061290, 347584016, 400189199,
       461996271, 533504963, 614416881, 703586837, 799121578, 898604357],
      [0, 0, 0, 0, 0, 0, 0, 0, 2, 22, 212, 1613, 9759, 47850, 192900, 647960, 1837127, 4455391,
       9375821, 17391162, 28920416, 43876617, 61768594, 81934324, 103761630, 126829945,
       150983528, 176371190, 203474785, 233124548, 266480710, 304955454, 350059467, 403180313,
       465327273, 536897883, 617525113, 706047736, 800615195, 898903640],
      [0, 0, 0, 0, 0, 0, 0, 0, 2, 27, 259, 1917, 11324, 54248, 213914, 703909, 1958903, 4673928,
       9702512, 17803366, 29366873, 44300188, 62128931, 82218257, 103982993, 127026370,
       151215094, 176720867, 204047008, 234037150, 267846914, 306856312, 352511970, 406110376,
       468557812, 540159061, 620487407, 708371129, 802002632, 899145866],
      [0, 0, 0, 0, 0, 0, 0, 0, 3, 34, 313, 2264, 13067, 61204, 236237, 762089, 2083160, 4893452,
       10026872, 18209735, 29805974, 44717701, 62486565, 82503781, 104210684, 127234451,
       151464418, 177094642, 204648135, 234978951, 269234643, 308760501, 354939019, 408979068,
       471690743, 543294685, 623312372, 710566242, 803291585, 899335373],
      [0, 0, 0, 0, 0, 0, 0, 0, 4, 42, 376, 2659, 15001, 68738, 259879, 822449, 2209758, 5113801,
       10348877, 18610476, 30238058, 45129449, 62841671, 82791006, 104444830, 127454327,
       151731502, 177492090, 205276989, 235947830, 270640995, 310664980, 357338498, 411786366,
       474728960, 546310616, 626007954, 712641474, 804489000, 899476055],
      [0, 0, 0, 0, 0, 0, 0, 0, 4, 51, 450, 3106, 17136, 76869, 284845, 884937, 2338564, 5334827,
       10668517, 19005789, 30663445, 45535716, 63194428, 83080052, 104685554, 127686111,
       152016293, 177912721, 205932356, 236941718, 272063247, 312567013, 359708636, 414532498,
       477675366, 549212404, 628581497, 714604484, 805601163, 899571422],
      [0, 0, 0, 0, 0, 0, 0, 0, 5, 62, 534, 3609, 19484, 85613, 311138, 949500, 2469449, 5556397,
       10985786, 19395865, 31082436, 45936774, 63545021, 83371048, 104932974, 127929880,
       152318678, 178355986, 206612999, 237958605, 273498856, 314464142, 362047967, 417217898,
       480532847, 552005296, 631039802, 716462274, 806633775, 899624647],
      [0, 0, 0, 0, 0, 0, 0, 0, 7, 75, 631, 4172, 22057, 94988, 338758, 1016082, 2602288,
       5778387, 11300686, 19780884, 31495316, 46332889, 63893637, 83664125, 105187203,
       128185686, 152638498, 178821282, 207317666, 238996548, 274945447, 316354165, 364355291,
       419843167, 483304254, 554694255, 633389170, 718221260, 807592027, 899638606],
      [0, 0, 0, 0, 0, 0, 0, 1, 8, 90, 742, 4801, 24865, 105008, 367703, 1084629, 2736966,
       6000685, 11613223, 20161021, 31902359, 46724318, 64240465, 83959420, 105448341,
       128453549, 152975546, 179307966, 208045103, 240053678, 276400813, 318235116, 366629644,
       422409043, 485992388, 557283970, 635635445, 719887330, 808480651, 899615913],
      [0, 0, 0, 0, 0, 0, 0, 1, 10, 107, 868, 5500, 27920, 115686, 397970, 1155084, 2873368,
       6223190, 11923410, 20536445, 32303822, 47111311, 64585693, 84257067, 105716480,
       128733460, 153329573, 179815362, 208794060, 241128200, 277862906, 320105246, 368870272,
       424916376, 488599989, 559778871, 637784062, 721465903, 809303974, 899558947],
      [0, 0, 0, 0, 0, 0, 0, 1, 12, 128, 1010, 6274, 31233, 127037, 429550, 1227392, 3011388,
       6445806, 12231262, 20907316, 32699954, 47494110, 64929512, 84557203, 105991700,
       129025383, 153700294, 180342761, 209563299, 242218397, 279329825, 321963002, 371076599,
       427366103, 491129729, 562183146, 639840074, 722961969, 810065960, 899469886],
      [0, 0, 0, 0, 0, 0, 0, 1, 15, 151, 1171, 7128, 34815, 139071, 462438, 1301495, 3150925,
       6668450, 12536798, 21273789, 33090991, 47872952, 65272107, 84859961, 106274068,
       129329259, 154087389, 180889438, 210351598, 243322632, 280799819, 323807011, 373248209,
       429759228, 493584203, 564500751, 641808186, 724380137, 810770250, 899350720],
      [0, 0, 0, 0, 0, 0, 0, 1, 18, 178, 1351, 8067, 38675, 151800, 496623, 1377339, 3291880,
       6891043, 12840041, 21636015, 33477160, 48248064, 65613665, 85165471, 106563640,
       129644998, 154490509, 181454648, 211157758, 244439346, 282271267, 325636064, 375384824,
       432096812, 495965931, 566735427, 643692789, 725724670, 811420192, 899203277],
      [0, 0, 0, 0, 0, 0, 0, 2, 21, 208, 1552, 9096, 42824, 165232, 532094, 1454869, 3434161,
       7113516, 13141018, 21994139, 33858681, 48619670, 65954367, 85473856, 106860458,
       129972493, 154909279, 182037638, 211980608, 245567059, 283742679, 327449100, 377486289,
       434379950, 498277351, 568890711, 645497979, 726999514, 812018874, 899029236],
      [0, 0, 0, 0, 0, 0, 0, 2, 25, 243, 1777, 10221, 47272, 179376, 568838, 1534028, 3577682,
       7335804, 13439756, 22348301, 34235764, 48987985, 66294391, 85785236, 107164549,
       130311612, 155343303, 182637647, 212819003, 246704369, 285212684, 329245193, 379552552,
       436609767, 500520820, 570969950, 647227587, 728208333, 812569147, 898830145],
      [0, 0, 0, 0, 0, 0, 0, 2, 30, 282, 2027, 11447, 52029, 194240, 606841, 1614764, 3722357,
       7557849, 13736285, 22698638, 34608611, 49353219, 66633912, 86099724, 107475930,
       130662202, 155792165, 183253915, 213671834, 247849950, 286680023, 331023542, 381583651,
       438787406, 502698613, 572976309, 648885197, 729354531, 813073649, 898607432],
      [0, 0, 0, 0, 0, 0, 0, 3, 35, 327, 2303, 12778, 57104, 209830, 646089, 1697023, 3868110,
       7779600, 14030637, 23045282, 34977420, 49715577, 66973098, 86417424, 107794601,
       131024094, 156255433, 183885680, 214538023, 249002549, 288143543, 332783452, 383579704,
       440914018, 504812923, 574912785, 650474167, 730441275, 813534825, 898362418],
      [0, 0, 0, 0, 0, 0, 0, 3, 42, 377, 2608, 14221, 62506, 226150, 686565, 1780752, 4014864,
       8001007, 14322848, 23388362, 35342378, 50075254, 67312113, 86738434, 108120554,
       131397101, 156732665, 184532188, 215416530, 250160985, 289602189, 334524332, 385540899,
       442990758, 506865864, 576782219, 651997644, 731471516, 813954945, 898096326],
      [0, 0, 0, 0, 0, 0, 0, 4, 49, 433, 2944, 15780, 68242, 243207, 728253, 1865900, 4162549,
       8222030, 14612951, 23728003, 35703669, 50432444, 67651115, 87062844, 108453762,
       131781021, 157223405, 185192691, 216306350, 251324145, 291054998, 336245681, 387467478,
       445018779, 508859472, 578587299, 653458585, 732448009, 814336118, 897810292],
      [0, 0, 0, 0, 0, 0, 0, 5, 57, 495, 3313, 17461, 74323, 261002, 771135, 1952418, 4311097,
       8442630, 14900984, 24064327, 36061470, 50787330, 67990256, 87390735, 108794192,
       132175638, 157727192, 185866451, 217206516, 252490984, 292501091, 337947078, 389359735,
       446999225, 510795704, 580330576, 654859768, 733373327, 814680309, 897505370],
      [0, 0, 0, 0, 0, 0, 0, 6, 66, 565, 3716, 19268, 80755, 279539, 815192, 2040256, 4460446,
       8662772, 15186985, 24397454, 36415952, 51140093, 68329681, 87722179, 109141795,
       132580723, 158243561, 186552742, 218116098, 253660519, 293939670, 339628177, 391218008,
       448933229, 512676445, 582014470, 656203804, 734249879, 814989348, 897182540],
      [0, 0, 0, 0, 0, 0, 0, 7, 76, 643, 4157, 21208, 87546, 298819, 860406, 2129366, 4610535,
       8882428, 15470992, 24727499, 36767283, 51490906, 68669528, 88057242, 109496513,
       132996037, 158772039, 187250853, 219034204, 254831830, 295370009, 341288699, 393042666,
       450821911, 514503506, 583641278, 657493155, 735079920, 815264947, 896842719],
      [0, 0, 0, 0, 0, 0, 1, 8, 88, 729, 4636, 23285, 94703, 318844, 906758, 2219701, 4761307,
       9101569, 15753047, 25054576, 37115621, 51839936, 69009931, 88395978, 109858276,
       133421332, 159312157, 187960085, 219959979, 256004054, 296791452, 342928424, 394834113,
       452666374, 516278628, 585213179, 658730138, 735865566, 815508704, 896486760],
      [0, 0, 0, 0, 0, 0, 1, 9, 101, 825, 5158, 25505, 102233, 339613, 954228, 2311216, 4912709,
       9320172, 16033189, 25378795, 37461124, 52187343, 69351014, 88738434, 110227006,
       133856351, 159863443, 188679759, 220892605, 257176383, 298203405, 344547186, 396592775,
       454467700, 518003486, 586732246, 659916941, 736608802, 815722116, 896115460],
      [0, 0, 0, 0, 0, 0, 1, 11, 116, 930, 5722, 27872, 110142, 361127, 1002795, 2403867,
       5064690, 9538219, 16311461, 25700264, 37803942, 52533284, 69692895, 89084648, 110602613,
       134300831, 160425427, 189409211, 221831300, 258348061, 299605332, 346144866, 398319098,
       456226953, 519679688, 588200448, 661055629, 737311495, 815906586, 895729566],
      [0, 0, 0, 0, 0, 0, 1, 12, 133, 1045, 6334, 30392, 118436, 383384, 1052439, 2497610,
       5217203, 9755689, 16587904, 26019090, 38144221, 52877908, 70035687, 89434652, 110985000,
       134754502, 160997644, 190147794, 222775317, 259518384, 300996752, 347721391, 400013548,
       457945173, 521308779, 589619658, 662148153, 737975402, 816063429, 895329777],
      [0, 0, 0, 0, 0, 0, 1, 14, 151, 1172, 6993, 33069, 127121, 406382, 1103140, 2592405,
       5370203, 9972570, 16862560, 26335375, 38482103, 53221357, 70379492, 89788467, 111374061,
       135217091, 161579631, 190894882, 223723946, 260686695, 302377236, 349276724, 401676599,
       459623380, 522892247, 590991660, 663196359, 738602177, 816193882, 894916751],
      [0, 0, 0, 0, 0, 0, 1, 17, 172, 1310, 7703, 35909, 136202, 430119, 1154877, 2688210,
       5523647, 10188849, 17135475, 26649220, 38817724, 53563770, 70724409, 90146106, 111769684,
       135688319, 162170932, 191649867, 224676508, 261852380, 303746398, 350810864, 403308739,
       461262568, 524431518, 592318151, 664201993, 739193380, 816299108, 894491101],
      [0, 0, 0, 0, 0, 0, 1, 19, 194, 1462, 8467, 38916, 145683, 454592, 1207630, 2784987,
       5677497, 10404516, 17406689, 26960723, 39151218, 53905279, 71070527, 90507578, 112171750,
       136167908, 162771097, 192412158, 225632358, 263014868, 305103897, 352323842, 404910461,
       462863710, 525927965, 593600747, 665166710, 739750483, 816380202, 894053409],
      [0, 0, 0, 0, 0, 0, 2, 22, 220, 1627, 9286, 42094, 155570, 479797, 1261377, 2882697,
       5831714, 10619562, 17676248, 27269982, 39482712, 54246008, 71417931, 90872880, 112580131,
       136655575, 163379682, 193181187, 226590884, 264173630, 306449431, 353815715, 406482266,
       464427751, 527382908, 594840992, 666092079, 740274877, 816438196, 893604219],
      [0, 0, 0, 0, 0, 0, 2, 25, 248, 1806, 10163, 45449, 165867, 505731, 1316099, 2981305,
       5986263, 10833983, 17944195, 27577089, 39812330, 54586078, 71766697, 91242006, 112994697,
       137151038, 163996251, 193956401, 227551502, 265328173, 307782734, 355286565, 408024654,
       465955617, 528797614, 596040354, 666979588, 740767875, 816474063, 893144045],
      [0, 0, 0, 0, 0, 0, 2, 29, 278, 2001, 11100, 48984, 176576, 532389, 1371773, 3080774,
       6141113, 11047775, 18210575, 27882138, 40140191, 54925603, 72116896, 91614940, 113415311,
       137654014, 164620377, 194737270, 228513661, 266478040, 309103575, 356736496, 409538130,
       467448205, 530173303, 597200236, 667830650, 741230722, 816488721, 892673371],
      [0, 0, 0, 0, 0, 0, 2, 33, 312, 2212, 12101, 52705, 187702, 559766, 1428380, 3181070,
       6296232, 11260934, 18475431, 28185217, 40466412, 55264693, 72468591, 91991662, 113841832,
       138164221, 165251642, 195523282, 229476835, 267622808, 310411751, 358165631, 411023196,
       468906392, 531511148, 598321978, 668646608, 741664596, 816483039, 892192653],
      [0, 0, 0, 0, 0, 0, 3, 37, 349, 2440, 13167, 56615, 199248, 587858, 1485900, 3282161,
       6451591, 11473462, 18738808, 28486414, 40791104, 55603451, 72821839, 92372144, 114274115,
       138681377, 165889636, 196313941, 230440529, 268762085, 311707092, 359574111, 412480354,
       470331029, 532812275, 599406860, 669428738, 742070614, 816457839, 891702325],
      [0, 0, 0, 0, 0, 0, 3, 42, 390, 2686, 14301, 60718, 211216, 616658, 1544311, 3384015,
       6607165, 11685358, 19000749, 28785814, 41114374, 55941974, 73176694, 92756355, 114712013,
       139205203, 166533960, 197108774, 231404271, 269895510, 312989450, 360962090, 413910103,
       471722944, 534077771, 600456102, 670178255, 742449834, 816413898, 891202795],
      [0, 0, 0, 0, 0, 0, 4, 48, 435, 2951, 15505, 65019, 223609, 646160, 1603595, 3486602,
       6762927, 11896626, 19261299, 29083501, 41436325, 56280355, 73533199, 93144255, 115155373,
       139735422, 167184223, 197907324, 232367618, 271022748, 314258704, 362329737, 415312940,
       473082943, 535308678, 601470874, 670896314, 742803262, 816351953, 890694449],
      [0, 0, 0, 0, 0, 0, 4, 54, 483, 3236, 16782, 69521, 236429, 676358, 1663731, 3589891,
       6918856, 12107269, 19520502, 29379556, 41757057, 56618683, 73891395, 93535803, 115604044,
       140271760, 167840044, 198709152, 233330149, 272143493, 315514754, 363677232, 416689353,
       474411809, 536506003, 602452294, 671584017, 743131853, 816272703, 890177654],
      [0, 0, 0, 0, 0, 0, 5, 61, 536, 3542, 18135, 74228, 249678, 707247, 1724699, 3693854,
       7074929, 12317292, 19778401, 29674058, 42076665, 56957039, 74251315, 93930950, 116057868,
       140813944, 168501054, 199513836, 234291465, 273257462, 316757521, 365004764, 418039831,
       475710300, 537670711, 603401432, 672242414, 743436515, 816176811, 889652756],
      [0, 0, 0, 0, 0, 0, 6, 68, 594, 3870, 19565, 79144, 263357, 738818, 1786481, 3798465,
       7231126, 12526701, 20035040, 29967084, 42395242, 57295501, 74612990, 94329643, 116516690,
       141361707, 169166893, 200320973, 235251193, 274364395, 317986943, 366312533, 419364851,
       476979157, 538803733, 604319311, 672872506, 743718113, 816064907, 889120085],
      [0, 0, 0, 0, 0, 0, 6, 76, 656, 4221, 21076, 84271, 277467, 771065, 1849057, 3903697,
       7387430, 12735504, 20290461, 30258708, 42712875, 57634141, 74976442, 94731828, 116980351,
       141914784, 169837211, 201130176, 236208978, 275464055, 319202978, 367600744, 420664889,
       478219097, 539905968, 605206915, 673475249, 743977468, 815937589, 888579954],
      [0, 0, 0, 0, 0, 0, 7, 85, 724, 4597, 22669, 89615, 292010, 803982, 1912409, 4009525,
       7543823, 12943709, 20544707, 30549003, 43029649, 57973027, 75341692, 95137443, 117448692,
       142472915, 170511668, 201941072, 237164488, 276556225, 320405597, 368869609, 421940411,
       479430817, 540978279, 606065181, 674051556, 744215364, 815795427, 888032661],
      [0, 0, 0, 0, 0, 0, 8, 95, 797, 4997, 24347, 95177, 306986, 837559, 1976518, 4115925,
       7700289, 13151324, 20797821, 30838041, 43345645, 58312223, 75708752, 95546426, 117921554,
       143035846, 171189935, 202753307, 238117407, 277640708, 321594789, 370119344, 423191876,
       480614993, 542021497, 606895013, 674602299, 744432547, 815638963, 887478487],
      [0, 0, 0, 0, 0, 1, 9, 106, 876, 5423, 26113, 100961, 322396, 871791, 2041367, 4222875,
       7856815, 13358360, 21049844, 31125890, 43660940, 58651787, 76077632, 95958709, 118398777,
       143603323, 171871693, 203566541, 239067440, 278717324, 322770552, 371350173, 424419738,
       481772282, 543036426, 607697274, 675128310, 744629730, 815468713, 886917702],
      [0, 0, 0, 0, 0, 1, 10, 118, 961, 5877, 27969, 106970, 338239, 906669, 2106937, 4330351,
       8013388, 13564827, 21300818, 31412616, 43975608, 58991774, 76448339, 96374224, 118880202,
       144175100, 172556632, 204380449, 240014310, 279785910, 323932899, 372562319, 425624441,
       482903323, 544023839, 608472795, 675630389, 744807594, 815285168, 886350561],
      [0, 0, 0, 0, 0, 1, 12, 130, 1052, 6359, 29917, 113206, 354516, 942185, 2173212, 4438333,
       8169995, 13770736, 21550783, 31698284, 44289720, 59332234, 76820874, 96792898, 119365670,
       144750936, 173244454, 205194720, 240957755, 280846319, 325081853, 373756011, 426806423,
       484008735, 544984481, 609222372, 676109297, 744966786, 815088798, 885777310],
      [0, 0, 0, 0, 0, 1, 13, 144, 1151, 6871, 31959, 119672, 371227, 978333, 2240174, 4546802,
       8326626, 13976100, 21799780, 31982957, 44603342, 59673214, 77195234, 97214658, 119855023,
       145330594, 173934867, 206009057, 241897530, 281898419, 326217448, 374931478, 427966112,
       485089119, 545919073, 609946770, 676565766, 745107928, 814880050, 885198180],
      [0, 0, 0, 0, 0, 1, 15, 160, 1257, 7414, 34098, 126372, 388371, 1015103, 2307806, 4655736,
       8483271, 14180930, 22047849, 32266694, 44916540, 60014756, 77571413, 97639426, 120348103,
       145913842, 174627594, 206823178, 242833405, 282942093, 327339726, 376088951, 429103931,
       486145059, 546828307, 610646724, 677000496, 745231612, 814659352, 884613393],
      [0, 0, 0, 0, 0, 1, 16, 176, 1370, 7988, 36336, 133306, 405947, 1052488, 2376093, 4765119,
       8639922, 14385240, 22295028, 32549556, 45229372, 60356898, 77949401, 98067125, 120844754,
       146500453, 175322363, 207636812, 243765164, 283977236, 328448738, 377228664, 430220293,
       487177122, 547712855, 611322941, 677414156, 745338407, 814427112, 884023162],
      [0, 0, 0, 0, 0, 1, 18, 194, 1492, 8595, 38676, 140478, 423954, 1090479, 2445019, 4874932,
       8796571, 14589044, 22541357, 32831598, 45541898, 60699675, 78329187, 98497674, 121344822,
       147090207, 176018913, 208449701, 244692607, 285003754, 329544543, 378350849, 431315602,
       488185859, 548573363, 611976099, 677807392, 745428854, 814183719, 883427688],
      [0, 0, 0, 0, 0, 1, 20, 214, 1621, 9237, 41119, 147890, 442392, 1129069, 2514568, 4985160,
       8953211, 14792354, 22786872, 33112875, 45854172, 61043119, 78710754, 98930993, 121848153,
       147682886, 176716993, 209261599, 245615545, 286021566, 330627205, 379455738, 432390257,
       489171803, 549410454, 612606852, 678180819, 745503474, 813929549, 882827164],
      [0, 0, 0, 0, 0, 1, 22, 235, 1760, 9914, 43668, 155543, 461259, 1168250, 2584726, 5095785,
       9109837, 14995185, 23031610, 33393440, 46166244, 61387257, 79094084, 99366999, 122354595,
       148278280, 177416359, 210072274, 246533801, 287030602, 331696798, 380543565, 433444647,
       490135475, 550224732, 613215829, 678535030, 745562765, 813664956, 882221777],
      [0, 0, 0, 0, 0, 2, 25, 258, 1908, 10627, 46324, 163441, 480554, 1208014, 2655476, 5206793,
       9266443, 15197552, 23275609, 33673343, 46478166, 61732115, 79479155, 99805609, 122863998,
       148876183, 178116777, 210881501, 247447211, 288030801, 332753397, 381614561, 434479152,
       491077379, 551016779, 613803634, 678870595, 745607205, 813390284, 881611703],
      [0, 0, 0, 0, 0, 2, 28, 282, 2065, 11378, 49090, 171583, 500275, 1248351, 2726806, 5318169,
       9423025, 15399468, 23518904, 33952635, 46789981, 62077713, 79865943, 100246738,
       123376214, 149476396, 178818022, 211689070, 248355622, 289022112, 333797086, 382668957,
       435494147, 491998003, 551787159, 614370852, 679188058, 745637251, 813105861, 880997111],
      [0, 0, 0, 0, 0, 2, 31, 308, 2233, 12167, 51968, 179973, 520420, 1289256, 2798701, 5429901,
       9579579, 15600950, 23761529, 34231360, 47101734, 62424071, 80254423, 100690301,
       123891098, 150078722, 179519876, 212494778, 249258892, 290004491, 334827951, 383706983,
       436489997, 492897824, 552536415, 614918042, 679487947, 745653344, 812811999, 880378162],
      [0, 0, 0, 0, 0, 2, 34, 337, 2411, 12997, 54960, 188612, 540988, 1330718, 2871148, 5541974,
       9736104, 15802011, 24003519, 34509566, 47413464, 62771205, 80644565, 101136214,
       124408506, 150682973, 180222130, 213298435, 250156889, 290977906, 335846084, 384728867,
       437467060, 493777303, 553265073, 615445746, 679770764, 745655904, 812509000, 879755014],
      [0, 0, 0, 0, 0, 3, 37, 367, 2600, 13868, 58068, 197500, 561977, 1372731, 2944133, 5654377,
       9892595, 16002668, 24244906, 34787296, 47725211, 63119127, 81036341, 101584390,
       124928295, 151288964, 180924583, 214099857, 251049491, 291942328, 336851579, 385734835,
       438425686, 494636890, 553973642, 615954486, 680036997, 745645337, 812197153, 879127815],
      [0, 0, 0, 0, 0, 3, 41, 400, 2800, 14781, 61294, 206640, 583385, 1415286, 3017644, 5767098,
       10049053, 16202934, 24485724, 35064590, 48037010, 63467847, 81429716, 102034744,
       125450327, 151896515, 181627041, 214898874, 251936583, 292897739, 337844534, 386725113,
       439366218, 495477020, 554662613, 616444764, 680287112, 745622031, 811876736, 878496707],
      [0, 0, 0, 0, 0, 3, 45, 435, 3012, 15737, 64639, 216033, 605209, 1458375, 3091668, 5880125,
       10205475, 16402827, 24726004, 35341490, 48348893, 63817375, 81824658, 102487191,
       125974464, 152505452, 182329317, 215695320, 252818061, 293844124, 338825051, 387699922,
       440288990, 496298117, 555332463, 616917066, 680521558, 745586362, 811548013, 877861827],
      [0, 0, 0, 0, 0, 4, 50, 473, 3237, 16739, 68105, 225680, 627447, 1501991, 3166194, 5993450,
       10361861, 16602360, 24965777, 35618033, 48660892, 64167715, 82221130, 102941643,
       126500573, 153115605, 183031234, 216489040, 253693828, 294781478, 339793232, 388659482,
       441194332, 497100593, 555983653, 617371859, 680740770, 745538688, 811211241, 877223308],
      [0, 0, 0, 0, 0, 4, 54, 513, 3474, 17786, 71695, 235581, 650097, 1546126, 3241209, 6107061,
       10518211, 16801549, 25205073, 35894255, 48973035, 64518870, 82619097, 103398016,
       127028521, 153726811, 183732619, 217279888, 254563797, 295709799, 340749184, 389604013,
       442082564, 497884849, 556616628, 617809596, 680945165, 745479356, 810866666, 876581276],
      [0, 0, 0, 0, 0, 4, 60, 556, 3725, 18880, 75410, 245738, 673156, 1590772, 3316702, 6220950,
       10674526, 17000410, 25443921, 36170193, 49285348, 64870843, 83018519, 103856224,
       127558179, 154338909, 184433307, 218067724, 255427884, 296629091, 341693013, 390533729,
       442953999, 498651273, 557231821, 618230713, 681135143, 745408698, 810514524, 875935852],
      [0, 0, 0, 0, 0, 5, 65, 601, 3989, 20022, 79251, 256151, 696621, 1635921, 3392663, 6335107,
       10830807, 17198957, 25682350, 36445878, 49597856, 65223631, 83419357, 104316183,
       128089420, 154951745, 185133140, 218852416, 256286017, 297539363, 342624830, 391448844,
       443808945, 499400244, 557829648, 618635630, 681311094, 745327036, 810155042, 875287153],
      [0, 0, 0, 0, 0, 5, 71, 650, 4268, 21214, 83221, 266822, 720491, 1681567, 3469080, 6449526,
       10987054, 17397206, 25920386, 36721343, 49910581, 65577233, 83821570, 104777808,
       128622119, 155565170, 185831966, 219633840, 257138126, 298440629, 343544744, 392349567,
       444647701, 500132129, 558410516, 619024756, 681473391, 745234677, 809788438, 874635291],
      [0, 0, 0, 0, 0, 6, 78, 702, 4562, 22457, 87320, 277751, 744762, 1727701, 3545944, 6564197,
       11143269, 17595171, 26158058, 36996618, 50223543, 65931643, 84225117, 105241016,
       129156154, 156179037, 186529640, 220411877, 257984152, 299332908, 344452869, 393236107,
       445470561, 500847287, 558974817, 619398484, 681622394, 745131920, 809414924, 873980374],
      [0, 0, 0, 0, 0, 6, 85, 757, 4870, 23751, 91551, 288937, 769431, 1774317, 3623244, 6679115,
       11299454, 17792868, 26395389, 37271731, 50536760, 66286856, 84629956, 105705722,
       129691407, 156793207, 187226022, 221186417, 258824037, 300216222, 345349316, 394108669,
       446277813, 501546065, 559522932, 619757195, 681758452, 745019051, 809034701, 873322507],
      [0, 0, 0, 0, 0, 7, 92, 816, 5195, 25097, 95915, 300383, 794496, 1821406, 3700972, 6794272,
       11455612, 17990311, 26632407, 37546710, 50850249, 66642863, 85036044, 106171846,
       130227761, 157407542, 187920978, 221957356, 259657733, 301090595, 346234199, 394967455,
       447069735, 502228801, 560055228, 620101255, 681881900, 744896346, 808647966, 872661789],
      [0, 0, 0, 0, 0, 8, 100, 878, 5536, 26498, 100413, 312087, 819954, 1868963, 3779117,
       6909661, 11611745, 18187515, 26869134, 37821579, 51164024, 66999654, 85443336, 106639305,
       130765102, 158021912, 188614381, 222724593, 260485195, 301956058, 347107632, 395812664,
       447846604, 502895826, 560572064, 620431022, 681993063, 744764072, 808254906, 871998317],
      [0, 0, 0, 0, 0, 9, 109, 944, 5894, 27954, 105047, 324051, 845802, 1916979, 3857671,
       7025278, 11767856, 18384494, 27105594, 38096364, 51478099, 67357220, 85851788, 107108018,
       131303319, 158636188, 189306107, 223488037, 261306382, 302812644, 347969730, 396644494,
       448608687, 503547459, 561073787, 620746839, 682092255, 744622486, 807855703, 871332183],
      [0, 0, 0, 0, 0, 9, 118, 1014, 6269, 29466, 109818, 336274, 872036, 1965449, 3936624,
       7141116, 11923948, 18581262, 27341809, 38371086, 51792485, 67715547, 86261355, 107577907,
       131842302, 159250247, 189996040, 224247600, 262121262, 303660386, 348820608, 397463138,
       449356246, 504184012, 561560732, 621049040, 682179778, 744471837, 807450531, 870663477]]"

text \<open>For \<open>m = 1, ..., 99\<close>: an integer \<open>H\<close> near \<open>10^9 * exp(-m/1000)\<close>, which is
  \<open>10^7\<close> times the boundary value \<open>FV[100 - m, 40]\<close>, and integer bounds
  \<open>l \<le> 10^12 * exp(-m/1000) \<le> u\<close>.\<close>

definition sample_boundary :: "(real \<times> real \<times> real) list" where
  "sample_boundary =
     [(999000500, 999000499833, 999000499834),
      (998001999, 998001998666, 998001998669),
      (997004496, 997004495501, 997004495506),
      (996007989, 996007989341, 996007989347),
      (995012479, 995012479189, 995012479196),
      (994017964, 994017964050, 994017964058),
      (993024443, 993024442929, 993024442938),
      (992031915, 992031914832, 992031914842),
      (991040379, 991040378767, 991040378778),
      (990049834, 990049833743, 990049833755),
      (989060279, 989060278769, 989060278782),
      (988071713, 988071712855, 988071712869),
      (987084135, 987084135013, 987084135028),
      (986097544, 986097544255, 986097544271),
      (985111940, 985111939595, 985111939612),
      (984127320, 984127320047, 984127320065),
      (983143685, 983143684626, 983143684645),
      (982161032, 982161032349, 982161032369),
      (981179362, 981179362233, 981179362254),
      (980198673, 980198673296, 980198673319),
      (979218965, 979218964558, 979218964582),
      (978240235, 978240235039, 978240235064),
      (977262484, 977262483761, 977262483787),
      (976285710, 976285709745, 976285709772),
      (975309912, 975309912015, 975309912043),
      (974335090, 974335089595, 974335089624),
      (973361242, 973361241510, 973361241540),
      (972388367, 972388366786, 972388366817),
      (971416464, 971416464451, 971416464483),
      (970445534, 970445533532, 970445533565),
      (969475573, 969475573059, 969475573093),
      (968506582, 968506582062, 968506582097),
      (967538560, 967538559571, 967538559607),
      (966571505, 966571504619, 966571504656),
      (965605416, 965605416239, 965605416277),
      (964640293, 964640293464, 964640293503),
      (963676135, 963676135329, 963676135369),
      (962712941, 962712940871, 962712940912),
      (961750709, 961750709126, 961750709168),
      (960789439, 960789439131, 960789439175),
      (959829130, 959829129926, 959829129971),
      (958869781, 958869780550, 958869780596),
      (957911390, 957911390044, 957911390091),
      (956953957, 956953957449, 956953957498),
      (955997482, 955997481809, 955997481859),
      (955041962, 955041962166, 955041962217),
      (954087398, 954087397565, 954087397617),
      (953133787, 953133787052, 953133787105),
      (952181130, 952181129672, 952181129727),
      (951229425, 951229424474, 951229424530),
      (950278671, 950278670505, 950278670562),
      (949328867, 949328866815, 949328866873),
      (948380012, 948380012454, 948380012513),
      (947432107, 947432106473, 947432106533),
      (946485148, 946485147924, 946485147985),
      (945539136, 945539135860, 945539135922),
      (944594069, 944594069336, 944594069399),
      (943649947, 943649947406, 943649947470),
      (942706769, 942706769126, 942706769191),
      (941764534, 941764533553, 941764533619),
      (940823240, 940823239744, 940823239811),
      (939882887, 939882886759, 939882886827),
      (938943474, 938943473657, 938943473726),
      (938005000, 938004999498, 938004999568),
      (937067463, 937067463344, 937067463415),
      (936130864, 936130864258, 936130864330),
      (935195201, 935195201303, 935195201376),
      (934260474, 934260473543, 934260473617),
      (933326680, 933326680043, 933326680119),
      (932393820, 932393819870, 932393819947),
      (931461892, 931461892091, 931461892169),
      (930530896, 930530895774, 930530895853),
      (929600830, 929600829988, 929600830068),
      (928671694, 928671693803, 928671693884),
      (927743486, 927743486290, 927743486372),
      (926816207, 926816206520, 926816206603),
      (925889854, 925889853567, 925889853651),
      (924964427, 924964426504, 924964426589),
      (924039924, 924039924405, 924039924491),
      (923116346, 923116346346, 923116346433),
      (922193691, 922193691403, 922193691492),
      (921271959, 921271958654, 921271958744),
      (920351147, 920351147177, 920351147268),
      (919431256, 919431256052, 919431256144),
      (918512284, 918512284358, 918512284451),
      (917594231, 917594231176, 917594231270),
      (916677096, 916677095589, 916677095684),
      (915760877, 915760876679, 915760876775),
      (914845574, 914845573530, 914845573627),
      (913931185, 913931185226, 913931185324),
      (913017711, 913017710854, 913017710953),
      (912105150, 912105149499, 912105149599),
      (911193500, 911193500250, 911193500351),
      (910282762, 910282762194, 910282762296),
      (909372934, 909372934421, 909372934524),
      (908464016, 908464016021, 908464016125),
      (907556006, 907556006085, 907556006190),
      (906648904, 906648903705, 906648903811),
      (905742708, 905742707974, 905742708081)]"

text \<open>The boundary values the steps use, times \<open>10^7\<close>: the payoff \<open>50\<close> of the
  terminal row, then the values of \<open>sample_boundary\<close>.\<close>

definition sample_heights :: vec where
  "sample_heights = 500000000 # map fst sample_boundary"


section \<open>Lemmas\<close>

subsection \<open>Double precision and the number of nodes\<close>

lemma round_half_even_of_int: "round_half_even (of_int n) = n"
  by (simp add: round_half_even_def)

lemma float64_minus: "float64 (- x) = - float64 x"
  by (simp add: float64_def Let_def sgn_minus)

lemma float64_scaled:
  assumes "0 < x" "2 ^ 52 \<le> x * 2 ^ k" "x * 2 ^ k < 2 ^ 53"
  shows "float64 x = of_int (round_half_even (x * 2 ^ k)) / 2 ^ k"
proof -
  have low: "2 powr (52 - real k) \<le> x"
  proof -
    have "2 powr (52 - real k) = 2 ^ 52 / 2 ^ k"
      by (simp add: powr_diff powr_realpow flip: powr_numeral)
    also have "\<dots> \<le> x" using assms(2) by (simp add: field_simps)
    finally show ?thesis .
  qed
  have high: "x < 2 powr (52 - real k + 1)"
  proof -
    have "x < 2 ^ 53 / 2 ^ k" using assms(3) by (simp add: field_simps)
    also have "\<dots> = 2 powr (52 - real k + 1)"
      by (simp add: powr_diff powr_add powr_realpow flip: powr_numeral)
    finally show ?thesis .
  qed
  have "\<lfloor>log 2 x\<rfloor> = 52 - int k"
  proof (rule floor_unique)
    have "log 2 (2 powr (52 - real k)) \<le> log 2 x"
      using low assms(1) by (subst log_le_cancel_iff) simp_all
    then show "of_int (52 - int k) \<le> log 2 x" by simp
    have "log 2 x < log 2 (2 powr (52 - real k + 1))"
      using high assms(1) by (subst log_less_cancel_iff) simp_all
    then show "log 2 x < of_int (52 - int k) + 1" by simp
  qed
  then have e: "\<lfloor>log 2 \<bar>x\<bar>\<rfloor> = 52 - int k" using assms(1) by simp
  have up: "(2::real) powr (52 - of_int (52 - int k)) = 2 ^ k"
    by (simp add: powr_realpow)
  have down: "(2::real) powr (of_int (52 - int k) - 52) = 1 / 2 ^ k"
    by (simp add: powr_minus powr_realpow divide_inverse)
  show ?thesis
    unfolding float64_def Let_def e up down using assms(1) by simp
qed

lemma float64_exact:
  assumes "\<bar>m\<bar> < 2 ^ 53"
  shows "float64 (of_int m / 2 ^ j) = of_int m / 2 ^ j"
proof -
  have pos: "float64 (of_int n / 2 ^ j) = of_int n / 2 ^ j" if n: "0 < n" "n < 2 ^ 53" for n :: int
  proof -
    define i where "i = (LEAST i. 2 ^ 52 \<le> n * 2 ^ i)"
    have ex: "2 ^ 52 \<le> n * 2 ^ 52" using n(1) by simp
    have i: "2 ^ 52 \<le> n * 2 ^ i" unfolding i_def using ex by (rule LeastI)
    have upper: "n * 2 ^ i < 2 ^ 53"
    proof (cases i)
      case 0
      then show ?thesis using n(2) by simp
    next
      case (Suc i')
      have "\<not> 2 ^ 52 \<le> n * 2 ^ i'"
        using not_less_Least [of i' "\<lambda>i. 2 ^ 52 \<le> n * 2 ^ i"] Suc by (simp add: i_def)
      then have "n * 2 ^ i' < 2 ^ 52" by simp
      then show ?thesis using Suc by simp
    qed
    let ?x = "real_of_int n / 2 ^ j"
    have scaled: "?x * 2 ^ (i + j) = of_int (n * 2 ^ i)" by (simp add: power_add)
    have "0 < ?x" using n(1) by simp
    moreover have "2 ^ 52 \<le> ?x * 2 ^ (i + j)"
      unfolding scaled using i by (metis of_int_le_iff of_int_numeral of_int_power)
    moreover have "?x * 2 ^ (i + j) < 2 ^ 53"
      unfolding scaled using upper by (metis of_int_less_iff of_int_numeral of_int_power)
    ultimately have "float64 ?x = of_int (round_half_even (?x * 2 ^ (i + j))) / 2 ^ (i + j)"
      by (rule float64_scaled)
    also have "\<dots> = of_int (n * 2 ^ i) / 2 ^ (i + j)"
      unfolding scaled by (simp only: round_half_even_of_int)
    also have "\<dots> = ?x" by (simp add: power_add)
    finally show ?thesis .
  qed
  consider "m = 0" | "0 < m" | "m < 0" by linarith
  then show ?thesis
  proof cases
    case 1
    then show ?thesis by (simp add: float64_def)
  next
    case 2
    then show ?thesis using pos [of m] assms by simp
  next
    case 3
    then have "float64 (of_int (- m) / 2 ^ j) = of_int (- m) / 2 ^ j"
      using pos [of "- m"] assms by simp
    then show ?thesis using float64_minus [of "of_int m / 2 ^ j"] by simp
  qed
qed

lemma float64_third: "float64 (1 / 3) = 6004799503160661 / 18014398509481984"
  using float64_scaled [of "1 / 3" 54] by (simp add: round_half_even_def)

lemma round_half_even_near: "\<bar>of_int (round_half_even y) - y\<bar> \<le> 1 / 2"
  unfolding round_half_even_def Let_def by (auto simp: abs_le_iff)

lemma round_half_even_numeral: "round_half_even (numeral n) = numeral n"
  using round_half_even_of_int [of "numeral n"] by simp

lemma round_half_even_mono:
  assumes "y \<le> z"
  shows "round_half_even y \<le> round_half_even z"
proof (cases "\<lfloor>y\<rfloor> = \<lfloor>z\<rfloor>")
  case True
  then show ?thesis
    using assms unfolding round_half_even_def Let_def by auto
next
  case False
  then have "\<lfloor>y\<rfloor> + 1 \<le> \<lfloor>z\<rfloor>" using floor_mono [OF assms] by linarith
  moreover have "round_half_even y \<le> \<lfloor>y\<rfloor> + 1"
    unfolding round_half_even_def Let_def by auto
  moreover have "\<lfloor>z\<rfloor> \<le> round_half_even z"
    unfolding round_half_even_def Let_def by auto
  ultimately show ?thesis by linarith
qed

lemma float64_positive_form:
  assumes "0 < x"
  defines "p \<equiv> 2 powr (52 - of_int \<lfloor>log 2 x\<rfloor>)"
  shows "0 < p" "2 ^ 52 \<le> x * p" "x * p < 2 ^ 53"
    "float64 x = of_int (round_half_even (x * p)) / p"
proof -
  let ?e = "\<lfloor>log 2 x\<rfloor>"
  show p: "0 < p" by (simp add: p_def)
  have "of_int ?e \<le> log 2 x" by simp
  then have low: "2 powr of_int ?e \<le> x" using assms(1) by (simp add: powr_le_iff)
  have "log 2 x < of_int ?e + 1" by linarith
  then have high: "x < 2 powr (of_int ?e + 1)" using assms(1) by (simp add: less_powr_iff)
  have split: "2 powr of_int ?e * p = 2 ^ 52"
    unfolding p_def by (simp add: powr_realpow flip: powr_add powr_numeral)
  have "2 powr of_int ?e * p \<le> x * p" using low p by (simp add: mult_right_mono)
  then show "2 ^ 52 \<le> x * p" by (simp only: split)
  have "x * p < 2 powr (of_int ?e + 1) * p" using high p by (simp add: mult_strict_right_mono)
  also have "\<dots> = 2 * (2 powr of_int ?e * p)" by (simp add: powr_add)
  also have "\<dots> = 2 ^ 53" by (simp only: split) simp
  finally show "x * p < 2 ^ 53" .
  have inv: "2 powr (of_int ?e - 52) = 1 / p"
    unfolding p_def by (simp add: powr_diff powr_minus field_simps flip: powr_add)
  show "float64 x = of_int (round_half_even (x * p)) / p"
    using assms(1) by (simp add: float64_def Let_def inv p_def)
qed

lemma float64_error:
  assumes "0 < x"
  shows "\<bar>float64 x - x\<bar> \<le> x / 2 ^ 53"
proof -
  define p :: real where "p = 2 powr (52 - of_int \<lfloor>log 2 x\<rfloor>)"
  note f = float64_positive_form [OF assms, folded p_def]
  have "float64 x - x = (of_int (round_half_even (x * p)) - x * p) / p"
    using f(1,4) by (simp add: field_simps)
  then have "\<bar>float64 x - x\<bar> = \<bar>of_int (round_half_even (x * p)) - x * p\<bar> / p"
    using f(1) by (simp add: abs_divide)
  also have "\<dots> \<le> (1 / 2) / p"
    using round_half_even_near [of "x * p"] f(1) by (intro divide_right_mono) simp_all
  also have "\<dots> \<le> x / 2 ^ 53"
  proof -
    have "2 ^ 52 \<le> p * x" using f(2) by (simp add: mult.commute)
    then show ?thesis using f(1) by (simp add: field_simps)
  qed
  finally show ?thesis .
qed

lemma float64_positive:
  assumes "0 < x"
  shows "0 < float64 x"
proof -
  have "x / 2 ^ 53 < x" using assms by (simp add: field_simps)
  then show ?thesis using float64_error [OF assms] by linarith
qed

lemma float64_mono:
  assumes "0 < x" "x \<le> y"
  shows "float64 x \<le> float64 y"
proof -
  define p :: real where "p = 2 powr (52 - of_int \<lfloor>log 2 x\<rfloor>)"
  define p' :: real where "p' = 2 powr (52 - of_int \<lfloor>log 2 y\<rfloor>)"
  have y: "0 < y" using assms by simp
  note fx = float64_positive_form [OF assms(1), folded p_def]
  note fy = float64_positive_form [OF y, folded p'_def]
  have e: "\<lfloor>log 2 x\<rfloor> \<le> \<lfloor>log 2 y\<rfloor>"
    using assms by (intro floor_mono) (simp add: log_le_cancel_iff)
  have r53: "round_half_even (x * p) \<le> 2 ^ 53"
    using round_half_even_mono [of "x * p" "of_int (2 ^ 53)"] fx(3)
    by (simp add: round_half_even_numeral)
  have r52: "2 ^ 52 \<le> round_half_even (y * p')"
    using round_half_even_mono [of "of_int (2 ^ 52)" "y * p'"] fy(2)
    by (simp add: round_half_even_numeral)
  show ?thesis
  proof (cases "\<lfloor>log 2 x\<rfloor> = \<lfloor>log 2 y\<rfloor>")
    case True
    then have same: "p' = p" by (simp add: p_def p'_def)
    have "x * p \<le> y * p" using assms(2) fx(1) by (simp add: mult_right_mono)
    then have "round_half_even (x * p) \<le> round_half_even (y * p)"
      by (rule round_half_even_mono)
    then show ?thesis using fx(1) by (simp add: fx(4) fy(4) same divide_right_mono)
  next
    case False
    then have "of_int \<lfloor>log 2 x\<rfloor> + (1::real) \<le> of_int \<lfloor>log 2 y\<rfloor>"
      using e by linarith
    then have "52 - of_int \<lfloor>log 2 y\<rfloor> + (1::real) \<le> 52 - of_int \<lfloor>log 2 x\<rfloor>" by simp
    then have "2 powr (52 - of_int \<lfloor>log 2 y\<rfloor> + 1) \<le> (2::real) powr (52 - of_int \<lfloor>log 2 x\<rfloor>)"
      by (rule powr_mono) simp
    moreover have "2 powr (52 - of_int \<lfloor>log 2 y\<rfloor> + 1) = 2 * p'"
      using powr_add [of "2::real" "52 - of_int \<lfloor>log 2 y\<rfloor>" 1] by (simp add: p'_def)
    ultimately have pp: "2 * p' \<le> p" by (simp only: p_def)
    have "real_of_int (round_half_even (x * p)) \<le> 2 ^ 53"
      using r53 by (metis of_int_le_iff of_int_numeral of_int_power)
    then have "float64 x \<le> 2 ^ 53 / p"
      unfolding fx(4) using fx(1) by (intro divide_right_mono) simp_all
    also have "\<dots> \<le> 2 ^ 52 / p'"
      using pp fx(1) fy(1) by (simp add: field_simps)
    also have "\<dots> \<le> float64 y"
    proof -
      have "2 ^ 52 \<le> real_of_int (round_half_even (y * p'))"
        using r52 by (metis of_int_le_iff of_int_numeral of_int_power)
      then show ?thesis
        unfolding fy(4) using fy(1) by (intro divide_right_mono) simp_all
    qed
    finally show ?thesis .
  qed
qed

lemma node_count_minus: "node_count (- S_max) (- dS) = node_count S_max dS"
proof -
  have "- float64 S_max + - float64 dS = - (float64 S_max + float64 dS)" by simp
  then show ?thesis
    unfolding node_count_def float64_minus by (simp only: float64_minus minus_divide_divide)
qed

lemma node_count_at_least_two:
  assumes "0 < dS" "dS \<le> S_max"
  shows "2 \<le> node_count S_max dS"
proof -
  let ?d = "float64 dS" and ?S = "float64 S_max"
  have d: "0 < ?d" by (rule float64_positive [OF assms(1)])
  have dS: "?d \<le> ?S" by (rule float64_mono [OF assms])
  have sum: "0 < ?S + ?d" using d dS by simp
  have "(?S + ?d) - (?S + ?d) / 2 ^ 53 \<le> float64 (?S + ?d)"
    using float64_error [OF sum] by linarith
  moreover have "3 / 2 * ?d \<le> (?S + ?d) - (?S + ?d) / 2 ^ 53"
  proof -
    have "3 / 2 * ?d \<le> (?S + ?d) * (3 / 4)" using d dS by (simp add: field_simps)
    also have "(3::real) / 4 \<le> 1 - 1 / 2 ^ 53" by simp
    then have "(?S + ?d) * (3 / 4) \<le> (?S + ?d) * (1 - 1 / 2 ^ 53)"
      using sum by (intro mult_left_mono) simp_all
    also have "\<dots> = (?S + ?d) - (?S + ?d) / 2 ^ 53" by (simp only: right_diff_distrib) simp
    finally show ?thesis .
  qed
  ultimately have "3 / 2 * ?d \<le> float64 (?S + ?d)" by linarith
  then have "3 / 2 \<le> float64 (?S + ?d) / ?d" using d by (simp add: field_simps)
  then have "float64 (3 / 2) \<le> float64 (float64 (?S + ?d) / ?d)"
    by (intro float64_mono) simp_all
  moreover have "float64 (3 / 2) = 3 / 2"
    using float64_exact [of 3 1] by simp
  ultimately have "1 < float64 (float64 (?S + ?d) / ?d)" by simp
  then have "2 \<le> \<lceil>float64 (float64 (?S + ?d) / ?d)\<rceil>" by linarith
  then have "nat 2 \<le> nat \<lceil>float64 (float64 (?S + ?d) / ?d)\<rceil>" by (rule nat_mono)
  then show ?thesis by (simp add: node_count_def)
qed

lemma float64_values:
  "float64 0 = 0" "float64 1 = 1" "float64 2 = 2" "float64 3 = 3" "float64 5 = 5"
  "float64 41 = 41" "float64 100 = 100"
  "float64 (1 / 2) = 1 / 2" "float64 (5 / 2) = 5 / 2" "float64 (205 / 2) = 205 / 2"
  using float64_exact [of 0 0] float64_exact [of 1 0] float64_exact [of 2 0]
    float64_exact [of 3 0] float64_exact [of 5 0] float64_exact [of 41 0]
    float64_exact [of 100 0] float64_exact [of 1 1] float64_exact [of 5 1]
    float64_exact [of 205 1]
  by simp_all

lemma node_count_examples:
  "node_count 2 1 = 3" "node_count 2 (1 / 2) = 5" "node_count 100 (5 / 2) = 41"
  by (simp_all add: node_count_def float64_values)

lemma node_count_third: "node_count 2 (1 / 3) = 8"
proof -
  have d: "float64 (1 / 3) = 6004799503160661 / 18014398509481984"
    using float64_scaled [of "1 / 3" 54] by (simp add: round_half_even_def)
  have s: "float64 (2 + 6004799503160661 / 18014398509481984)
      = 5254199565265579 / 2251799813685248"
    using float64_scaled [of "2 + 6004799503160661 / 18014398509481984" 51]
    by (simp add: round_half_even_def)
  have q: "float64 (5254199565265579 / 2251799813685248 / (6004799503160661 / 18014398509481984))
      = 7881299347898369 / 1125899906842624"
    using float64_scaled
      [of "5254199565265579 / 2251799813685248 / (6004799503160661 / 18014398509481984)" 50]
    by (simp add: round_half_even_def)
  show ?thesis
    unfolding node_count_def float64_values d s q by simp
qed

lemma arange_rounded_nodes:
  assumes "dS \<noteq> 0"
  shows "arange_rounded 0 (float64 S_max + float64 dS) dS
           = Inr (map (\<lambda>i. real i * dS) [0..<node_count S_max dS])"
  using assms by (simp add: arange_rounded_def node_count_def)

lemma node_count_grid:
  assumes "0 < M" "K \<noteq> 0"
  shows "2 \<le> node_count (2 * K) (2 * K / real_of_int M)"
proof (cases "0 < K")
  case True
  then have "0 < 2 * K / real_of_int M" "2 * K / real_of_int M \<le> 2 * K"
    using assms(1) by (simp_all add: field_simps mult_le_cancel_left1)
  then show ?thesis by (rule node_count_at_least_two)
next
  case False
  then have K: "0 < - K" using assms(2) by simp
  then have "0 < - (2 * K / real_of_int M)" "- (2 * K / real_of_int M) \<le> - (2 * K)"
    using assms(1) by (simp_all add: field_simps mult_le_cancel_left1)
  then have "2 \<le> node_count (- (2 * K)) (- (2 * K / real_of_int M))"
    by (rule node_count_at_least_two)
  then show ?thesis by (simp only: node_count_minus)
qed

subsection \<open>Shapes, the loop and the initial grid\<close>

lemma length_dot_vm: "length (dot_vm v A) = length v"
  by (simp add: dot_vm_def)

lemma length_implicit_k: "length (implicit_k next a c M) = M"
  by (simp add: implicit_k_def)

lemma length_explicit_k: "length (explicit_k next a c M) = M"
  by (simp add: explicit_k_def)

lemma length_exercise_values: "length (exercise_values M dS K is_call) = M + 1"
  by (simp add: exercise_values_def)

lemma for_range_down_rows:
  assumes body: "\<And>i FV. body i FV = FV[i := row (FV ! (i + 1)) (FV ! i)]"
    and "n < length FV"
  shows "length (for_range_down body n FV) = length FV
       \<and> (\<forall>i. n \<le> i \<longrightarrow> for_range_down body n FV ! i = FV ! i)
       \<and> (\<forall>i<n. for_range_down body n FV ! i
               = row (for_range_down body n FV ! (i + 1)) (FV ! i))"
  using assms(2)
proof (induction n arbitrary: FV)
  case 0
  then show ?case by simp
next
  case (Suc n)
  let ?FV' = "body n FV"
  let ?G = "for_range_down body n ?FV'"
  have len': "length ?FV' = length FV" by (simp add: body)
  have n: "n < length ?FV'" using Suc.prems len' by simp
  note IH = Suc.IH [OF n]
  have G: "for_range_down body (Suc n) FV = ?G" by simp
  have at_n: "?FV' ! n = row (FV ! (n + 1)) (FV ! n)"
    using Suc.prems by (simp add: body)
  have other: "\<And>i. i \<noteq> n \<Longrightarrow> ?FV' ! i = FV ! i"
    by (simp add: body)
  have above: "\<And>i. Suc n \<le> i \<Longrightarrow> ?G ! i = FV ! i"
    using IH other by simp
  have row_n: "?G ! n = row (?G ! (n + 1)) (FV ! n)"
    using IH at_n above [of "n + 1"] by simp
  have below: "\<And>i. i < n \<Longrightarrow> ?G ! i = row (?G ! (i + 1)) (FV ! i)"
    using IH other by simp
  show ?case
    unfolding G using IH len' above row_n below
    by (auto simp: less_Suc_eq)
qed

lemma explicit_node_count:
  assumes "0 < M" "K \<noteq> 0"
  shows "nat \<lceil>(2 * K + K / real_of_int M) / (2 * K / real_of_int M)\<rceil> = nat M + 1"
proof -
  have "(2 * K + K / real_of_int M) / (2 * K / real_of_int M) = real_of_int M + 1 / 2"
    using assms by (simp add: field_simps)
  moreover have "\<lceil>real_of_int M + 1 / 2\<rceil> = M + 1"
    by (rule ceiling_unique) simp_all
  ultimately show ?thesis
    using assms by (simp add: nat_add_distrib)
qed

lemma arange_explicit_nodes:
  assumes "0 < M" "K \<noteq> 0"
  shows "arange 0 (2 * K + K / real_of_int M) (2 * K / real_of_int M)
           = Inr (map (\<lambda>i. real i * (2 * K / real_of_int M)) [0..<nat M + 1])"
  using assms explicit_node_count [OF assms] by (simp add: arange_def)

lemma initialize_option_matrix_grid:
  assumes "0 < N" "0 < M" "K \<noteq> 0"
  shows "initialize_option_matrix N M (2 * K) (2 * K / real_of_int M) K r dt is_call
           = (if node_count (2 * K) (2 * K / real_of_int M) = nat M + 1
              then Inr ((map (boundary_row (nat N) (nat M) K r dt is_call) [0..<nat N + 1])
                     [nat N := map (intrinsic (2 * K / real_of_int M) K is_call) [0..<nat M + 1]])
              else Inl ValueError)"
proof -
  have N: "nat (N + 1) = nat N + 1" "real_of_int N = real (nat N)"
    using assms by (simp_all add: nat_add_distrib)
  have dS: "2 * K / real_of_int M \<noteq> 0" using assms by simp
  have two: "node_count (2 * K) (2 * K / real_of_int M) \<noteq> 1"
    using node_count_grid [OF assms(2,3)] by simp
  show ?thesis
    using assms two
    by (cases is_call)
       (simp_all add: initialize_option_matrix_def arange_rounded_nodes [OF dS] assign_row_def N
          boundary_row_def [abs_def] intrinsic_def [abs_def] Let_def o_def
        del: of_nat_nat upt.simps replicate.simps)
qed

lemma explicit_boundary_grid:
  assumes "0 < M" "K \<noteq> 0"
  shows "explicit_boundary N (nat M) (2 * K) (2 * K / real_of_int M) K r dt isCall
           = Inr ((map (boundary_row N (nat M) K r dt isCall) [0..<N + 1])
                    [N := map (intrinsic (2 * K / real_of_int M) K isCall) [0..<nat M + 1]])"
  using assms
  by (cases isCall)
     (simp_all add: explicit_boundary_def arange_explicit_nodes assign_row_def
        boundary_row_def [abs_def] intrinsic_def [abs_def] Let_def o_def
      del: upt.simps replicate.simps)

lemma length_boundary_row: "length (boundary_row N M K r dt is_call i) = M + 1"
  by (simp add: boundary_row_def del: replicate.simps)

lemma length_initial_grid: "length (initial_grid N M dS K r dt is_call) = N + 1"
  by (simp add: initial_grid_def)

lemma initial_grid_last: "initial_grid N M dS K r dt is_call ! N = map (intrinsic dS K is_call) [0..<M + 1]"
  by (simp add: initial_grid_def)

lemma initial_grid_row:
  "i < N \<Longrightarrow> initial_grid N M dS K r dt is_call ! i = boundary_row N M K r dt is_call i"
  by (simp add: initial_grid_def del: upt.simps)

lemma length_initial_grid_row:
  "i \<le> N \<Longrightarrow> length (initial_grid N M dS K r dt is_call ! i) = M + 1"
  by (cases "i = N") (simp_all add: initial_grid_last initial_grid_row length_boundary_row del: upt.simps)

lemma rows_downward_induct:
  assumes "P N" and "\<And>i. i < N \<Longrightarrow> P (Suc i) \<Longrightarrow> P i" and "i \<le> N"
  shows "P i"
  using assms(3,1,2) by (induction rule: inc_induct) auto

lemma length_implicit_row:
  assumes "length next = M + 1" "length cur = M + 1"
  shows "length (implicit_row B a c M dS K is_call is_american next cur) = M + 1"
  using assms
  by (simp add: implicit_row_def Let_def np_maximum_def length_dot_vm length_implicit_k
      length_exercise_values)

lemma length_explicit_exercise_values:
  assumes "0 < M" "K \<noteq> 0"
  shows "explicit_exercise_values (2 * K) (2 * K / real_of_int M) K isCall
           = exercise_values (nat M) (2 * K / real_of_int M) K isCall"
  using assms explicit_node_count [OF assms]
  by (simp add: explicit_exercise_values_def exercise_values_def Let_def o_def del: upt.simps)

lemma length_explicit_row:
  assumes "length next = M + 1" "length cur = M + 1"
    and "length (explicit_exercise_values S_max dS K isCall) = M + 1"
  shows "length (explicit_row A a c M S_max dS K isCall isAmerican next cur) = M + 1"
  using assms
  by (simp add: explicit_row_def Let_def np_maximum_def length_dot_vm length_explicit_k)

lemma backward_iteration_rows:
  assumes "length FV = N + 1"
  shows "length (backward_iteration FV B a c N M dS K ic ia) = N + 1"
    and "backward_iteration FV B a c N M dS K ic ia ! N = FV ! N"
    and "i < N \<Longrightarrow> backward_iteration FV B a c N M dS K ic ia ! i
           = implicit_row B a c M dS K ic ia
               (backward_iteration FV B a c N M dS K ic ia ! (i + 1)) (FV ! i)"
proof -
  have N: "N < length FV" using assms by simp
  note * = for_range_down_rows [where body = "backward_step B a c M dS K ic ia"
      and row = "implicit_row B a c M dS K ic ia", OF _ N, folded backward_iteration_def]
  show "length (backward_iteration FV B a c N M dS K ic ia) = N + 1"
    using * assms by (simp add: backward_step_def)
  show "backward_iteration FV B a c N M dS K ic ia ! N = FV ! N"
    using * by (simp add: backward_step_def)
  show "i < N \<Longrightarrow> backward_iteration FV B a c N M dS K ic ia ! i
           = implicit_row B a c M dS K ic ia
               (backward_iteration FV B a c N M dS K ic ia ! (i + 1)) (FV ! i)"
    using * by (simp add: backward_step_def)
qed

lemma explicit_loop_rows:
  assumes "length FV = N + 1"
  shows "length (explicit_loop A a c M S_max dS K ic ia N FV) = N + 1"
    and "explicit_loop A a c M S_max dS K ic ia N FV ! N = FV ! N"
    and "i < N \<Longrightarrow> explicit_loop A a c M S_max dS K ic ia N FV ! i
           = explicit_row A a c M S_max dS K ic ia
               (explicit_loop A a c M S_max dS K ic ia N FV ! (i + 1)) (FV ! i)"
proof -
  have N: "N < length FV" using assms by simp
  note * = for_range_down_rows [where body = "explicit_step A a c M S_max dS K ic ia"
      and row = "explicit_row A a c M S_max dS K ic ia", OF _ N, folded explicit_loop_def]
  show "length (explicit_loop A a c M S_max dS K ic ia N FV) = N + 1"
    using * assms by (simp add: explicit_step_def)
  show "explicit_loop A a c M S_max dS K ic ia N FV ! N = FV ! N"
    using * by (simp add: explicit_step_def)
  show "i < N \<Longrightarrow> explicit_loop A a c M S_max dS K ic ia N FV ! i
           = explicit_row A a c M S_max dS K ic ia
               (explicit_loop A a c M S_max dS K ic ia N FV ! (i + 1)) (FV ! i)"
    using * by (simp add: explicit_step_def)
qed

lemma backward_iteration_row_length:
  assumes "length FV = N + 1" "\<And>i. i \<le> N \<Longrightarrow> length (FV ! i) = M + 1" "i \<le> N"
  shows "length (backward_iteration FV B a c N M dS K ic ia ! i) = M + 1"
proof (rule rows_downward_induct
    [where P = "\<lambda>i. length (backward_iteration FV B a c N M dS K ic ia ! i) = M + 1"
       and N = N])
  show "length (backward_iteration FV B a c N M dS K ic ia ! N) = M + 1"
    using assms by (simp add: backward_iteration_rows)
next
  fix i
  assume "i < N" "length (backward_iteration FV B a c N M dS K ic ia ! Suc i) = M + 1"
  then show "length (backward_iteration FV B a c N M dS K ic ia ! i) = M + 1"
    using assms(1,2) by (simp add: backward_iteration_rows length_implicit_row)
qed (rule assms(3))

lemma explicit_loop_row_length:
  assumes "length FV = N + 1" "\<And>i. i \<le> N \<Longrightarrow> length (FV ! i) = M + 1" "i \<le> N"
    and "length (explicit_exercise_values S_max dS K ic) = M + 1"
  shows "length (explicit_loop A a c M S_max dS K ic ia N FV ! i) = M + 1"
proof (rule rows_downward_induct
    [where P = "\<lambda>i. length (explicit_loop A a c M S_max dS K ic ia N FV ! i) = M + 1"
       and N = N])
  show "length (explicit_loop A a c M S_max dS K ic ia N FV ! N) = M + 1"
    using assms by (simp add: explicit_loop_rows)
next
  fix i
  assume "i < N" "length (explicit_loop A a c M S_max dS K ic ia N FV ! Suc i) = M + 1"
  then show "length (explicit_loop A a c M S_max dS K ic ia N FV ! i) = M + 1"
    using assms(1,2,4) by (simp add: explicit_loop_rows length_explicit_row)
qed (rule assms(3))

lemma initialize_option_matrix_initial_grid:
  assumes "0 < N" "0 < M" "K \<noteq> 0"
  shows "initialize_option_matrix N M (2 * K) (2 * K / real_of_int M) K r dt is_call
           = (if node_count (2 * K) (2 * K / real_of_int M) = nat M + 1
              then Inr (initial_grid (nat N) (nat M) (2 * K / real_of_int M) K r dt is_call)
              else Inl ValueError)"
  using initialize_option_matrix_grid [OF assms] by (simp add: initial_grid_def)

lemma explicit_coefficients_eq:
  "explicit_coefficients M dt r q sigma =
     (if 1 + r * dt = 0 then None
      else Some
        (map (\<lambda>j. (- 0.5 * (r - q) * dt * j + 0.5 * sigma\<^sup>2 * dt * j\<^sup>2) / (1.0 + r * dt))
           (arange_int M),
         map (\<lambda>j. (1.0 - sigma\<^sup>2 * dt * j\<^sup>2) / (1.0 + r * dt)) (arange_int M),
         map (\<lambda>j. (0.5 * (r - q) * dt * j + 0.5 * sigma\<^sup>2 * dt * j\<^sup>2) / (1.0 + r * dt))
           (arange_int M)))"
  by (simp add: explicit_coefficients_def np_divide_def Let_def o_def)

lemma explicit_arrays_eq:
  "explicit_arrays M dt r q sigma =
     (let j = arange_int M
      in (map (\<lambda>j. (- 0.5 * (r - q) * dt * j + 0.5 * sigma\<^sup>2 * dt * j\<^sup>2) / (1.0 + r * dt)) j,
          map (\<lambda>j. (1.0 - sigma\<^sup>2 * dt * j\<^sup>2) / (1.0 + r * dt)) j,
          map (\<lambda>j. (0.5 * (r - q) * dt * j + 0.5 * sigma\<^sup>2 * dt * j\<^sup>2) / (1.0 + r * dt)) j))"
  by (simp add: explicit_arrays_def explicit_coefficients_eq Let_def arange_int_def
      map_replicate_const o_def)

lemma explicit_coefficients_arrays:
  "explicit_coefficients M dt r q sigma = Some abc
     \<longleftrightarrow> 1 + r * dt \<noteq> 0 \<and> abc = explicit_arrays M dt r q sigma"
  by (auto simp: explicit_arrays_def explicit_coefficients_eq)

lemma explicit_boundary_initial_grid:
  assumes "0 < M" "K \<noteq> 0"
  shows "explicit_boundary N (nat M) (2 * K) (2 * K / real_of_int M) K r dt isCall
           = Inr (initial_grid N (nat M) (2 * K / real_of_int M) K r dt isCall)"
  using explicit_boundary_grid [OF assms] by (simp add: initial_grid_def)

lemmas explicit_defs = explicit_grid_def explicit_arrays_eq explicit_matrix_def
  explicit_boundary_def explicit_loop_def explicit_k_def explicit_step_def explicit_row_def
  explicit_exercise_values_def arange_def arange_int_def np_diag_def mat_add_def dot_vm_def
  norm_inf_def np_maximum_def assign_row_def VanillaOption_Explicit_def Let_def


subsection \<open>The coefficients and the correction vector\<close>

lemma implicit_coefficients_nth:
  assumes "j < nat M"
  shows "fst (compute_transition_probabilities M dt r q sigma) ! j
           = 0.5 * (r - q) * real j * dt - 0.5 * sigma\<^sup>2 * (real j)\<^sup>2 * dt"
    and "fst (snd (compute_transition_probabilities M dt r q sigma)) ! j
           = 1 + sigma\<^sup>2 * (real j)\<^sup>2 * dt + r * dt"
    and "snd (snd (compute_transition_probabilities M dt r q sigma)) ! j
           = - 0.5 * (r - q) * real j * dt - 0.5 * sigma\<^sup>2 * (real j)\<^sup>2 * dt"
  using assms by (simp_all add: compute_transition_probabilities_def arange_int_def Let_def)


lemma length_coefficients:
  "length (fst (compute_transition_probabilities M dt r q sigma)) = nat M"
  "length (fst (snd (compute_transition_probabilities M dt r q sigma))) = nat M"
  "length (snd (snd (compute_transition_probabilities M dt r q sigma))) = nat M"
  "length (fst (explicit_arrays M dt r q sigma)) = nat M"
  "length (fst (snd (explicit_arrays M dt r q sigma))) = nat M"
  "length (snd (snd (explicit_arrays M dt r q sigma))) = nat M"
  by (simp_all add: compute_transition_probabilities_def explicit_arrays_eq
      arange_int_def Let_def)




subsection \<open>The entry points on valid sizes\<close>

lemma explicit_grid_valid:
  assumes "0 < N" "0 < M" "K \<noteq> 0"
  shows "explicit_grid T K r q sigma N M ic ia =
     (case explicit_arrays M (T / real_of_int N) r q sigma of
        (a, b, c) \<Rightarrow>
          Inr (explicit_loop (explicit_matrix a b c M) a c (nat M) (2 * K)
                 (2 * K / real_of_int M) K ic ia (nat N)
                 (initial_grid (nat N) (nat M) (2 * K / real_of_int M) K r
                    (T / real_of_int N) ic),
               norm_inf (explicit_matrix a b c M)))"
  using assms
  by (simp add: explicit_grid_def Let_def explicit_boundary_initial_grid split: prod.splits)

lemma implicit_grid_cases:
  assumes "0 < N" "0 < M" "K \<noteq> 0"
  shows "implicit_grid T K r q sigma N M ic ia =
     (case compute_transition_probabilities M (T / real_of_int N) r q sigma of
        (a, b, c) \<Rightarrow>
          (case create_tridiagonal_matrix a b c of
             Inl e \<Rightarrow> Inl e
           | Inr (B, infinity_norm) \<Rightarrow>
               if node_count (2 * K) (2 * K / real_of_int M) = nat M + 1
               then Inr (backward_iteration
                      (initial_grid (nat N) (nat M) (2 * K / real_of_int M) K r
                         (T / real_of_int N) ic)
                      B a c (nat N) (nat M) (2 * K / real_of_int M) K ic ia,
                    infinity_norm)
               else Inl ValueError))"
  using assms
  by (simp add: implicit_grid_def Let_def initialize_option_matrix_initial_grid
      split: prod.splits sum.splits)

lemma implicit_grid_valid:
  assumes "0 < N" "0 < M" "K \<noteq> 0"
    and "node_count (2 * K) (2 * K / real_of_int M) = nat M + 1"
  shows "implicit_grid T K r q sigma N M ic ia =
     (case compute_transition_probabilities M (T / real_of_int N) r q sigma of
        (a, b, c) \<Rightarrow>
          (case create_tridiagonal_matrix a b c of
             Inl e \<Rightarrow> Inl e
           | Inr (B, infinity_norm) \<Rightarrow>
               Inr (backward_iteration
                      (initial_grid (nat N) (nat M) (2 * K / real_of_int M) K r
                         (T / real_of_int N) ic)
                      B a c (nat N) (nat M) (2 * K / real_of_int M) K ic ia,
                    infinity_norm)))"
  unfolding implicit_grid_cases [OF assms(1-3)] using assms(4)
  by (simp split: prod.splits sum.splits)

lemma implicit_grid_returns:
  assumes "0 < N" "0 < M" "K \<noteq> 0"
    and "implicit_grid T K r q sigma N M ic ia = Inr res"
  shows "node_count (2 * K) (2 * K / real_of_int M) = nat M + 1"
  using assms(4) unfolding implicit_grid_cases [OF assms(1-3)]
  by (auto split: prod.splits sum.splits if_splits)

lemma implicit_row_european_last:
  assumes "length nxt = M + 1" "length cur = M + 1"
  shows "implicit_row B a c M dS K ic False nxt cur ! M = cur ! M"
  using assms
  by (simp add: implicit_row_def Let_def nth_append length_dot_vm length_implicit_k)

lemma explicit_row_european_last:
  assumes "length nxt = M + 1" "length cur = M + 1"
  shows "explicit_row A a c M S_max dS K ic False nxt cur ! M = cur ! M"
  using assms
  by (simp add: explicit_row_def Let_def nth_append length_dot_vm length_explicit_k)

lemma backward_iteration_european_last_column:
  assumes "length FV = N + 1" "\<And>i. i \<le> N \<Longrightarrow> length (FV ! i) = M + 1" "i \<le> N"
  shows "backward_iteration FV B a c N M dS K ic False ! i ! M = FV ! i ! M"
proof (cases "i = N")
  case True
  then show ?thesis using assms(1) by (simp add: backward_iteration_rows)
next
  case False
  then have i: "i < N" using assms(3) by simp
  then have "length (backward_iteration FV B a c N M dS K ic False ! (i + 1)) = M + 1"
    using assms(1,2) by (intro backward_iteration_row_length) simp_all
  then show ?thesis
    using i assms(1,2) by (simp add: backward_iteration_rows implicit_row_european_last)
qed

lemma explicit_loop_european_last_column:
  assumes "length FV = N + 1" "\<And>i. i \<le> N \<Longrightarrow> length (FV ! i) = M + 1" "i \<le> N"
    and "length (explicit_exercise_values S_max dS K ic) = M + 1"
  shows "explicit_loop A a c M S_max dS K ic False N FV ! i ! M = FV ! i ! M"
proof (cases "i = N")
  case True
  then show ?thesis using assms(1) by (simp add: explicit_loop_rows)
next
  case False
  then have i: "i < N" using assms(3) by simp
  then have "length (explicit_loop A a c M S_max dS K ic False N FV ! (i + 1)) = M + 1"
    using assms(1,2,4) by (intro explicit_loop_row_length) simp_all
  then show ?thesis
    using i assms(1,2) by (simp add: explicit_loop_rows explicit_row_european_last)
qed

lemma explicit_exercise_values_valid:
  assumes "0 < M" "K \<noteq> 0"
  shows "length (explicit_exercise_values (2 * K) (2 * K / real_of_int M) K ic) = nat M + 1"
  using length_explicit_exercise_values [OF assms] by (simp add: length_exercise_values)


subsection \<open>Unfolding the model on concrete inputs\<close>

lemmas implicit_defs = implicit_grid_def compute_transition_probabilities_def
  create_tridiagonal_matrix_def tridiagonal_def la_inv_def eliminate_def scale_row_def
  sub_row_def identity_row_def initialize_option_matrix_def backward_iteration_def
  backward_step_def implicit_row_def implicit_k_def exercise_values_def
  arange_rounded_def float64_values arange_int_def np_diag_def mat_add_def dot_vm_def
  norm_inf_def np_maximum_def assign_row_def vanilla_option_implicit_def Let_def


subsection \<open>The exercise floor\<close>









subsection \<open>Soundness of the elimination\<close>

lemma row_okD:
  assumes "row_ok A n row"
  shows "length row = 2 * n"
    and "j < n \<Longrightarrow> row ! j = (\<Sum>k\<leftarrow>[0..<n]. row ! (n + k) * A ! k ! j)"
  using assms by (simp_all add: row_ok_def list_all_iff)

lemma row_okI:
  assumes "length row = 2 * n"
    and "\<And>j. j < n \<Longrightarrow> row ! j = (\<Sum>k\<leftarrow>[0..<n]. row ! (n + k) * A ! k ! j)"
  shows "row_ok A n row"
  using assms by (simp add: row_ok_def list_all_iff)

lemma cols_doneD:
  assumes "cols_done n j R" "i < n" "k < j"
  shows "R ! i ! k = (if i = k then 1 else 0)"
  using assms by (simp add: cols_done_def list_all_iff)

lemma cols_doneI:
  assumes "\<And>i k. i < n \<Longrightarrow> k < j \<Longrightarrow> R ! i ! k = (if i = k then 1 else 0)"
  shows "cols_done n j R"
  using assms by (simp add: cols_done_def list_all_iff)

lemma row_ok_scale:
  assumes "row_ok A n row"
  shows "row_ok A n (scale_row s row)"
proof (rule row_okI)
  show "length (scale_row s row) = 2 * n"
    using row_okD(1) [OF assms] by (simp add: scale_row_def)
next
  fix j assume j: "j < n"
  have len: "length row = 2 * n" by (rule row_okD(1) [OF assms])
  have "(\<Sum>k\<leftarrow>[0..<n]. scale_row s row ! (n + k) * A ! k ! j)
      = (\<Sum>k\<leftarrow>[0..<n]. s * (row ! (n + k) * A ! k ! j))"
    using len by (intro arg_cong [where f = sum_list] map_cong) (simp_all add: scale_row_def)
  also have "\<dots> = s * (\<Sum>k\<leftarrow>[0..<n]. row ! (n + k) * A ! k ! j)"
    by (simp add: sum_list_const_mult)
  also have "\<dots> = scale_row s row ! j"
    using row_okD(2) [OF assms j] j len by (simp add: scale_row_def)
  finally show "scale_row s row ! j = (\<Sum>k\<leftarrow>[0..<n]. scale_row s row ! (n + k) * A ! k ! j)"
    by simp
qed

lemma row_ok_sub:
  assumes "row_ok A n r" "row_ok A n p"
  shows "row_ok A n (sub_row r s p)"
proof (rule row_okI)
  have lr: "length r = 2 * n" and lp: "length p = 2 * n"
    using row_okD(1) assms by blast+
  show "length (sub_row r s p) = 2 * n"
    using lr lp by (simp add: sub_row_def)
  fix j assume j: "j < n"
  have "(\<Sum>k\<leftarrow>[0..<n]. sub_row r s p ! (n + k) * A ! k ! j)
      = (\<Sum>k\<leftarrow>[0..<n]. r ! (n + k) * A ! k ! j - s * (p ! (n + k) * A ! k ! j))"
    using lr lp
    by (intro arg_cong [where f = sum_list] map_cong) (simp_all add: sub_row_def algebra_simps)
  also have "\<dots> = (\<Sum>k\<leftarrow>[0..<n]. r ! (n + k) * A ! k ! j)
                 - s * (\<Sum>k\<leftarrow>[0..<n]. p ! (n + k) * A ! k ! j)"
    by (simp add: sum_list_subtractf sum_list_const_mult)
  also have "\<dots> = sub_row r s p ! j"
    using row_okD(2) [OF assms(1) j] row_okD(2) [OF assms(2) j] j lr lp
    by (simp add: sub_row_def)
  finally show "sub_row r s p ! j = (\<Sum>k\<leftarrow>[0..<n]. sub_row r s p ! (n + k) * A ! k ! j)"
    by simp
qed

lemma argmax_abs_range: "argmax_abs R j is best \<in> insert best (set is)"
  by (induction "is" arbitrary: best) (auto split: if_splits)

lemma pivot_range:
  assumes "j < n"
  shows "j \<le> argmax_abs R j [Suc j..<n] j" and "argmax_abs R j [Suc j..<n] j < n"
  using argmax_abs_range [of R j "[Suc j..<n]" j] assms by auto

lemma eliminate_Some:
  assumes "eliminate j R = Some R'" "length R = n" "j < n"
  obtains p where "j \<le> p" "p < n" "R ! p ! j \<noteq> 0"
    and "R' = map (\<lambda>i. if i = j then scale_row (1 / (R ! p ! j)) (R ! p)
                        else sub_row (R[j := R ! p, p := R ! j] ! i)
                               (R[j := R ! p, p := R ! j] ! i ! j)
                               (scale_row (1 / (R ! p ! j)) (R ! p))) [0..<n]"
proof -
  let ?p = "argmax_abs R j [Suc j..<n] j"
  have p: "j \<le> ?p" "?p < n" by (rule pivot_range [OF assms(3)])+
  have nz: "R ! ?p ! j \<noteq> 0"
    using assms(1,2) by (auto simp: eliminate_def Let_def split: if_splits)
  have swap_j: "R[j := R ! ?p, ?p := R ! j] ! j = R ! ?p"
    using p assms(2,3) by (cases "?p = j") simp_all
  have "R' = map (\<lambda>i. if i = j then scale_row (1 / (R ! ?p ! j)) (R ! ?p)
                        else sub_row (R[j := R ! ?p, ?p := R ! j] ! i)
                               (R[j := R ! ?p, ?p := R ! j] ! i ! j)
                               (scale_row (1 / (R ! ?p ! j)) (R ! ?p))) [0..<n]"
    using assms(1) nz unfolding eliminate_def Let_def assms(2) swap_j by simp
  then show thesis using p nz that by blast
qed

lemma swapped_row:
  assumes "i < n" "j < n" "p < n" "length R = n"
  shows "R[j := R ! p, p := R ! j] ! i = (if i = p then R ! j else if i = j then R ! p else R ! i)"
  using assms by (simp add: nth_list_update)

lemma eliminate_invariants:
  assumes el: "eliminate j R = Some R'" and len: "length R = n" and j: "j < n"
    and rows: "\<And>i. i < n \<Longrightarrow> row_ok A n (R ! i)"
    and cols: "cols_done n j R"
  shows "length R' = n" and "\<And>i. i < n \<Longrightarrow> row_ok A n (R' ! i)" and "cols_done n (Suc j) R'"
proof -
  from el len j obtain p where p: "j \<le> p" "p < n" and nz: "R ! p ! j \<noteq> 0"
    and R': "R' = map (\<lambda>i. if i = j then scale_row (1 / (R ! p ! j)) (R ! p)
                        else sub_row (R[j := R ! p, p := R ! j] ! i)
                               (R[j := R ! p, p := R ! j] ! i ! j)
                               (scale_row (1 / (R ! p ! j)) (R ! p))) [0..<n]"
    by (rule eliminate_Some)
  let ?R1 = "R[j := R ! p, p := R ! j]"
  let ?prow = "scale_row (1 / (R ! p ! j)) (R ! p)"
  have R1: "\<And>i. i < n \<Longrightarrow> ?R1 ! i = (if i = p then R ! j else if i = j then R ! p else R ! i)"
    using swapped_row [OF _ j p(2) len] by simp
  have R1_ok: "\<And>i. i < n \<Longrightarrow> row_ok A n (?R1 ! i)"
    using R1 rows j p by simp
  have prow_ok: "row_ok A n ?prow"
    by (rule row_ok_scale [OF rows [OF p(2)]])
  have R'_nth: "\<And>i. i < n \<Longrightarrow>
      R' ! i = (if i = j then ?prow else sub_row (?R1 ! i) (?R1 ! i ! j) ?prow)"
    unfolding R' by (simp del: upt.simps)
  show "length R' = n" unfolding R' by simp
  show "\<And>i. i < n \<Longrightarrow> row_ok A n (R' ! i)"
    using R'_nth prow_ok R1_ok row_ok_sub by simp
  have lenrow: "\<And>i. i < n \<Longrightarrow> length (R ! i) = 2 * n"
    using rows row_okD(1) by blast
  have lenR1: "\<And>i. i < n \<Longrightarrow> length (?R1 ! i) = 2 * n"
    using R1_ok row_okD(1) by blast
  have prow_nth: "\<And>k. k < 2 * n \<Longrightarrow> ?prow ! k = R ! p ! k / (R ! p ! j)"
    using lenrow [OF p(2)] by (simp add: scale_row_def)
  have prow_low: "\<And>k. k < j \<Longrightarrow> ?prow ! k = 0"
    using prow_nth cols_doneD [OF cols p(2)] p j by simp
  have prow_j: "?prow ! j = 1"
    using prow_nth [of j] nz j by simp
  have R1_low: "\<And>i k. i < n \<Longrightarrow> k < j \<Longrightarrow> ?R1 ! i ! k = (if i = k then 1 else 0)"
    using R1 cols_doneD [OF cols] j p by auto
  have sub_nth: "\<And>i k. i < n \<Longrightarrow> k < 2 * n \<Longrightarrow>
      sub_row (?R1 ! i) (?R1 ! i ! j) ?prow ! k = ?R1 ! i ! k - ?R1 ! i ! j * ?prow ! k"
    using lenR1 row_okD(1) [OF prow_ok] by (simp add: sub_row_def)
  show "cols_done n (Suc j) R'"
  proof (rule cols_doneI)
    fix i k assume i: "i < n" and k: "k < Suc j"
    have k2: "k < 2 * n" using k j by simp
    show "R' ! i ! k = (if i = k then 1 else 0)"
    proof (cases "i = j")
      case True
      then show ?thesis
        using R'_nth [OF i] prow_low [of k] prow_j k by (cases "k = j") simp_all
    next
      case False
      have "R' ! i ! k = ?R1 ! i ! k - ?R1 ! i ! j * ?prow ! k"
        using R'_nth [OF i] False sub_nth [OF i k2] by simp
      then show ?thesis
        using False prow_low [of k] prow_j R1_low [OF i, of k] k
        by (cases "k = j") simp_all
    qed
  qed
qed

lemma gauss_jordan_invariants:
  assumes "gauss_jordan m j R = Some R'" "j + m \<le> n" "length R = n"
    and "\<And>i. i < n \<Longrightarrow> row_ok A n (R ! i)"
    and "cols_done n j R"
  shows "length R' = n \<and> (\<forall>i<n. row_ok A n (R' ! i)) \<and> cols_done n (j + m) R'"
  using assms
proof (induction m arbitrary: j R)
  case 0
  then show ?case by simp
next
  case (Suc m)
  from Suc.prems(1) obtain R1 where el: "eliminate j R = Some R1"
    and rest: "gauss_jordan m (Suc j) R1 = Some R'"
    by (auto split: option.splits)
  have j: "j < n" using Suc.prems(2) by simp
  note inv = eliminate_invariants [OF el Suc.prems(3) j Suc.prems(4) Suc.prems(5)]
  have "length R' = n \<and> (\<forall>i<n. row_ok A n (R' ! i)) \<and> cols_done n (Suc j + m) R'"
    using Suc.prems(2) inv by (intro Suc.IH [OF rest]) simp_all
  then show ?case by simp
qed

lemma squareD:
  assumes "square n A"
  shows "length A = n" and "i < n \<Longrightarrow> length (A ! i) = n"
  using assms by (simp_all add: square_def list_all_length)

lemma sum_list_unit_row:
  assumes "i < n"
  shows "(\<Sum>k\<leftarrow>[0..<n]. identity_row n i ! k * f k) = (f i :: real)"
proof -
  have "(\<Sum>k\<leftarrow>[0..<n]. identity_row n i ! k * f k)
      = (\<Sum>k\<leftarrow>[0..<n]. if i = k then f k else 0)"
    by (intro arg_cong [where f = sum_list] map_cong) (simp_all add: identity_row_def)
  also have "\<dots> = (\<Sum>k\<in>{0..<n}. if i = k then f k else 0)"
    by (simp add: sum_list_distinct_conv_sum_set)
  also have "\<dots> = f i"
    using assms by simp
  finally show ?thesis .
qed

lemma augmented_row_ok:
  assumes "square n A" "i < n"
  shows "row_ok A n (A ! i @ identity_row n i)"
proof (rule row_okI)
  have len: "length (A ! i) = n" by (rule squareD(2) [OF assms])
  show "length (A ! i @ identity_row n i) = 2 * n"
    using len by (simp add: identity_row_def)
  fix j assume "j < n"
  have "(\<Sum>k\<leftarrow>[0..<n]. (A ! i @ identity_row n i) ! (n + k) * A ! k ! j)
      = (\<Sum>k\<leftarrow>[0..<n]. identity_row n i ! k * A ! k ! j)"
    using len by (simp add: nth_append)
  also have "\<dots> = A ! i ! j"
    by (rule sum_list_unit_row [OF assms(2)])
  finally show "(A ! i @ identity_row n i) ! j
      = (\<Sum>k\<leftarrow>[0..<n]. (A ! i @ identity_row n i) ! (n + k) * A ! k ! j)"
    using len \<open>j < n\<close> by (simp add: nth_append)
qed

lemma la_inv_left_inverse:
  assumes "la_inv A = Inr B" "square n A"
  shows "square n B" and "mat_mul B A = identity_matrix n"
proof -
  let ?aug = "map (\<lambda>i. A ! i @ identity_row n i) [0..<n]"
  have lenA: "length A = n" by (rule squareD(1) [OF assms(2)])
  from assms(1) obtain R where gj: "gauss_jordan n 0 ?aug = Some R"
    and B: "B = map (drop n) R"
    by (auto simp: la_inv_def Let_def lenA split: option.splits)
  have aug_rows: "\<And>i. i < n \<Longrightarrow> row_ok A n (?aug ! i)"
    using augmented_row_ok [OF assms(2)] by (simp del: upt.simps)
  have aug_cols: "cols_done n 0 ?aug"
    by (simp add: cols_done_def list_all_iff)
  have inv: "length R = n \<and> (\<forall>i<n. row_ok A n (R ! i)) \<and> cols_done n (0 + n) R"
    by (rule gauss_jordan_invariants [OF gj _ _ aug_rows aug_cols]) simp_all
  then have lenR: "length R = n" and rows: "\<And>i. i < n \<Longrightarrow> row_ok A n (R ! i)"
    and cols: "cols_done n n R"
    by simp_all
  have lenB: "length B = n" using B lenR by simp
  have B_row: "\<And>i. i < n \<Longrightarrow> length (B ! i) = n"
    using B lenR row_okD(1) [OF rows] by simp
  show "square n B"
    using lenB B_row by (simp add: square_def list_all_length)
  have B_nth: "\<And>i k. i < n \<Longrightarrow> k < n \<Longrightarrow> B ! i ! k = R ! i ! (n + k)"
    using B lenR row_okD(1) [OF rows] by simp
  have entry: "\<And>i j. i < n \<Longrightarrow> j < n \<Longrightarrow>
      (\<Sum>k\<leftarrow>[0..<n]. B ! i ! k * A ! k ! j) = (if i = j then 1 else 0)"
  proof -
    fix i j assume i: "i < n" and j: "j < n"
    have "(\<Sum>k\<leftarrow>[0..<n]. B ! i ! k * A ! k ! j) = (\<Sum>k\<leftarrow>[0..<n]. R ! i ! (n + k) * A ! k ! j)"
      using B_nth [OF i] by (intro arg_cong [where f = sum_list] map_cong) simp_all
    also have "\<dots> = R ! i ! j"
      using row_okD(2) [OF rows [OF i] j] by simp
    also have "\<dots> = (if i = j then 1 else 0)"
      by (rule cols_doneD [OF cols i j])
    finally show "(\<Sum>k\<leftarrow>[0..<n]. B ! i ! k * A ! k ! j) = (if i = j then 1 else 0)" .
  qed
  show "mat_mul B A = identity_matrix n"
  proof (rule nth_equalityI)
    show "length (mat_mul B A) = length (identity_matrix n)"
      using lenB by (simp add: mat_mul_def identity_matrix_def)
    fix i assume "i < length (mat_mul B A)"
    then have i: "i < n" using lenB by (simp add: mat_mul_def)
    have "dot_vm (B ! i) A = identity_row n i"
      using B_row [OF i] entry [OF i]
      by (intro nth_equalityI) (simp_all add: dot_vm_def identity_row_def del: upt.simps)
    then show "mat_mul B A ! i = identity_matrix n ! i"
      using i lenB by (simp add: mat_mul_def identity_matrix_def del: upt.simps)
  qed
qed

lemma dot_vm_transpose:
  assumes "square n A" "length v = n"
  shows "dot_vm v A = apply_matrix (transpose_matrix A) v"
proof -
  have lenA: "length A = n" by (rule squareD(1) [OF assms(1)])
  show ?thesis
    unfolding dot_vm_def apply_matrix_def transpose_matrix_def lenA assms(2) map_map o_def
    by (intro map_cong refl arg_cong [where f = sum_list]) (simp add: mult.commute)
qed


subsection \<open>The tridiagonal operator\<close>

lemma np_diag_nth:
  assumes "i < length v + nat \<bar>k\<bar>" "j < length v + nat \<bar>k\<bar>"
  shows "np_diag v k ! i ! j = (if int j - int i = k then v ! (min i j) else 0)"
  using assms by (simp add: np_diag_def Let_def del: upt.simps)

lemma length_np_diag:
  "length (np_diag v k) = length v + nat \<bar>k\<bar>"
  "i < length v + nat \<bar>k\<bar> \<Longrightarrow> length (np_diag v k ! i) = length v + nat \<bar>k\<bar>"
  by (simp_all add: np_diag_def Let_def del: upt.simps)

lemma mat_add_nth:
  assumes "i < length A" "i < length B" "j < length (A ! i)" "j < length (B ! i)"
  shows "mat_add A B ! i ! j = A ! i ! j + B ! i ! j"
  using assms by (simp add: mat_add_def)

lemma length_mat_add:
  "length (mat_add A B) = min (length A) (length B)"
  "i < length A \<Longrightarrow> i < length B \<Longrightarrow>
     length (mat_add A B ! i) = min (length (A ! i)) (length (B ! i))"
  by (simp_all add: mat_add_def)

lemma tridiagonal_eq:
  assumes "0 < M" "length a = M" "length b = M" "length c = M"
  shows "tridiagonal a b c = tridiagonal_operator a b c M"
proof -
  have sizes: "length b + nat \<bar>0::int\<bar> = M" "length (tl a) + nat \<bar>- 1::int\<bar> = M"
    "length (butlast c) + nat \<bar>1::int\<bar> = M"
    using assms by simp_all
  have len: "length (tridiagonal a b c) = M"
    using sizes by (simp add: tridiagonal_def length_mat_add length_np_diag)
  have row: "\<And>i. i < M \<Longrightarrow> length (tridiagonal a b c ! i) = M"
    using sizes by (simp add: tridiagonal_def length_mat_add length_np_diag)
  have entry: "\<And>i j. i < M \<Longrightarrow> j < M \<Longrightarrow>
      tridiagonal a b c ! i ! j =
        (if i = j then b ! i else if i = j + 1 then a ! i else if j = i + 1 then c ! i else 0)"
  proof -
    fix i j assume i: "i < M" and j: "j < M"
    have "tridiagonal a b c ! i ! j
        = np_diag b 0 ! i ! j + np_diag (tl a) (- 1) ! i ! j + np_diag (butlast c) 1 ! i ! j"
      using i j sizes
      by (simp add: tridiagonal_def mat_add_nth length_mat_add length_np_diag)
    also have "\<dots> = (if i = j then b ! i else 0) + (if i = j + 1 then a ! i else 0)
                    + (if j = i + 1 then c ! i else 0)"
    proof -
      have 1: "np_diag b 0 ! i ! j = (if i = j then b ! i else 0)"
        using i j sizes by (auto simp: np_diag_nth)
      have 2: "np_diag (tl a) (- 1) ! i ! j = (if i = j + 1 then a ! i else 0)"
        using i j sizes assms by (auto simp: np_diag_nth nth_tl min_def)
      have 3: "np_diag (butlast c) 1 ! i ! j = (if j = i + 1 then c ! i else 0)"
        using i j sizes assms by (auto simp: np_diag_nth nth_butlast min_def)
      show ?thesis by (simp only: 1 2 3)
    qed
    also have "\<dots> = (if i = j then b ! i else if i = j + 1 then a ! i
                      else if j = i + 1 then c ! i else 0)"
      by simp
    finally show "tridiagonal a b c ! i ! j =
        (if i = j then b ! i else if i = j + 1 then a ! i else if j = i + 1 then c ! i else 0)" .
  qed
  show ?thesis
  proof (rule nth_equalityI)
    show "length (tridiagonal a b c) = length (tridiagonal_operator a b c M)"
      using len by (simp add: tridiagonal_operator_def)
    fix i assume "i < length (tridiagonal a b c)"
    then have i: "i < M" using len by simp
    show "tridiagonal a b c ! i = tridiagonal_operator a b c M ! i"
      using i row [OF i] entry [OF i]
      by (intro nth_equalityI) (simp_all add: tridiagonal_operator_def del: upt.simps)
  qed
qed

lemma explicit_matrix_eq:
  assumes "0 < M" "length a = M" "length b = M" "length c = M"
  shows "explicit_matrix a b c (int M) = tridiagonal_operator a b c M"
proof -
  have "take (nat (int M - 1)) c = butlast c"
    using assms by (simp add: butlast_conv_take nat_diff_distrib)
  then have "explicit_matrix a b c (int M) = tridiagonal a b c"
    by (simp add: explicit_matrix_def tridiagonal_def)
  then show ?thesis using tridiagonal_eq [OF assms] by simp
qed

lemma square_tridiagonal_operator: "square M (tridiagonal_operator a b c M)"
  by (simp add: square_def tridiagonal_operator_def list_all_iff)

lemma tridiagonal_operator_nth:
  assumes "i < M" "j < M"
  shows "tridiagonal_operator a b c M ! i ! j =
     (if i = j then b ! i else if i = j + 1 then a ! i else if j = i + 1 then c ! i else 0)"
  using assms by (simp add: tridiagonal_operator_def del: upt.simps)


subsection \<open>Monotone steps\<close>

lemma dot_vm_nth:
  assumes "j < length v"
  shows "dot_vm v A ! j = (\<Sum>k\<leftarrow>[0..<length v]. v ! k * A ! k ! j)"
  using assms by (simp add: dot_vm_def del: upt.simps)




lemma implicit_k_nth:
  assumes "j < M"
  shows "implicit_k nxt a c M ! j =
     (if j = M - 1 then - (c ! (M - 1)) * nxt ! M else if j = 0 then - (a ! 0) * nxt ! 0 else 0)"
  using assms by (simp add: implicit_k_def nth_list_update)


















subsection \<open>Failing calls\<close>

lemma create_tridiagonal_matrix_error:
  assumes "create_tridiagonal_matrix a b c = Inl e"
  shows "e = ValueError \<and> b = [] \<or> e = LinAlgError \<and> b \<noteq> []"
  using assms
  by (auto simp: create_tridiagonal_matrix_def la_inv_def Let_def
      split: if_splits sum.splits option.splits)

lemma explicit_grid_zero_size:
  assumes "M = 0 \<or> N = 0"
  shows "explicit_grid T K r q sigma N M ic ia = Inl ZeroDivisionError"
  using assms by (auto simp: explicit_grid_def Let_def)

lemma implicit_grid_zero_size:
  assumes "M = 0 \<or> N = 0"
  shows "implicit_grid T K r q sigma N M ic ia = Inl ZeroDivisionError"
  using assms by (auto simp: implicit_grid_def Let_def)

lemma explicit_grid_negative_size:
  assumes "M < 0 \<or> N < 0"
  shows "isl (explicit_grid T K r q sigma N M ic ia)"
  using assms by (auto simp: explicit_grid_def Let_def split: prod.splits)

lemma initialize_option_matrix_negative_rows:
  assumes "N < 0"
  shows "isl (initialize_option_matrix N M S_max dS K r dt ic)"
  using assms by (auto simp: initialize_option_matrix_def Let_def split: sum.splits)

lemma implicit_grid_negative_size:
  assumes "M < 0 \<or> N < 0"
  shows "isl (implicit_grid T K r q sigma N M ic ia)"
proof (cases "M = 0 \<or> N = 0")
  case True
  then show ?thesis by (simp add: implicit_grid_zero_size)
next
  case False
  show ?thesis
  proof (cases "M < 0")
    case True
    then have "fst (snd (compute_transition_probabilities M (T / real_of_int N) r q sigma)) = []"
      by (simp add: compute_transition_probabilities_def arange_int_def Let_def)
    then show ?thesis
      using False
      by (auto simp: implicit_grid_def Let_def create_tridiagonal_matrix_def split: prod.splits)
  next
    case M: False
    then have "N < 0" using assms by simp
    then have "\<exists>e. initialize_option_matrix N M (2 * K) (2 * K / real_of_int M) K r
        (T / real_of_int N) ic = Inl e"
      using initialize_option_matrix_negative_rows [of N] by (simp add: isl_def)
    then show ?thesis
      using False
      by (auto simp: implicit_grid_def Let_def isl_def split: prod.splits sum.splits)
  qed
qed

lemma explicit_grid_zero_strike:
  assumes "0 < N" "0 < M"
  shows "explicit_grid T 0 r q sigma N M ic ia = Inl ZeroDivisionError"
  using assms
  by (simp add: explicit_grid_def Let_def explicit_boundary_def arange_def split: prod.splits)

lemma implicit_grid_zero_strike:
  assumes "0 < N" "0 < M"
  shows "implicit_grid T 0 r q sigma N M ic ia = Inl ZeroDivisionError
       \<or> implicit_grid T 0 r q sigma N M ic ia = Inl LinAlgError"
proof -
  have b: "fst (snd (compute_transition_probabilities M (T / real_of_int N) r q sigma)) \<noteq> []"
    using assms(2) by (simp add: compute_transition_probabilities_def arange_int_def Let_def)
  show ?thesis
    using assms b
    by (auto simp: implicit_grid_def Let_def initialize_option_matrix_def arange_rounded_def float64_values
        split: prod.splits sum.splits dest!: create_tridiagonal_matrix_error)
qed

lemma explicit_grid_succeeds:
  assumes "0 < N" "0 < M" "K \<noteq> 0"
  shows "\<exists>res. explicit_grid T K r q sigma N M ic ia = Inr res"
  unfolding explicit_grid_valid [OF assms] by (simp split: prod.splits)

lemma implicit_grid_succeeds_or_singular:
  assumes "0 < N" "0 < M" "K \<noteq> 0"
  shows "(\<exists>res. implicit_grid T K r q sigma N M ic ia = Inr res)
       \<or> implicit_grid T K r q sigma N M ic ia = Inl LinAlgError
       \<or> implicit_grid T K r q sigma N M ic ia = Inl ValueError
          \<and> node_count (2 * K) (2 * K / real_of_int M) \<noteq> nat M + 1"
proof -
  have b: "fst (snd (compute_transition_probabilities M (T / real_of_int N) r q sigma)) \<noteq> []"
    using assms(2) by (simp add: compute_transition_probabilities_def arange_int_def Let_def)
  show ?thesis
    unfolding implicit_grid_cases [OF assms]
    using b by (auto split: prod.splits sum.splits dest!: create_tridiagonal_matrix_error)
qed

lemma entry_point_results:
  "VanillaOption_Explicit S_0 T K r q sigma N M ic ia = Inl e
     \<longleftrightarrow> explicit_grid T K r q sigma N M ic ia = Inl e"
  "vanilla_option_implicit S_0 T K r q sigma N M ic ia = Inl e
     \<longleftrightarrow> implicit_grid T K r q sigma N M ic ia = Inl e"
  "(\<exists>res. VanillaOption_Explicit S_0 T K r q sigma N M ic ia = Inr res)
     \<longleftrightarrow> (\<exists>res. explicit_grid T K r q sigma N M ic ia = Inr res)"
  "(\<exists>res. vanilla_option_implicit S_0 T K r q sigma N M ic ia = Inr res)
     \<longleftrightarrow> (\<exists>res. implicit_grid T K r q sigma N M ic ia = Inr res)"
  "isl (VanillaOption_Explicit S_0 T K r q sigma N M ic ia)
     \<longleftrightarrow> isl (explicit_grid T K r q sigma N M ic ia)"
  "isl (vanilla_option_implicit S_0 T K r q sigma N M ic ia)
     \<longleftrightarrow> isl (implicit_grid T K r q sigma N M ic ia)"
  by (auto simp: VanillaOption_Explicit_def vanilla_option_implicit_def isl_def
      split: sum.splits prod.splits)


subsection \<open>Coefficient vectors at the entry points\<close>


lemma implicit_coefficients_lengths:
  assumes "compute_transition_probabilities M dt r q sigma = (a, b, c)"
  shows "length a = nat M" "length b = nat M" "length c = nat M"
  using assms length_coefficients(1-3) [of M dt r q sigma] by simp_all



lemma fair_value_column_read:
  assumes "explicit_grid T K r q sigma N M ic ia = Inr (FVe, ne)"
    and "implicit_grid T K r q sigma N M ic ia = Inr (FVi, ni)"
    and "0 < M" "even M"
  shows "VanillaOption_Explicit S_0 T K r q sigma N M ic ia = Inr (FVe ! 0 ! (nat M div 2 + 1), ne)"
    and "vanilla_option_implicit S_0 T K r q sigma N M ic ia = Inr (FVi ! 0 ! (nat M div 2), ni)"
proof -
  obtain m where m: "M = 2 * m" using assms(4) by (elim evenE)
  then have "0 < m" using assms(3) by simp
  then have "nat ((M + 1 + 1) div 2) = nat M div 2 + 1" "nat (M div 2) = nat M div 2"
    using m by (simp_all add: nat_add_distrib nat_mult_distrib)
  then show "VanillaOption_Explicit S_0 T K r q sigma N M ic ia
      = Inr (FVe ! 0 ! (nat M div 2 + 1), ne)"
    and "vanilla_option_implicit S_0 T K r q sigma N M ic ia = Inr (FVi ! 0 ! (nat M div 2), ni)"
    using assms(1,2) by (simp_all add: VanillaOption_Explicit_def vanilla_option_implicit_def)
qed


subsection \<open>Concrete runs\<close>

lemma explicit_call_example:
  "explicit_grid 1 1 0 0 1 1 2 True False = Inr ([[0, 1/2, 2], [0, 0, 1]], 1)"
  by (simp add: explicit_defs upt_rec numeral_2_eq_2)

lemma explicit_american_call_example:
  "explicit_grid 1 1 0 0 1 1 2 True True = Inr ([[0, 1/2, 2], [0, 0, 1]], 1)"
  by (simp add: explicit_defs upt_rec numeral_2_eq_2)

lemma explicit_put_example:
  "explicit_grid 1 1 0 0 1 1 2 False False = Inr ([[1, 0, 0], [1, 0, 0]], 1)"
  by (simp add: explicit_defs upt_rec numeral_2_eq_2)

lemma implicit_call_example:
  "implicit_grid 1 1 0 0 1 1 2 True False = Inr ([[1/8, 1/4, 2], [0, 0, 1]], 1)"
  by (simp add: implicit_defs upt_rec numeral_2_eq_2)

lemma implicit_american_call_example:
  "implicit_grid 1 1 0 0 1 1 2 True True = Inr ([[1/8, 1/4, 2], [0, 0, 1]], 1)"
  by (simp add: implicit_defs upt_rec numeral_2_eq_2)


lemma explicit_put_four_example:
  "explicit_grid 1 1 0 0 1 1 4 False False
     = Inr ([[5/4, 0, 1/4, 0, 0], [1, 1/2, 0, 0, 0]], 25/2)"
  by (simp add: explicit_defs upt_rec numeral_2_eq_2 eval_nat_numeral)

lemma explicit_zero_maturity_example:
  "explicit_grid 0 1 0 0 1 1 2 True False = Inr ([[0, 0, 2], [0, 0, 1]], 1)"
  by (simp add: explicit_defs upt_rec numeral_2_eq_2)






subsection \<open>One backward step\<close>

lemma explicit_step_row:
  assumes "i < length FV"
  shows "explicit_step A a c M S_max dS K ic ia i FV ! i
           = explicit_row A a c M S_max dS K ic ia (FV ! (i + 1)) (FV ! i)"
  using assms by (simp add: explicit_step_def)

lemma backward_step_row:
  assumes "i < length FV"
  shows "backward_step B a c M dS K ic ia i FV ! i
           = implicit_row B a c M dS K ic ia (FV ! (i + 1)) (FV ! i)"
  using assms by (simp add: backward_step_def)

lemma explicit_row_european_take:
  assumes "length nxt = M + 1"
  shows "take M (explicit_row A a c M S_max dS K ic False nxt cur)
           = map2 (+) (dot_vm (take M nxt) A) (explicit_k nxt a c M)"
  using assms by (simp add: explicit_row_def Let_def length_dot_vm length_explicit_k)

lemma implicit_row_european_take:
  assumes "length nxt = M + 1"
  shows "take M (implicit_row B a c M dS K ic False nxt cur)
           = dot_vm (map2 (+) (take M nxt) (implicit_k nxt a c M)) B"
  using assms by (simp add: implicit_row_def Let_def length_dot_vm length_implicit_k)

lemma create_tridiagonal_matrix_inverse:
  assumes "create_tridiagonal_matrix a b c = Inr (B, n)"
    and "0 < M" "length a = M" "length b = M" "length c = M"
  shows "square M B" and "mat_mul B (tridiagonal_operator a b c M) = identity_matrix M"
    and "n = norm_inf B"
proof -
  have inv: "la_inv (tridiagonal_operator a b c M) = Inr B" and n: "n = norm_inf B"
    using assms(1) tridiagonal_eq [OF assms(2-5)] assms(2,4)
    by (auto simp: create_tridiagonal_matrix_def split: if_splits sum.splits)
  show "square M B" and "mat_mul B (tridiagonal_operator a b c M) = identity_matrix M"
    using la_inv_left_inverse [OF inv square_tridiagonal_operator] by simp_all
  show "n = norm_inf B" by (rule n)
qed

lemma explicit_put_coefficients:
  "explicit_arrays 2 1 0 0 1 = ([0, 1/2], [1, 0], [0, 1/2])"
  by (simp add: explicit_arrays_eq arange_int_def Let_def upt_rec numeral_2_eq_2)


subsection \<open>A run of the implicit scheme above the upper boundary\<close>

lemma gauss_jordan_numeral:
  "gauss_jordan (numeral k) j R =
     (case eliminate j R of None \<Rightarrow> None | Some R' \<Rightarrow> gauss_jordan (pred_numeral k) (Suc j) R')"
  by (simp add: numeral_eq_Suc)

lemma for_range_down_numeral:
  "for_range_down body (numeral k) s = for_range_down body (pred_numeral k) (body (pred_numeral k) s)"
  by (simp add: numeral_eq_Suc)

lemma overshoot_coefficients:
  "compute_transition_probabilities 4 2 0 0 2
     = ([0, - 4, - 16, - 36], [1, 9, 33, 73], [0, - 4, - 16, - 36])"
  by (simp add: compute_transition_probabilities_def arange_int_def Let_def upt_rec
      eval_nat_numeral)

lemma overshoot_operator:
  "tridiagonal [0, - 4, - 16, - 36] [1, 9, 33, 73] [0, - 4, - 16, - 36]
     = [[1, 0, 0, 0],
       [- 4, 9, - 4, 0],
       [0, - 16, 33, - 16],
       [0, 0, - 36, 73]]"
  by (simp add: tridiagonal_def np_diag_def mat_add_def Let_def upt_rec eval_nat_numeral)

lemma overshoot_eliminate_0:
  "eliminate (0)
     [[1, 0, 0, 0, 1, 0, 0, 0],
      [- 4, 9, - 4, 0, 0, 1, 0, 0],
      [0, - 16, 33, - 16, 0, 0, 1, 0],
      [0, 0, - 36, 73, 0, 0, 0, 1]]
   = Some
     [[1, - (9/4), 1, 0, 0, - (1/4), 0, 0],
      [0, 9/4, - 1, 0, 1, 1/4, 0, 0],
      [0, - 16, 33, - 16, 0, 0, 1, 0],
      [0, 0, - 36, 73, 0, 0, 0, 1]]"
  by (simp add: eliminate_def scale_row_def sub_row_def Let_def upt_rec eval_nat_numeral)

lemma overshoot_eliminate_1:
  "eliminate (Suc 0)
     [[1, - (9/4), 1, 0, 0, - (1/4), 0, 0],
      [0, 9/4, - 1, 0, 1, 1/4, 0, 0],
      [0, - 16, 33, - 16, 0, 0, 1, 0],
      [0, 0, - 36, 73, 0, 0, 0, 1]]
   = Some
     [[1, 0, - (233/64), 9/4, 0, - (1/4), - (9/64), 0],
      [0, 1, - (33/16), 1, 0, 0, - (1/16), 0],
      [0, 0, 233/64, - (9/4), 1, 1/4, 9/64, 0],
      [0, 0, - 36, 73, 0, 0, 0, 1]]"
  by (simp add: eliminate_def scale_row_def sub_row_def Let_def upt_rec eval_nat_numeral)

lemma overshoot_eliminate_2:
  "eliminate (Suc (Suc 0))
     [[1, 0, - (233/64), 9/4, 0, - (1/4), - (9/64), 0],
      [0, 1, - (33/16), 1, 0, 0, - (1/16), 0],
      [0, 0, 233/64, - (9/4), 1, 1/4, 9/64, 0],
      [0, 0, - 36, 73, 0, 0, 0, 1]]
   = Some
     [[1, 0, 0, - (11825/2304), 0, - (1/4), - (9/64), - (233/2304)],
      [0, 1, 0, - (611/192), 0, 0, - (1/16), - (11/192)],
      [0, 0, 1, - (73/36), 0, 0, 0, - (1/36)],
      [0, 0, 0, 11825/2304, 1, 1/4, 9/64, 233/2304]]"
  by (simp add: eliminate_def scale_row_def sub_row_def Let_def upt_rec eval_nat_numeral)

lemma overshoot_eliminate_3:
  "eliminate (Suc (Suc (Suc 0)))
     [[1, 0, 0, - (11825/2304), 0, - (1/4), - (9/64), - (233/2304)],
      [0, 1, 0, - (611/192), 0, 0, - (1/16), - (11/192)],
      [0, 0, 1, - (73/36), 0, 0, 0, - (1/36)],
      [0, 0, 0, 11825/2304, 1, 1/4, 9/64, 233/2304]]
   = Some
     [[1, 0, 0, 0, 1, 0, 0, 0],
      [0, 1, 0, 0, 7332/11825, 1833/11825, 292/11825, 64/11825],
      [0, 0, 1, 0, 4672/11825, 1168/11825, 657/11825, 144/11825],
      [0, 0, 0, 1, 2304/11825, 576/11825, 324/11825, 233/11825]]"
  by (simp add: eliminate_def scale_row_def sub_row_def Let_def upt_rec eval_nat_numeral)

lemma overshoot_inverse:
  "la_inv [[1, 0, 0, 0],
         [- 4, 9, - 4, 0],
         [0, - 16, 33, - 16],
         [0, 0, - 36, 73]]
     = Inr [[1, 0, 0, 0],
          [7332/11825, 1833/11825, 292/11825, 64/11825],
          [4672/11825, 1168/11825, 657/11825, 144/11825],
          [2304/11825, 576/11825, 324/11825, 233/11825]]"
  by (simp add: la_inv_def identity_row_def Let_def upt_rec gauss_jordan_numeral
      overshoot_eliminate_0 overshoot_eliminate_1 overshoot_eliminate_2 overshoot_eliminate_3)

lemma overshoot_norm:
  "norm_inf [[1, 0, 0, 0],
            [7332/11825, 1833/11825, 292/11825, 64/11825],
            [4672/11825, 1168/11825, 657/11825, 144/11825],
            [2304/11825, 576/11825, 324/11825, 233/11825]] = 1"
  by (simp add: norm_inf_def)

lemma overshoot_initial_grid:
  "initialize_option_matrix 2 4 2 (1/2) 1 0 2 True
     = Inr [[0, 0, 0, 0, 2],
          [0, 0, 0, 0, 2],
          [0, 0, 0, 1/2, 1]]"
  by (simp add: initialize_option_matrix_def arange_rounded_def float64_values assign_row_def Let_def upt_rec
      eval_nat_numeral)

lemma overshoot_step_1:
  "backward_step [[1, 0, 0, 0],
                 [7332/11825, 1833/11825, 292/11825, 64/11825],
                 [4672/11825, 1168/11825, 657/11825, 144/11825],
                 [2304/11825, 576/11825, 324/11825, 233/11825]]
     [0, - 4, - 16, - 36] [0, - 4, - 16, - 36] 4 (1/2) 1 True False (Suc 0)
     [[0, 0, 0, 0, 2],
      [0, 0, 0, 0, 2],
      [0, 0, 0, 1/2, 1]]
   = [[0, 0, 0, 0, 2],
     [84096/11825, 21024/11825, 11826/11825, 17009/23650, 2],
     [0, 0, 0, 1/2, 1]]"
  by (simp add: backward_step_def implicit_row_def implicit_k_def dot_vm_def Let_def upt_rec
      eval_nat_numeral)

lemma overshoot_step_0:
  "backward_step [[1, 0, 0, 0],
                 [7332/11825, 1833/11825, 292/11825, 64/11825],
                 [4672/11825, 1168/11825, 657/11825, 144/11825],
                 [2304/11825, 576/11825, 324/11825, 233/11825]]
     [0, - 4, - 16, - 36] [0, - 4, - 16, - 36] 4 (1/2) 1 True False 0
     [[0, 0, 0, 0, 2],
      [84096/11825, 21024/11825, 11826/11825, 17009/23650, 2],
      [0, 0, 0, 1/2, 1]]
   = [[3185054208/139830625, 547654752/139830625, 292517748/139830625, 406812457/279661250, 2],
     [84096/11825, 21024/11825, 11826/11825, 17009/23650, 2],
     [0, 0, 0, 1/2, 1]]"
  by (simp add: backward_step_def implicit_row_def implicit_k_def dot_vm_def Let_def upt_rec
      eval_nat_numeral)

lemma implicit_overshoot_example:
  "vanilla_option_implicit 1 4 1 0 0 2 2 4 True False = Inr (292517748/139830625, 1)"
  by (simp add: vanilla_option_implicit_def implicit_grid_def create_tridiagonal_matrix_def
      backward_iteration_def Let_def for_range_down_numeral overshoot_coefficients overshoot_operator overshoot_inverse
      overshoot_norm overshoot_initial_grid overshoot_step_1 overshoot_step_0)


lemma implicit_monotone_overshoot:
  "vanilla_option_implicit 1 4 1 0 0 2 2 4 True False = Inr (292517748/139830625, 1)
   \<and> 2 * (1::real) < 292517748/139830625"
  by (simp add: implicit_overshoot_example)


subsection \<open>Further concrete runs\<close>

lemma implicit_call_initial_grid:
  "initialize_option_matrix 1 2 (2 * 1) (2 * 1 / real_of_int 2) 1 0 (1 / real_of_int 1) True
     = Inr [[0, 0, 2], [0, 0, 1]]"
  by (simp add: initialize_option_matrix_def arange_rounded_def float64_values assign_row_def Let_def upt_rec
      numeral_2_eq_2)

lemma implicit_dividend_coefficients:
  "compute_transition_probabilities 2 1 0 1 (1/2) = ([0, - 5/8], [1, 5/4], [0, 3/8])"
  by (simp add: compute_transition_probabilities_def arange_int_def Let_def upt_rec
      numeral_2_eq_2 power2_eq_square)

lemma implicit_dividend_operator:
  "create_tridiagonal_matrix [0, - 5/8] [1, 5/4] [0, 3/8] = Inr ([[1, 0], [1/2, 4/5]], 13/10)"
  by (simp add: implicit_defs upt_rec numeral_2_eq_2)

lemma explicit_call_coefficients:
  "explicit_arrays 2 (1 / real_of_int 1) 0 0 1 = ([0, 1/2], [1, 0], [0, 1/2])"
  by (simp add: explicit_arrays_eq arange_int_def Let_def upt_rec numeral_2_eq_2)

lemma implicit_call_coefficients:
  "compute_transition_probabilities 2 (1 / real_of_int 1) 0 0 1
     = ([0, - 1/2], [1, 2], [0, - 1/2])"
  by (simp add: compute_transition_probabilities_def arange_int_def Let_def upt_rec
      numeral_2_eq_2)

lemma implicit_call_operator:
  "create_tridiagonal_matrix [0, - 1/2] [1, 2] [0, - 1/2] = Inr ([[1, 0], [1/4, 1/2]], 1)"
  by (simp add: implicit_defs upt_rec numeral_2_eq_2)

lemma explicit_call_nonnegative:
  "\<forall>j<nat 2. 0 \<le> [0, 1/2 :: real] ! j \<and> 0 \<le> [1, 0 :: real] ! j \<and> 0 \<le> [0, 1/2 :: real] ! j"
  by (auto simp: numeral_2_eq_2 less_Suc_eq)

lemma implicit_call_nonnegative:
  "(\<forall>k<nat 2. \<forall>j<nat 2. 0 \<le> [[1, 0], [1/4, 1/2 :: real]] ! k ! j)
     \<and> [0, - 1/2 :: real] ! (nat 2 - 1) \<le> 0"
  by (auto simp: numeral_2_eq_2 less_Suc_eq)



subsection \<open>Completeness of the elimination\<close>

lemma row_span_mono:
  assumes "S \<subseteq> row_span T" "v \<in> row_span S"
  shows "v \<in> row_span T"
  using assms(2,1)
  by (induction rule: row_span.induct) (auto intro: row_span.intros)

lemma row_span_property:
  assumes "v \<in> row_span S"
    and "\<And>u. u \<in> S \<Longrightarrow> P u"
    and "\<And>u s. P u \<Longrightarrow> P (scale_row s u)"
    and "\<And>u w s. P u \<Longrightarrow> P w \<Longrightarrow> P (sub_row u s w)"
  shows "P v"
  using assms by (induction rule: row_span.induct) auto

lemma scale_row_inverse:
  assumes "s \<noteq> 0"
  shows "scale_row s (scale_row (1 / s) v) = v"
  using assms by (simp add: scale_row_def o_def)

lemma sub_row_inverse:
  assumes "length v = length p"
  shows "sub_row (sub_row v m p) (- m) p = v"
  using assms
  by (intro nth_equalityI) (simp_all add: sub_row_def)

lemma argmax_abs_greatest:
  assumes "i \<in> insert best (set is)"
  shows "\<bar>R ! i ! j\<bar> \<le> \<bar>R ! argmax_abs R j is best ! j\<bar>"
  using assms
proof (induction "is" arbitrary: best i)
  case Nil
  then show ?case by simp
next
  case (Cons k ks)
  let ?b = "if \<bar>R ! best ! j\<bar> < \<bar>R ! k ! j\<bar> then k else best"
  have step: "\<And>i. i \<in> insert ?b (set ks) \<Longrightarrow> \<bar>R ! i ! j\<bar> \<le> \<bar>R ! argmax_abs R j ks ?b ! j\<bar>"
    using Cons.IH by blast
  have b: "\<bar>R ! best ! j\<bar> \<le> \<bar>R ! ?b ! j\<bar>" "\<bar>R ! k ! j\<bar> \<le> \<bar>R ! ?b ! j\<bar>"
    by simp_all
  have top: "\<bar>R ! ?b ! j\<bar> \<le> \<bar>R ! argmax_abs R j ks ?b ! j\<bar>"
    by (rule step) simp
  from Cons.prems consider "i = best" | "i = k" | "i \<in> set ks" by auto
  then show ?case
  proof cases
    case 1
    then show ?thesis using b(1) top by simp
  next
    case 2
    then show ?thesis using b(2) top by simp
  next
    case 3
    then show ?thesis using step [of i] by simp
  qed
qed

lemma eliminate_None_column:
  assumes "eliminate j R = None" "length R = n" "j \<le> i" "i < n"
  shows "R ! i ! j = 0"
proof -
  let ?p = "argmax_abs R j [Suc j..<n] j"
  have "R ! ?p ! j = 0"
    using assms(1,2) by (auto simp: eliminate_def Let_def split: if_splits)
  moreover have "i \<in> insert j (set [Suc j..<n])" using assms(3,4) by auto
  then have "\<bar>R ! i ! j\<bar> \<le> \<bar>R ! ?p ! j\<bar>" by (rule argmax_abs_greatest)
  ultimately show ?thesis by simp
qed

lemma eliminate_span:
  assumes el: "eliminate j R = Some R'" and len: "length R = n" and j: "j < n"
    and rows: "\<And>i. i < n \<Longrightarrow> length (R ! i) = 2 * n"
  shows "set R \<subseteq> row_span (set R')"
proof -
  from el len j obtain p where p: "j \<le> p" "p < n" and nz: "R ! p ! j \<noteq> 0"
    and R': "R' = map (\<lambda>i. if i = j then scale_row (1 / (R ! p ! j)) (R ! p)
                        else sub_row (R[j := R ! p, p := R ! j] ! i)
                               (R[j := R ! p, p := R ! j] ! i ! j)
                               (scale_row (1 / (R ! p ! j)) (R ! p))) [0..<n]"
    by (rule eliminate_Some)
  let ?R1 = "R[j := R ! p, p := R ! j]"
  let ?prow = "scale_row (1 / (R ! p ! j)) (R ! p)"
  have R1: "\<And>i. i < n \<Longrightarrow> ?R1 ! i = (if i = p then R ! j else if i = j then R ! p else R ! i)"
    using swapped_row [OF _ j p(2) len] by simp
  have lenR': "length R' = n" unfolding R' by simp
  have R'_nth: "\<And>i. i < n \<Longrightarrow>
      R' ! i = (if i = j then ?prow else sub_row (?R1 ! i) (?R1 ! i ! j) ?prow)"
    unfolding R' by (simp del: upt.simps)
  have in_set: "\<And>i. i < n \<Longrightarrow> R' ! i \<in> row_span (set R')"
    using lenR' by (intro row_span.base) simp
  have prow: "?prow \<in> row_span (set R')"
    using in_set [OF j] R'_nth [OF j] by simp
  have pivot: "R ! p \<in> row_span (set R')"
    using row_span.scaled [OF prow, of "R ! p ! j"] nz by (simp add: scale_row_inverse)
  have lenR1: "\<And>i. i < n \<Longrightarrow> length (?R1 ! i) = length ?prow"
    using R1 rows j p by (simp add: scale_row_def)
  have other: "\<And>i. i < n \<Longrightarrow> i \<noteq> j \<Longrightarrow> ?R1 ! i \<in> row_span (set R')"
  proof -
    fix i assume i: "i < n" "i \<noteq> j"
    have "sub_row (R' ! i) (- (?R1 ! i ! j)) ?prow \<in> row_span (set R')"
      by (rule row_span.subtracted [OF in_set [OF i(1)] prow])
    then show "?R1 ! i \<in> row_span (set R')"
      using R'_nth [OF i(1)] i(2) sub_row_inverse [OF lenR1 [OF i(1)]] by simp
  qed
  have all_R1: "\<And>i. i < n \<Longrightarrow> ?R1 ! i \<in> row_span (set R')"
  proof -
    fix i assume i: "i < n"
    show "?R1 ! i \<in> row_span (set R')"
    proof (cases "i = j")
      case True
      then show ?thesis using R1 [OF i] pivot p by (cases "j = p") simp_all
    next
      case False
      then show ?thesis by (rule other [OF i])
    qed
  qed
  show ?thesis
  proof
    fix v assume "v \<in> set R"
    then obtain k where k: "k < n" "v = R ! k"
      using len by (auto simp: in_set_conv_nth)
    let ?i = "if k = p then j else if k = j then p else k"
    have i: "?i < n" using k j p by simp
    have "?R1 ! ?i = R ! k"
      using R1 [OF i] by auto
    then show "v \<in> row_span (set R')"
      using all_R1 [OF i] k(2) by simp
  qed
qed

lemma eliminate_span_invariant:
  assumes "eliminate j R = Some R'" "length R = n" "j < n"
    and "\<And>i. i < n \<Longrightarrow> length (R ! i) = 2 * n"
    and "v \<in> row_span (set R)"
  shows "v \<in> row_span (set R')"
  by (rule row_span_mono [OF eliminate_span [OF assms(1-4)] assms(5)])

lemma annihilated_scale:
  assumes "annihilated n x v"
  shows "annihilated n x (scale_row s v)"
proof -
  have len: "length v = 2 * n" and z: "(\<Sum>t\<leftarrow>[0..<n]. v ! t * x ! t) = 0"
    using assms by (simp_all add: annihilated_def)
  have "(\<Sum>t\<leftarrow>[0..<n]. scale_row s v ! t * x ! t) = (\<Sum>t\<leftarrow>[0..<n]. s * (v ! t * x ! t))"
    using len by (intro arg_cong [where f = sum_list] map_cong) (simp_all add: scale_row_def)
  also have "\<dots> = 0" using z by (simp add: sum_list_const_mult)
  finally show ?thesis using len by (simp add: annihilated_def scale_row_def)
qed

lemma annihilated_sub:
  assumes "annihilated n x v" "annihilated n x w"
  shows "annihilated n x (sub_row v s w)"
proof -
  have lv: "length v = 2 * n" and zv: "(\<Sum>t\<leftarrow>[0..<n]. v ! t * x ! t) = 0"
    using assms(1) by (simp_all add: annihilated_def)
  have lw: "length w = 2 * n" and zw: "(\<Sum>t\<leftarrow>[0..<n]. w ! t * x ! t) = 0"
    using assms(2) by (simp_all add: annihilated_def)
  have "(\<Sum>t\<leftarrow>[0..<n]. sub_row v s w ! t * x ! t)
      = (\<Sum>t\<leftarrow>[0..<n]. v ! t * x ! t - s * (w ! t * x ! t))"
    using lv lw
    by (intro arg_cong [where f = sum_list] map_cong) (simp_all add: sub_row_def algebra_simps)
  also have "\<dots> = 0" using zv zw by (simp add: sum_list_subtractf sum_list_const_mult)
  finally show ?thesis using lv lw by (simp add: annihilated_def sub_row_def)
qed

lemma stuck_rows_annihilated:
  assumes len: "length R = n" and j: "j < n"
    and rows: "\<And>i. i < n \<Longrightarrow> length (R ! i) = 2 * n"
    and cols: "cols_done n j R"
    and zero: "\<And>i. j \<le> i \<Longrightarrow> i < n \<Longrightarrow> R ! i ! j = 0"
    and i: "i < n"
  shows "annihilated n (kernel_candidate n j R) (R ! i)"
proof -
  let ?x = "kernel_candidate n j R"
  have x: "\<And>t. t < n \<Longrightarrow> ?x ! t = (if t = j then 1 else if t < j then - (R ! t ! j) else 0)"
    by (simp add: kernel_candidate_def del: upt.simps)
  have "(\<Sum>t\<leftarrow>[0..<n]. R ! i ! t * ?x ! t)
      = (\<Sum>t\<in>{0..<n}. R ! i ! t * ?x ! t)"
    by (simp add: sum_list_distinct_conv_sum_set)
  also have "\<dots> = (\<Sum>t\<in>{0..<n}. (if t = j then R ! i ! j else 0)
                        + (if t < j then - (R ! i ! t * R ! t ! j) else 0))"
    by (intro sum.cong refl) (simp add: x)
  also have "\<dots> = (\<Sum>t\<in>{0..<n}. if t = j then R ! i ! j else 0)
                  + (\<Sum>t\<in>{0..<n}. if t < j then - (R ! i ! t * R ! t ! j) else 0)"
    by (rule sum.distrib)
  also have "(\<Sum>t\<in>{0..<n}. if t = j then R ! i ! j else 0) = R ! i ! j"
    using j by simp
  also have "(\<Sum>t\<in>{0..<n}. if t < j then - (R ! i ! t * R ! t ! j) else 0)
      = (\<Sum>t\<in>{0..<j}. - (R ! i ! t * R ! t ! j))"
    using j by (intro sum.mono_neutral_cong_right) auto
  also have "\<dots> = (\<Sum>t\<in>{0..<j}. if t = i then - (R ! i ! j) else 0)"
    using cols_doneD [OF cols i] by (intro sum.cong refl) simp
  also have "\<dots> = (if i < j then - (R ! i ! j) else 0)"
    by simp
  finally have "(\<Sum>t\<leftarrow>[0..<n]. R ! i ! t * ?x ! t)
      = R ! i ! j + (if i < j then - (R ! i ! j) else 0)" .
  then have "(\<Sum>t\<leftarrow>[0..<n]. R ! i ! t * ?x ! t) = 0"
    using zero [of i] i by (cases "i < j") simp_all
  then show ?thesis using rows [OF i] by (simp add: annihilated_def)
qed

lemma eliminate_succeeds:
  assumes len: "length R = n" and j: "j < n"
    and rows: "\<And>i. i < n \<Longrightarrow> length (R ! i) = 2 * n"
    and cols: "cols_done n j R"
    and span: "\<And>i. i < n \<Longrightarrow> augmented_row A n i \<in> row_span (set R)"
    and sq: "square n A" and inj: "injective_matrix n A"
  shows "eliminate j R \<noteq> None"
proof
  assume stuck: "eliminate j R = None"
  let ?x = "kernel_candidate n j R"
  have zero: "\<And>i. j \<le> i \<Longrightarrow> i < n \<Longrightarrow> R ! i ! j = 0"
    by (rule eliminate_None_column [OF stuck len])
  have rows_ann: "\<And>u. u \<in> set R \<Longrightarrow> annihilated n ?x u"
    using stuck_rows_annihilated [OF len j rows cols zero] len
    by (auto simp: in_set_conv_nth)
  have aug: "\<And>i. i < n \<Longrightarrow> annihilated n ?x (augmented_row A n i)"
    by (rule row_span_property [OF span rows_ann annihilated_scale annihilated_sub])
  have "\<forall>i<n. (\<Sum>t\<leftarrow>[0..<n]. A ! i ! t * ?x ! t) = 0"
  proof (intro allI impI)
    fix i assume i: "i < n"
    have "(\<Sum>t\<leftarrow>[0..<n]. augmented_row A n i ! t * ?x ! t) = 0"
      using aug [OF i] by (simp add: annihilated_def)
    moreover have "(\<Sum>t\<leftarrow>[0..<n]. augmented_row A n i ! t * ?x ! t)
        = (\<Sum>t\<leftarrow>[0..<n]. A ! i ! t * ?x ! t)"
      using squareD(2) [OF sq i]
      by (intro arg_cong [where f = sum_list] map_cong)
         (simp_all add: augmented_row_def nth_append)
    ultimately show "(\<Sum>t\<leftarrow>[0..<n]. A ! i ! t * ?x ! t) = 0" by simp
  qed
  moreover have "length ?x = n" by (simp add: kernel_candidate_def)
  ultimately have "\<forall>t<n. ?x ! t = 0"
    using inj by (simp add: injective_matrix_def)
  then have "?x ! j = 0" using j by simp
  moreover have "?x ! j = 1" using j by (simp add: kernel_candidate_def del: upt.simps)
  ultimately show False by simp
qed

lemma gauss_jordan_succeeds:
  assumes "j + m \<le> n" "length R = n"
    and "\<And>i. i < n \<Longrightarrow> row_ok A n (R ! i)"
    and "cols_done n j R"
    and "\<And>i. i < n \<Longrightarrow> augmented_row A n i \<in> row_span (set R)"
    and "square n A" "injective_matrix n A"
  shows "gauss_jordan m j R \<noteq> None"
  using assms(1-5)
proof (induction m arbitrary: j R)
  case 0
  then show ?case by simp
next
  case (Suc m)
  have j: "j < n" using Suc.prems(1) by simp
  have rows: "\<And>i. i < n \<Longrightarrow> length (R ! i) = 2 * n"
    using Suc.prems(3) row_okD(1) by blast
  have "eliminate j R \<noteq> None"
    by (rule eliminate_succeeds [OF Suc.prems(2) j rows Suc.prems(4) Suc.prems(5) assms(6,7)])
  then obtain R1 where el: "eliminate j R = Some R1" by auto
  note inv = eliminate_invariants [OF el Suc.prems(2) j Suc.prems(3) Suc.prems(4)]
  have span: "\<And>i. i < n \<Longrightarrow> augmented_row A n i \<in> row_span (set R1)"
    by (rule eliminate_span_invariant [OF el Suc.prems(2) j rows Suc.prems(5)])
  have "gauss_jordan m (Suc j) R1 \<noteq> None"
    using Suc.prems(1) inv span by (intro Suc.IH) simp_all
  then show ?case using el by simp
qed

lemma la_inv_succeeds:
  assumes "square n A" "injective_matrix n A"
  shows "\<exists>B. la_inv A = Inr B"
proof -
  let ?aug = "map (\<lambda>i. A ! i @ identity_row n i) [0..<n]"
  have lenA: "length A = n" by (rule squareD(1) [OF assms(1)])
  have aug_rows: "\<And>i. i < n \<Longrightarrow> row_ok A n (?aug ! i)"
    using augmented_row_ok [OF assms(1)] by (simp del: upt.simps)
  have aug_cols: "cols_done n 0 ?aug"
    by (simp add: cols_done_def list_all_iff)
  have span: "\<And>i. i < n \<Longrightarrow> augmented_row A n i \<in> row_span (set ?aug)"
    by (intro row_span.base) (auto simp: augmented_row_def)
  have "gauss_jordan n 0 ?aug \<noteq> None"
    by (rule gauss_jordan_succeeds [OF _ _ aug_rows aug_cols span assms]) simp_all
  then show ?thesis
    by (auto simp: la_inv_def Let_def lenA split: option.splits)
qed


subsection \<open>Dominant tridiagonal matrices\<close>

lemma sum_list_upt_sum: "(\<Sum>t\<leftarrow>[0..<n]. f t) = (\<Sum>t\<in>{0..<n}. (f t :: real))"
  by (simp add: sum_list_distinct_conv_sum_set)

lemma tridiagonal_apply:
  assumes "i < n"
  shows "(\<Sum>t\<leftarrow>[0..<n]. tridiagonal_operator a b c n ! i ! t * x ! t)
       = b ! i * x ! i + (if 0 < i then a ! i * x ! (i - 1) else 0)
         + (if i + 1 < n then c ! i * x ! (i + 1) else 0)"
proof -
  have "(\<Sum>t\<leftarrow>[0..<n]. tridiagonal_operator a b c n ! i ! t * x ! t)
      = (\<Sum>t\<in>{0..<n}. tridiagonal_operator a b c n ! i ! t * x ! t)"
    by (rule sum_list_upt_sum)
  also have "\<dots> = (\<Sum>t\<in>{0..<n}. (if t = i then b ! i * x ! i else 0)
                        + (if i = t + 1 then a ! i * x ! (i - 1) else 0)
                        + (if t = i + 1 then c ! i * x ! (i + 1) else 0))"
    using assms by (intro sum.cong refl) (auto simp: tridiagonal_operator_nth)
  also have "\<dots> = (\<Sum>t\<in>{0..<n}. if t = i then b ! i * x ! i else 0)
                  + (\<Sum>t\<in>{0..<n}. if i = t + 1 then a ! i * x ! (i - 1) else 0)
                  + (\<Sum>t\<in>{0..<n}. if t = i + 1 then c ! i * x ! (i + 1) else 0)"
    by (simp add: sum.distrib)
  also have "(\<Sum>t\<in>{0..<n}. if t = i then b ! i * x ! i else 0) = b ! i * x ! i"
    using assms by simp
  also have "(\<Sum>t\<in>{0..<n}. if i = t + 1 then a ! i * x ! (i - 1) else 0)
      = (\<Sum>t\<in>{0..<n}. if t = i - 1 then (if 0 < i then a ! i * x ! (i - 1) else 0) else 0)"
    by (intro sum.cong refl) auto
  also have "\<dots> = (if 0 < i then a ! i * x ! (i - 1) else 0)"
  proof -
    have "i - 1 \<in> {0..<n}" using assms by simp
    then show ?thesis by (simp only: sum.delta finite_atLeastLessThan if_True)
  qed
  also have "(\<Sum>t\<in>{0..<n}. if t = i + 1 then c ! i * x ! (i + 1) else 0)
      = (if i + 1 < n then c ! i * x ! (i + 1) else 0)"
    by simp
  finally show ?thesis .
qed

lemma row_times_tridiagonal:
  assumes "j < n"
  shows "(\<Sum>k\<leftarrow>[0..<n]. y ! k * tridiagonal_operator a b c n ! k ! j)
       = b ! j * y ! j + (if 0 < j then c ! (j - 1) * y ! (j - 1) else 0)
         + (if j + 1 < n then a ! (j + 1) * y ! (j + 1) else 0)"
proof -
  have "(\<Sum>k\<leftarrow>[0..<n]. y ! k * tridiagonal_operator a b c n ! k ! j)
      = (\<Sum>k\<in>{0..<n}. y ! k * tridiagonal_operator a b c n ! k ! j)"
    by (rule sum_list_upt_sum)
  also have "\<dots> = (\<Sum>k\<in>{0..<n}. (if k = j then b ! j * y ! j else 0)
                        + (if j = k + 1 then c ! (j - 1) * y ! (j - 1) else 0)
                        + (if k = j + 1 then a ! (j + 1) * y ! (j + 1) else 0))"
    using assms by (intro sum.cong refl) (auto simp: tridiagonal_operator_nth)
  also have "\<dots> = (\<Sum>k\<in>{0..<n}. if k = j then b ! j * y ! j else 0)
                  + (\<Sum>k\<in>{0..<n}. if j = k + 1 then c ! (j - 1) * y ! (j - 1) else 0)
                  + (\<Sum>k\<in>{0..<n}. if k = j + 1 then a ! (j + 1) * y ! (j + 1) else 0)"
    by (simp add: sum.distrib)
  also have "(\<Sum>k\<in>{0..<n}. if k = j then b ! j * y ! j else 0) = b ! j * y ! j"
    using assms by simp
  also have "(\<Sum>k\<in>{0..<n}. if j = k + 1 then c ! (j - 1) * y ! (j - 1) else 0)
      = (\<Sum>k\<in>{0..<n}. if k = j - 1 then (if 0 < j then c ! (j - 1) * y ! (j - 1) else 0) else 0)"
    by (intro sum.cong refl) auto
  also have "\<dots> = (if 0 < j then c ! (j - 1) * y ! (j - 1) else 0)"
  proof -
    have "j - 1 \<in> {0..<n}" using assms by simp
    then show ?thesis by (simp only: sum.delta finite_atLeastLessThan if_True)
  qed
  also have "(\<Sum>k\<in>{0..<n}. if k = j + 1 then a ! (j + 1) * y ! (j + 1) else 0)
      = (if j + 1 < n then a ! (j + 1) * y ! (j + 1) else 0)"
    by simp
  finally show ?thesis .
qed

lemma greatest_entry:
  "0 < (n::nat) \<Longrightarrow> \<exists>i<n. \<forall>t<n. (f t :: real) \<le> f i"
proof (induction n)
  case 0
  then show ?case by simp
next
  case (Suc n)
  show ?case
  proof (cases "n = 0")
    case True
    then show ?thesis by simp
  next
    case False
    then obtain i where i: "i < n" "\<forall>t<n. f t \<le> f i" using Suc.IH by auto
    show ?thesis
    proof (cases "f n \<le> f i")
      case True
      then show ?thesis using i by (intro exI [of _ i]) (auto simp: less_Suc_eq)
    next
      case False
      then have "\<forall>t<n. f t \<le> f n" using i(2) by (meson le_less_linear less_le_trans less_imp_le order_trans)
      then show ?thesis by (intro exI [of _ n]) (auto simp: less_Suc_eq)
    qed
  qed
qed

lemma dominant_tridiagonal_injective:
  assumes dom: "\<And>i. i < n \<Longrightarrow> \<bar>a ! i\<bar> + \<bar>c ! i\<bar> < \<bar>b ! i\<bar>"
  shows "injective_matrix n (tridiagonal_operator a b c n)"
  unfolding injective_matrix_def
proof (intro allI impI)
  fix x :: vec and t
  assume len: "length x = n"
    and zero: "\<forall>i<n. (\<Sum>t\<leftarrow>[0..<n]. tridiagonal_operator a b c n ! i ! t * x ! t) = 0"
    and t: "t < n"
  then have "0 < n" by simp
  then obtain i where i: "i < n" and top: "\<forall>t<n. \<bar>x ! t\<bar> \<le> \<bar>x ! i\<bar>"
    using greatest_entry [of n "\<lambda>t. \<bar>x ! t\<bar>"] by auto
  let ?l = "if 0 < i then a ! i * x ! (i - 1) else 0"
  let ?u = "if i + 1 < n then c ! i * x ! (i + 1) else 0"
  have eq: "b ! i * x ! i + ?l + ?u = 0"
    using zero i tridiagonal_apply [OF i, of a b c x] by simp
  have l: "\<bar>?l\<bar> \<le> \<bar>a ! i\<bar> * \<bar>x ! i\<bar>"
    using top i by (auto simp: abs_mult intro!: mult_left_mono)
  have u: "\<bar>?u\<bar> \<le> \<bar>c ! i\<bar> * \<bar>x ! i\<bar>"
    using top i by (auto simp: abs_mult intro!: mult_left_mono)
  have "\<bar>b ! i\<bar> * \<bar>x ! i\<bar> = \<bar>?l + ?u\<bar>"
    using eq by (simp add: abs_mult [symmetric] add.assoc add_eq_0_iff abs_minus_commute)
  also have "\<dots> \<le> \<bar>?l\<bar> + \<bar>?u\<bar>" by (rule abs_triangle_ineq)
  also have "\<dots> \<le> (\<bar>a ! i\<bar> + \<bar>c ! i\<bar>) * \<bar>x ! i\<bar>"
    using l u by (simp add: algebra_simps)
  finally have "(\<bar>b ! i\<bar> - (\<bar>a ! i\<bar> + \<bar>c ! i\<bar>)) * \<bar>x ! i\<bar> \<le> 0"
    by (simp add: algebra_simps)
  moreover have "0 < \<bar>b ! i\<bar> - (\<bar>a ! i\<bar> + \<bar>c ! i\<bar>)" using dom [OF i] by simp
  ultimately have "\<bar>x ! i\<bar> \<le> 0"
    by (simp add: mult_le_0_iff)
  then have "\<bar>x ! t\<bar> \<le> 0" using top t by force
  then show "x ! t = 0" by simp
qed

lemma shifted_down_sum:
  "(\<Sum>j\<in>{0..<n::nat}. if 0 < j then g (j - 1) else 0) = (\<Sum>k\<in>{0..<n - 1}. (g k :: real))"
proof (induction n)
  case 0
  then show ?case by simp
next
  case (Suc n)
  then show ?case by (cases n) simp_all
qed

lemma shifted_up_sum:
  "(\<Sum>j\<in>{0..<n::nat}. if j + 1 < n then h (j + 1) else 0) = (\<Sum>k\<in>{1..<n}. (h k :: real))"
proof -
  have "(\<Sum>j\<in>{0..<n}. if j + 1 < n then h (j + 1) else 0) = (\<Sum>j\<in>{0..<n - 1}. h (j + 1))"
    by (intro sum.mono_neutral_cong_right) auto
  also have "\<dots> = (\<Sum>k\<in>{1..<n}. h k)"
    using sum.shift_bounds_Suc_ivl [of h 0 "n - 1"] by (cases n) simp_all
  finally show ?thesis .
qed

lemma row_vector_norm_bound:
  fixes a b c y :: vec
  assumes dom: "\<And>k. k < n \<Longrightarrow> \<bar>a ! k\<bar> + \<bar>c ! k\<bar> + \<alpha> \<le> \<bar>b ! k\<bar>"
  shows "\<alpha> * (\<Sum>k\<in>{0..<n}. \<bar>y ! k\<bar>)
       \<le> (\<Sum>j\<in>{0..<n}. \<bar>b ! j * y ! j + (if 0 < j then c ! (j - 1) * y ! (j - 1) else 0)
                         + (if j + 1 < n then a ! (j + 1) * y ! (j + 1) else 0)\<bar>)"
proof -
  let ?g = "\<lambda>k. \<bar>c ! k\<bar> * \<bar>y ! k\<bar>"
  let ?h = "\<lambda>k. \<bar>a ! k\<bar> * \<bar>y ! k\<bar>"
  let ?d = "\<lambda>k. \<bar>b ! k\<bar> * \<bar>y ! k\<bar>"
  have down: "(\<Sum>j\<in>{0..<n}. if 0 < j then ?g (j - 1) else 0) \<le> (\<Sum>k\<in>{0..<n}. ?g k)"
    using shifted_down_sum [where n = n and g = ?g]
      sum_mono2 [of "{0..<n}" "{0..<n - 1}" ?g] by simp
  have up: "(\<Sum>j\<in>{0..<n}. if j + 1 < n then ?h (j + 1) else 0) \<le> (\<Sum>k\<in>{0..<n}. ?h k)"
    using shifted_up_sum [where n = n and h = ?h]
      sum_mono2 [of "{0..<n}" "{1..<n}" ?h] by simp
  have "\<alpha> * (\<Sum>k\<in>{0..<n}. \<bar>y ! k\<bar>) = (\<Sum>k\<in>{0..<n}. \<alpha> * \<bar>y ! k\<bar>)"
    by (rule sum_distrib_left)
  also have "\<dots> \<le> (\<Sum>k\<in>{0..<n}. ?d k - ?g k - ?h k)"
  proof (rule sum_mono)
    fix k assume "k \<in> {0..<n}"
    then have "\<alpha> \<le> \<bar>b ! k\<bar> - \<bar>c ! k\<bar> - \<bar>a ! k\<bar>" using dom [of k] by simp
    then have "\<alpha> * \<bar>y ! k\<bar> \<le> (\<bar>b ! k\<bar> - \<bar>c ! k\<bar> - \<bar>a ! k\<bar>) * \<bar>y ! k\<bar>"
      by (intro mult_right_mono) simp_all
    then show "\<alpha> * \<bar>y ! k\<bar> \<le> ?d k - ?g k - ?h k" by (simp add: algebra_simps)
  qed
  also have "\<dots> = (\<Sum>k\<in>{0..<n}. ?d k) - (\<Sum>k\<in>{0..<n}. ?g k) - (\<Sum>k\<in>{0..<n}. ?h k)"
    by (simp add: sum_subtractf)
  also have "\<dots> \<le> (\<Sum>j\<in>{0..<n}. ?d j) - (\<Sum>j\<in>{0..<n}. if 0 < j then ?g (j - 1) else 0)
                    - (\<Sum>j\<in>{0..<n}. if j + 1 < n then ?h (j + 1) else 0)"
    using down up by simp
  also have "\<dots> = (\<Sum>j\<in>{0..<n}. ?d j - (if 0 < j then ?g (j - 1) else 0)
                          - (if j + 1 < n then ?h (j + 1) else 0))"
    by (simp add: sum_subtractf)
  also have "\<dots> \<le> (\<Sum>j\<in>{0..<n}. \<bar>b ! j * y ! j + (if 0 < j then c ! (j - 1) * y ! (j - 1) else 0)
                         + (if j + 1 < n then a ! (j + 1) * y ! (j + 1) else 0)\<bar>)"
  proof (rule sum_mono)
    fix j
    let ?l = "if 0 < j then c ! (j - 1) * y ! (j - 1) else 0"
    let ?u = "if j + 1 < n then a ! (j + 1) * y ! (j + 1) else 0"
    have l: "(if 0 < j then ?g (j - 1) else 0) = \<bar>?l\<bar>" by (simp add: abs_mult)
    have u: "(if j + 1 < n then ?h (j + 1) else 0) = \<bar>?u\<bar>" by (simp add: abs_mult)
    have d: "?d j = \<bar>b ! j * y ! j\<bar>" by (simp add: abs_mult)
    have "\<bar>b ! j * y ! j\<bar> - \<bar>?l\<bar> - \<bar>?u\<bar> \<le> \<bar>b ! j * y ! j + ?l + ?u\<bar>"
      by linarith
    then show "?d j - (if 0 < j then ?g (j - 1) else 0) - (if j + 1 < n then ?h (j + 1) else 0)
        \<le> \<bar>b ! j * y ! j + ?l + ?u\<bar>"
      by (simp only: l u d)
  qed
  finally show ?thesis .
qed


subsection \<open>Row vectors and the inverse\<close>

lemma l1_norm_sum: "l1_norm v = (\<Sum>k\<in>{0..<length v}. \<bar>v ! k\<bar>)"
proof -
  have "map abs v = map abs (map (nth v) [0..<length v])" by (simp only: map_nth)
  also have "\<dots> = map (\<lambda>k. \<bar>v ! k\<bar>) [0..<length v]" by (simp only: map_map o_def)
  finally have "l1_norm v = (\<Sum>k\<leftarrow>[0..<length v]. \<bar>v ! k\<bar>)"
    unfolding l1_norm_def by (rule arg_cong)
  then show ?thesis by (simp add: sum_list_upt_sum)
qed

lemma l1_norm_nonneg: "0 \<le> l1_norm v"
  by (simp add: l1_norm_sum sum_nonneg)

lemma l1_norm_entry:
  assumes "j < length v"
  shows "\<bar>v ! j\<bar> \<le> l1_norm v"
proof -
  have "\<bar>v ! j\<bar> = (\<Sum>k\<in>{j}. \<bar>v ! k\<bar>)" by simp
  also have "\<dots> \<le> (\<Sum>k\<in>{0..<length v}. \<bar>v ! k\<bar>)"
    using assms by (intro sum_mono2) auto
  finally show ?thesis by (simp add: l1_norm_sum)
qed

lemma l1_norm_zero:
  assumes "l1_norm v \<le> 0" "j < length v"
  shows "v ! j = 0"
  using l1_norm_entry [OF assms(2)] assms(1) by simp

lemma l1_norm_add:
  assumes "length u = length v"
  shows "l1_norm (map2 (+) u v) \<le> l1_norm u + l1_norm v"
proof -
  have "l1_norm (map2 (+) u v) = (\<Sum>k\<in>{0..<length v}. \<bar>u ! k + v ! k\<bar>)"
    using assms by (simp add: l1_norm_sum)
  also have "\<dots> \<le> (\<Sum>k\<in>{0..<length v}. \<bar>u ! k\<bar> + \<bar>v ! k\<bar>)"
    by (intro sum_mono) simp
  also have "\<dots> = l1_norm u + l1_norm v"
    using assms by (simp add: l1_norm_sum sum.distrib)
  finally show ?thesis .
qed

lemma dot_vm_sub:
  assumes "length u = length v"
  shows "dot_vm (map2 (-) u v) A = map2 (-) (dot_vm u A) (dot_vm v A)"
proof (rule nth_equalityI)
  show "length (dot_vm (map2 (-) u v) A) = length (map2 (-) (dot_vm u A) (dot_vm v A))"
    using assms by (simp add: length_dot_vm)
  fix j assume "j < length (dot_vm (map2 (-) u v) A)"
  then have j: "j < length v" using assms by (simp add: length_dot_vm)
  have "(\<Sum>k\<leftarrow>[0..<length v]. map2 (-) u v ! k * A ! k ! j)
      = (\<Sum>k\<leftarrow>[0..<length v]. u ! k * A ! k ! j - v ! k * A ! k ! j)"
    using assms by (intro arg_cong [where f = sum_list] map_cong) (simp_all add: algebra_simps)
  then show "dot_vm (map2 (-) u v) A ! j = map2 (-) (dot_vm u A) (dot_vm v A) ! j"
    using j assms by (simp add: dot_vm_nth length_dot_vm sum_list_subtractf)
qed

lemma dot_vm_scale:
  "dot_vm (map (\<lambda>x. s * x) v) A = map (\<lambda>x. s * x) (dot_vm v A)"
proof (rule nth_equalityI)
  show "length (dot_vm (map (\<lambda>x. s * x) v) A) = length (map (\<lambda>x. s * x) (dot_vm v A))"
    by (simp add: length_dot_vm)
  fix j assume "j < length (dot_vm (map (\<lambda>x. s * x) v) A)"
  then have j: "j < length v" by (simp add: length_dot_vm)
  have "(\<Sum>k\<leftarrow>[0..<length v]. map (\<lambda>x. s * x) v ! k * A ! k ! j)
      = (\<Sum>k\<leftarrow>[0..<length v]. s * (v ! k * A ! k ! j))"
    by (intro arg_cong [where f = sum_list] map_cong) simp_all
  then show "dot_vm (map (\<lambda>x. s * x) v) A ! j = map (\<lambda>x. s * x) (dot_vm v A) ! j"
    using j by (simp add: dot_vm_nth length_dot_vm sum_list_const_mult)
qed

lemma dot_vm_inverse:
  assumes B: "square n B" and inv: "mat_mul B A = identity_matrix n" and v: "length v = n"
  shows "dot_vm (dot_vm v B) A = v"
proof (rule nth_equalityI)
  show "length (dot_vm (dot_vm v B) A) = length v" by (simp add: length_dot_vm)
  fix j assume "j < length (dot_vm (dot_vm v B) A)"
  then have j: "j < n" using v by (simp add: length_dot_vm)
  have entry: "\<And>m. m < n \<Longrightarrow> (\<Sum>k\<in>{0..<n}. B ! m ! k * A ! k ! j) = (if m = j then 1 else 0)"
  proof -
    fix m assume m: "m < n"
    have "mat_mul B A ! m ! j = identity_matrix n ! m ! j" by (simp add: inv)
    then show "(\<Sum>k\<in>{0..<n}. B ! m ! k * A ! k ! j) = (if m = j then 1 else 0)"
      using m j squareD [OF B]
      by (simp add: mat_mul_def identity_matrix_def identity_row_def dot_vm_nth
          sum_list_upt_sum del: upt.simps)
  qed
  have "dot_vm (dot_vm v B) A ! j = (\<Sum>k\<in>{0..<n}. dot_vm v B ! k * A ! k ! j)"
    using j v by (simp add: dot_vm_nth length_dot_vm sum_list_upt_sum)
  also have "\<dots> = (\<Sum>k\<in>{0..<n}. (\<Sum>m\<in>{0..<n}. v ! m * B ! m ! k) * A ! k ! j)"
    using v by (intro sum.cong refl) (simp add: dot_vm_nth sum_list_upt_sum)
  also have "\<dots> = (\<Sum>k\<in>{0..<n}. \<Sum>m\<in>{0..<n}. v ! m * (B ! m ! k * A ! k ! j))"
    by (simp add: sum_distrib_right mult.assoc)
  also have "\<dots> = (\<Sum>m\<in>{0..<n}. \<Sum>k\<in>{0..<n}. v ! m * (B ! m ! k * A ! k ! j))"
    by (rule sum.swap)
  also have "\<dots> = (\<Sum>m\<in>{0..<n}. v ! m * (\<Sum>k\<in>{0..<n}. B ! m ! k * A ! k ! j))"
    by (simp add: sum_distrib_left)
  also have "\<dots> = (\<Sum>m\<in>{0..<n}. if m = j then v ! j else 0)"
    using entry by (intro sum.cong refl) simp
  also have "\<dots> = v ! j" using j by simp
  finally show "dot_vm (dot_vm v B) A ! j = v ! j" .
qed

lemma tridiagonal_contraction:
  fixes a b c y :: vec
  assumes dom: "\<And>k. k < n \<Longrightarrow> \<bar>a ! k\<bar> + \<bar>c ! k\<bar> + \<alpha> \<le> \<bar>b ! k\<bar>"
    and y: "length y = n"
  shows "\<alpha> * l1_norm y \<le> l1_norm (dot_vm y (tridiagonal_operator a b c n))"
proof -
  have "l1_norm (dot_vm y (tridiagonal_operator a b c n))
      = (\<Sum>j\<in>{0..<n}. \<bar>dot_vm y (tridiagonal_operator a b c n) ! j\<bar>)"
    using y by (simp add: l1_norm_sum length_dot_vm)
  also have "\<dots> = (\<Sum>j\<in>{0..<n}. \<bar>b ! j * y ! j + (if 0 < j then c ! (j - 1) * y ! (j - 1) else 0)
                         + (if j + 1 < n then a ! (j + 1) * y ! (j + 1) else 0)\<bar>)"
    using y by (intro sum.cong refl) (simp add: dot_vm_nth row_times_tridiagonal)
  finally show ?thesis
    using row_vector_norm_bound [where y = y and n = n and a = a and b = b and c = c and \<alpha> = \<alpha>, OF dom] y
    by (simp add: l1_norm_sum)
qed


subsection \<open>Checked candidate rows\<close>

lemma length_tri_vm:
  assumes "length a = n" "length b = n" "length c = n" "length y = n"
  shows "length (tri_vm a b c t y) = n"
  using assms by (cases "n = 0") (simp_all add: tri_vm_def)

lemma tri_vm_nth:
  assumes "length a = n" "length b = n" "length c = n" "length y = n" "j < n"
  shows "tri_vm a b c t y ! j
       = b ! j * y ! j + (if 0 < j then c ! (j - 1) * y ! (j - 1) else 0)
         + (if j + 1 < n then a ! (j + 1) * y ! (j + 1) else t)"
proof -
  have 1: "map2 (*) b y ! j = b ! j * y ! j" using assms by simp
  have 2: "(0 # butlast (map2 (*) c y)) ! j = (if 0 < j then c ! (j - 1) * y ! (j - 1) else 0)"
    using assms by (cases j) (simp_all add: nth_butlast)
  have 3: "(tl (map2 (*) a y) @ [t]) ! j = (if j + 1 < n then a ! (j + 1) * y ! (j + 1) else t)"
    using assms by (auto simp: nth_append nth_tl)
  have l1: "j < length (map2 (+) (map2 (*) b y) (0 # butlast (map2 (*) c y)))"
    using assms by simp
  have l2: "j < length (tl (map2 (*) a y) @ [t])" using assms by simp
  have "tri_vm a b c t y ! j
      = (map2 (*) b y ! j + (0 # butlast (map2 (*) c y)) ! j) + (tl (map2 (*) a y) @ [t]) ! j"
    unfolding tri_vm_def using l1 l2 assms by simp
  then show ?thesis by (simp only: 1 2 3)
qed

lemma dot_vm_tridiagonal:
  assumes "length a = n" "length b = n" "length c = n" "length y = n"
  shows "dot_vm y (tridiagonal_operator a b c n) = tri_vm a b c 0 y"
proof (rule nth_equalityI)
  show "length (dot_vm y (tridiagonal_operator a b c n)) = length (tri_vm a b c 0 y)"
    using assms by (simp add: length_dot_vm length_tri_vm)
  fix j assume "j < length (dot_vm y (tridiagonal_operator a b c n))"
  then have j: "j < n" using assms by (simp add: length_dot_vm)
  show "dot_vm y (tridiagonal_operator a b c n) ! j = tri_vm a b c 0 y ! j"
    using j assms by (simp add: dot_vm_nth row_times_tridiagonal tri_vm_nth del: upt.simps)
qed

lemma tridiagonal_scaled:
  fixes a b c a' b' c' :: vec
  assumes "\<And>k. k < n \<Longrightarrow> a' ! k = d * a ! k" "\<And>k. k < n \<Longrightarrow> b' ! k = d * b ! k"
    "\<And>k. k < n \<Longrightarrow> c' ! k = d * c ! k" "length y = n" "j < n"
  shows "dot_vm y (tridiagonal_operator a' b' c' n) ! j
           = d * dot_vm y (tridiagonal_operator a b c n) ! j"
  using assms by (simp add: dot_vm_nth row_times_tridiagonal algebra_simps del: upt.simps)

lemma check_rows_nth:
  assumes "check_rows a b c d g tol Zs Hs" "m + 1 < length Zs" "m < length Hs"
  shows "length (Zs ! (m + 1)) = length (Zs ! m)
       \<and> step_residual a b c d g (Zs ! m) (Hs ! m) (Zs ! (m + 1)) \<le> tol"
  using assms
proof (induction a b c d g tol Zs Hs arbitrary: m rule: check_rows.induct)
  case (1 a b c d g tol Znext Z rest H Hs)
  show ?case
  proof (cases m)
    case 0
    then show ?thesis using "1.prems" by simp
  next
    case (Suc m')
    then show ?thesis using "1.IH" [of m'] "1.prems" by simp
  qed
qed simp_all

lemma step_error:
  fixes a b c W V Z Znext :: vec
  assumes dom: "\<And>k. k < n \<Longrightarrow> \<bar>a ! k\<bar> + \<bar>c ! k\<bar> + d \<le> \<bar>b ! k\<bar>"
    and n: "0 < n"
    and len: "length a = n" "length b = n" "length c = n"
      "length W = n" "length V = n" "length Z = n" "length Znext = n"
    and eq: "\<And>j. j < n \<Longrightarrow> dot_vm W (tridiagonal_operator a b c n) ! j
                = d * V ! j + (if j = n - 1 then g * x else 0)"
  shows "d * l1_norm (map2 (-) W Z)
       \<le> \<bar>d\<bar> * l1_norm (map2 (-) V Znext) + \<bar>g\<bar> * \<bar>x - H\<bar> + step_residual a b c d g Znext H Z"
proof -
  let ?A = "tridiagonal_operator a b c n"
  let ?T = "tri_vm a b c 0 Z"
  let ?R = "\<lambda>j. d * Znext ! j - tri_vm a b c (- (g * H)) Z ! j"
  have border: "\<And>j. j < n \<Longrightarrow> ?T ! j
      = tri_vm a b c (- (g * H)) Z ! j + (if j = n - 1 then g * H else 0)"
    using len by (auto simp: tri_vm_nth)
  have lenT: "length ?T = n" using len by (simp add: length_tri_vm)
  have "d * l1_norm (map2 (-) W Z) \<le> l1_norm (dot_vm (map2 (-) W Z) ?A)"
    using tridiagonal_contraction [where a = a and b = b and c = c and n = n and \<alpha> = d
        and y = "map2 (-) W Z", OF dom] len by simp
  also have "dot_vm (map2 (-) W Z) ?A = map2 (-) (dot_vm W ?A) ?T"
    using dot_vm_sub [of W Z ?A] dot_vm_tridiagonal [of a n b c Z] len by simp
  also have "l1_norm (map2 (-) (dot_vm W ?A) ?T)
      = (\<Sum>j\<in>{0..<n}. \<bar>dot_vm W ?A ! j - ?T ! j\<bar>)"
    using len lenT by (simp add: l1_norm_sum length_dot_vm)
  also have "\<dots> = (\<Sum>j\<in>{0..<n}. \<bar>d * (V ! j - Znext ! j)
                        + (if j = n - 1 then g * (x - H) else 0) + ?R j\<bar>)"
    by (intro sum.cong refl) (simp add: eq border algebra_simps)
  also have "\<dots> \<le> (\<Sum>j\<in>{0..<n}. \<bar>d\<bar> * \<bar>V ! j - Znext ! j\<bar>
                        + (if j = n - 1 then \<bar>g\<bar> * \<bar>x - H\<bar> else 0) + \<bar>?R j\<bar>)"
  proof (rule sum_mono)
    fix j
    have "\<bar>d * (V ! j - Znext ! j) + (if j = n - 1 then g * (x - H) else 0) + ?R j\<bar>
        \<le> \<bar>d * (V ! j - Znext ! j)\<bar> + \<bar>if j = n - 1 then g * (x - H) else 0\<bar> + \<bar>?R j\<bar>"
      by linarith
    also have "\<dots> = \<bar>d\<bar> * \<bar>V ! j - Znext ! j\<bar> + (if j = n - 1 then \<bar>g\<bar> * \<bar>x - H\<bar> else 0) + \<bar>?R j\<bar>"
      by (simp add: abs_mult)
    finally show "\<bar>d * (V ! j - Znext ! j) + (if j = n - 1 then g * (x - H) else 0) + ?R j\<bar>
        \<le> \<bar>d\<bar> * \<bar>V ! j - Znext ! j\<bar> + (if j = n - 1 then \<bar>g\<bar> * \<bar>x - H\<bar> else 0) + \<bar>?R j\<bar>" .
  qed
  also have "\<dots> = \<bar>d\<bar> * (\<Sum>j\<in>{0..<n}. \<bar>V ! j - Znext ! j\<bar>)
                  + (\<Sum>j\<in>{0..<n}. if j = n - 1 then \<bar>g\<bar> * \<bar>x - H\<bar> else 0)
                  + (\<Sum>j\<in>{0..<n}. \<bar>?R j\<bar>)"
    by (simp add: sum.distrib sum_distrib_left)
  also have "(\<Sum>j\<in>{0..<n}. if j = n - 1 then \<bar>g\<bar> * \<bar>x - H\<bar> else 0) = \<bar>g\<bar> * \<bar>x - H\<bar>"
    using n by simp
  also have "(\<Sum>j\<in>{0..<n}. \<bar>V ! j - Znext ! j\<bar>) = l1_norm (map2 (-) V Znext)"
    using len by (simp add: l1_norm_sum)
  also have "(\<Sum>j\<in>{0..<n}. \<bar>?R j\<bar>) = step_residual a b c d g Znext H Z"
  proof -
    let ?r = "map2 (-) (map (\<lambda>x. d * x) Znext) (tri_vm a b c (- (g * H)) Z)"
    have "length ?r = n" using len by (simp add: length_tri_vm)
    then have "l1_norm ?r = (\<Sum>j\<in>{0..<n}. \<bar>?r ! j\<bar>)" by (simp only: l1_norm_sum)
    also have "\<dots> = (\<Sum>j\<in>{0..<n}. \<bar>?R j\<bar>)"
      using len by (intro sum.cong refl) (simp add: length_tri_vm)
    finally show ?thesis unfolding step_residual_def by simp
  qed
  finally show ?thesis .
qed

lemma european_row_equation:
  assumes B: "square M B"
    and inv: "mat_mul B (tridiagonal_operator a b c M) = identity_matrix M"
    and M: "0 < M" and a0: "a ! 0 = 0"
    and FV: "length FV = N + 1" "\<And>i. i \<le> N \<Longrightarrow> length (FV ! i) = M + 1"
    and i: "i < N" and j: "j < M"
  shows "dot_vm (take M (backward_iteration FV B a c N M dS K ic False ! i))
           (tridiagonal_operator a b c M) ! j
       = backward_iteration FV B a c N M dS K ic False ! (i + 1) ! j
         + (if j = M - 1 then - (c ! (M - 1)) * FV ! (i + 1) ! M else 0)"
proof -
  let ?G = "backward_iteration FV B a c N M dS K ic False"
  let ?nxt = "?G ! (i + 1)"
  let ?v = "map2 (+) (take M ?nxt) (implicit_k ?nxt a c M)"
  have len: "length ?nxt = M + 1"
    using backward_iteration_row_length [OF FV, of "i + 1"] i by simp
  have last: "?nxt ! M = FV ! (i + 1) ! M"
    using backward_iteration_european_last_column [OF FV, of "i + 1"] i by simp
  have "?G ! i = implicit_row B a c M dS K ic False ?nxt (FV ! i)"
    using backward_iteration_rows(3) [OF FV(1) i] .
  then have "take M (?G ! i) = dot_vm ?v B"
    using implicit_row_european_take [OF len] by simp
  moreover have "length ?v = M" using len by (simp add: length_implicit_k)
  ultimately have "dot_vm (take M (?G ! i)) (tridiagonal_operator a b c M) = ?v"
    using dot_vm_inverse [OF B inv] by simp
  then show ?thesis
    using j len M a0 last by (simp add: length_implicit_k implicit_k_nth)
qed

lemma grid_error:
  fixes a b c a' b' c' :: vec
  assumes dom: "\<And>k. k < M \<Longrightarrow> \<bar>a' ! k\<bar> + \<bar>c' ! k\<bar> + d \<le> \<bar>b' ! k\<bar>"
    and scaled: "\<And>k. k < M \<Longrightarrow> a' ! k = d * a ! k" "\<And>k. k < M \<Longrightarrow> b' ! k = d * b ! k"
      "\<And>k. k < M \<Longrightarrow> c' ! k = d * c ! k"
    and len: "length a' = M" "length b' = M" "length c' = M"
    and d: "0 < d" and S: "0 \<le> S"
    and B: "square M B"
    and inv: "mat_mul B (tridiagonal_operator a b c M) = identity_matrix M"
    and M: "0 < M" and a0: "a ! 0 = 0"
    and FV: "length FV = N + 1" "\<And>i. i \<le> N \<Longrightarrow> length (FV ! i) = M + 1"
    and Zs: "length Zs = N + 1" "length Hs = N"
    and checked: "check_rows a' b' c' d (- (c' ! (M - 1))) tol Zs Hs"
    and base: "map (\<lambda>x. S * x) (take M (FV ! N)) = Zs ! 0"
    and boundary: "\<And>m. m < N \<Longrightarrow> \<bar>S * FV ! (N - m) ! M - Hs ! m\<bar> \<le> \<eta>"
    and m: "m \<le> N"
  shows "length (Zs ! m) = M
       \<and> d * l1_norm (map2 (-) (map (\<lambda>x. S * x)
               (take M (backward_iteration FV B a c N M dS K ic False ! (N - m)))) (Zs ! m))
         \<le> real m * (\<bar>c' ! (M - 1)\<bar> * \<eta> + tol)"
  using m
proof (induction m)
  case 0
  let ?G = "backward_iteration FV B a c N M dS K ic False"
  have "?G ! N = FV ! N" using backward_iteration_rows(2) [OF FV(1)] .
  moreover have "length (Zs ! 0) = M" using base [symmetric] FV(2) [of N] by simp
  moreover have "l1_norm (map2 (-) (Zs ! 0) (Zs ! 0)) = 0"
    by (simp add: l1_norm_sum)
  ultimately show ?case using base by simp
next
  case (Suc m)
  let ?G = "backward_iteration FV B a c N M dS K ic False"
  let ?g = "- (c' ! (M - 1))"
  let ?i = "N - Suc m"
  let ?W = "map (\<lambda>x. S * x) (take M (?G ! ?i))"
  let ?V = "map (\<lambda>x. S * x) (take M (?G ! (N - m)))"
  let ?A = "tridiagonal_operator a b c M"
  let ?A' = "tridiagonal_operator a' b' c' M"
  from Suc.prems have m: "m < N" by simp
  then have i: "?i < N" "?i + 1 = N - m" by simp_all
  from Suc.IH m have lenZ: "length (Zs ! m) = M"
    and IH: "d * l1_norm (map2 (-) ?V (Zs ! m)) \<le> real m * (\<bar>c' ! (M - 1)\<bar> * \<eta> + tol)"
    by simp_all
  from check_rows_nth [OF checked, of m] m Zs
  have lenZ': "length (Zs ! (m + 1)) = M"
    and res: "step_residual a' b' c' d ?g (Zs ! m) (Hs ! m) (Zs ! (m + 1)) \<le> tol"
    using lenZ by simp_all
  have lenG: "\<And>i. i \<le> N \<Longrightarrow> length (?G ! i) = M + 1"
    using backward_iteration_row_length [OF FV] by simp
  have lenW: "length ?W = M" and lenV: "length ?V = M"
    using lenG [of ?i] lenG [of "N - m"] by simp_all
  have eq: "\<And>j. j < M \<Longrightarrow> dot_vm ?W ?A' ! j
      = d * ?V ! j + (if j = M - 1 then ?g * (S * FV ! (N - m) ! M) else 0)"
  proof -
    fix j assume j: "j < M"
    have lenT: "length (take M (?G ! ?i)) = M" using lenG [of ?i] by simp
    have "dot_vm ?W ?A' ! j = S * dot_vm (take M (?G ! ?i)) ?A' ! j"
      using j lenT by (simp add: dot_vm_scale length_dot_vm)
    also have "\<dots> = S * (d * dot_vm (take M (?G ! ?i)) ?A ! j)"
      using tridiagonal_scaled [where a' = a' and b' = b' and c' = c' and a = a and b = b
          and c = c and d = d and n = M, OF scaled lenT j] by simp
    also have "dot_vm (take M (?G ! ?i)) ?A ! j
        = ?G ! (N - m) ! j + (if j = M - 1 then - (c ! (M - 1)) * FV ! (N - m) ! M else 0)"
      using european_row_equation [OF B inv M a0 FV i(1) j, of dS K ic] i(2) by simp
    finally show "dot_vm ?W ?A' ! j
        = d * ?V ! j + (if j = M - 1 then ?g * (S * FV ! (N - m) ! M) else 0)"
      using j lenG [of "N - m"] scaled(3) [of "M - 1"] M by (simp add: algebra_simps)
  qed
  have "d * l1_norm (map2 (-) ?W (Zs ! (m + 1)))
      \<le> \<bar>d\<bar> * l1_norm (map2 (-) ?V (Zs ! m)) + \<bar>?g\<bar> * \<bar>S * FV ! (N - m) ! M - Hs ! m\<bar>
        + step_residual a' b' c' d ?g (Zs ! m) (Hs ! m) (Zs ! (m + 1))"
    by (rule step_error [OF dom M len lenW lenV lenZ' lenZ eq])
  also have "\<dots> \<le> real m * (\<bar>c' ! (M - 1)\<bar> * \<eta> + tol) + \<bar>c' ! (M - 1)\<bar> * \<eta> + tol"
  proof -
    have "\<bar>?g\<bar> * \<bar>S * FV ! (N - m) ! M - Hs ! m\<bar> \<le> \<bar>c' ! (M - 1)\<bar> * \<eta>"
      using boundary [OF m] by (simp add: mult_left_mono)
    then show ?thesis using IH res d by simp
  qed
  also have "\<dots> = real (Suc m) * (\<bar>c' ! (M - 1)\<bar> * \<eta> + tol)"
    by (simp add: algebra_simps)
  finally show ?case using lenZ' by simp
qed


subsection \<open>The norm of the inverse\<close>

lemma fold_max_upper:
  fixes x u :: real
  assumes "x \<le> u" "\<And>y. y \<in> set xs \<Longrightarrow> y \<le> u"
  shows "fold max xs x \<le> u"
  using assms by (induction xs arbitrary: x) simp_all

lemma fold_max_start:
  fixes x :: real
  shows "x \<le> fold max xs x"
proof (induction xs arbitrary: x)
  case Nil
  show ?case by simp
next
  case (Cons y ys)
  have "x \<le> max y x" by simp
  also have "\<dots> \<le> fold max ys (max y x)" by (rule Cons.IH)
  finally show ?case by simp
qed

lemma norm_inf_upper:
  assumes "B \<noteq> []" "\<And>row. row \<in> set B \<Longrightarrow> l1_norm row \<le> u"
  shows "norm_inf B \<le> u"
proof -
  obtain r rs where B: "B = r # rs" using assms(1) by (cases B) auto
  show ?thesis
    unfolding norm_inf_def Let_def B using assms(2) [unfolded B]
    by (intro fold_max_upper) (auto simp: l1_norm_def)
qed

lemma norm_inf_first_row:
  assumes "B \<noteq> []"
  shows "l1_norm (B ! 0) \<le> norm_inf B"
proof -
  obtain r rs where B: "B = r # rs" using assms(1) by (cases B) auto
  show ?thesis
    unfolding norm_inf_def Let_def B using fold_max_start [of "l1_norm r"]
    by (simp add: l1_norm_def)
qed

lemma l1_norm_identity_row:
  assumes "m < n"
  shows "l1_norm (identity_row n m) = 1"
proof -
  have "l1_norm (identity_row n m) = (\<Sum>j\<in>{0..<n}. \<bar>identity_row n m ! j\<bar>)"
    by (simp add: l1_norm_sum identity_row_def)
  also have "\<dots> = (\<Sum>j\<in>{0..<n}. if m = j then 1 else 0)"
    by (intro sum.cong refl) (simp add: identity_row_def)
  also have "\<dots> = 1" using assms by simp
  finally show ?thesis .
qed

lemma inverse_row:
  assumes "square n B" "mat_mul B A = identity_matrix n" "m < n"
  shows "length (B ! m) = n" and "dot_vm (B ! m) A = identity_row n m"
proof -
  show "length (B ! m) = n" using squareD [OF assms(1)] assms(3) by simp
  have "mat_mul B A ! m = identity_matrix n ! m" by (simp add: assms(2))
  then show "dot_vm (B ! m) A = identity_row n m"
    using squareD(1) [OF assms(1)] assms(3)
    by (simp add: mat_mul_def identity_matrix_def del: upt.simps)
qed

lemma dominant_inverse_norm_upper:
  fixes a b c :: vec
  assumes dom: "\<And>k. k < n \<Longrightarrow> \<bar>a ! k\<bar> + \<bar>c ! k\<bar> + 1 \<le> \<bar>b ! k\<bar>"
    and B: "square n B" and inv: "mat_mul B (tridiagonal_operator a b c n) = identity_matrix n"
    and n: "0 < n"
  shows "norm_inf B \<le> 1"
proof (rule norm_inf_upper)
  show "B \<noteq> []" using squareD(1) [OF B] n by auto
  fix row assume "row \<in> set B"
  then obtain m where m: "m < n" and row: "row = B ! m"
    using squareD(1) [OF B] by (auto simp: in_set_conv_nth)
  have "1 * l1_norm row \<le> l1_norm (dot_vm row (tridiagonal_operator a b c n))"
    using inverse_row(1) [OF B inv m] unfolding row
    by (intro tridiagonal_contraction dom)
  then show "l1_norm row \<le> 1"
    using inverse_row(2) [OF B inv m] l1_norm_identity_row [OF m] by (simp add: row)
qed

lemma dominant_inverse_first_entry:
  fixes a b c :: vec
  assumes dom: "\<And>k. k < n \<Longrightarrow> \<bar>a ! k\<bar> + \<bar>c ! k\<bar> + 1 \<le> \<bar>b ! k\<bar>"
    and B: "square n B" and inv: "mat_mul B (tridiagonal_operator a b c n) = identity_matrix n"
    and n: "0 < n" and c0: "c ! 0 = 0"
  shows "B ! 0 ! 0 = 1 / b ! 0"
proof -
  let ?A = "tridiagonal_operator a b c n"
  define y where "y = map (\<lambda>x. (1 / b ! 0) * x) (identity_row n 0)"
  have b0: "b ! 0 \<noteq> 0" using dom [OF n] by auto
  have leny: "length y = n" by (simp add: y_def identity_row_def)
  have ynth: "\<And>j. j < n \<Longrightarrow> y ! j = (if j = 0 then 1 / b ! 0 else 0)"
    by (auto simp: y_def identity_row_def)
  have "dot_vm y ?A = identity_row n 0"
  proof (rule nth_equalityI)
    show "length (dot_vm y ?A) = length (identity_row n 0)"
      by (simp add: length_dot_vm identity_row_def leny)
    fix j assume "j < length (dot_vm y ?A)"
    then have j: "j < n" by (simp add: length_dot_vm leny)
    have "dot_vm y ?A ! j
        = b ! j * y ! j + (if 0 < j then c ! (j - 1) * y ! (j - 1) else 0)
          + (if j + 1 < n then a ! (j + 1) * y ! (j + 1) else 0)"
      using j leny row_times_tridiagonal [OF j, of y a b c]
      by (simp add: dot_vm_nth del: upt.simps)
    also have "\<dots> = (if j = 0 then 1 else 0)"
      using j b0 c0 by (cases "j = 0"; cases "j = 1") (simp_all add: ynth)
    finally show "dot_vm y ?A ! j = identity_row n 0 ! j"
      using j by (simp add: identity_row_def)
  qed
  then have "dot_vm (map2 (-) (B ! 0) y) ?A = map2 (-) (identity_row n 0) (identity_row n 0)"
    using inverse_row [OF B inv n] leny by (simp add: dot_vm_sub)
  moreover have "l1_norm (map2 (-) (identity_row n 0) (identity_row n 0)) = 0"
    by (simp add: l1_norm_sum)
  moreover have "1 * l1_norm (map2 (-) (B ! 0) y) \<le> l1_norm (dot_vm (map2 (-) (B ! 0) y) ?A)"
    using inverse_row(1) [OF B inv n] leny by (intro tridiagonal_contraction dom) simp_all
  ultimately have "l1_norm (map2 (-) (B ! 0) y) \<le> 0" by simp
  from l1_norm_zero [OF this, of 0] have "B ! 0 ! 0 - y ! 0 = 0"
    using inverse_row(1) [OF B inv n] leny n by simp
  then show ?thesis using ynth [OF n] by simp
qed

lemma dominant_inverse_norm_lower:
  fixes a b c :: vec
  assumes dom: "\<And>k. k < n \<Longrightarrow> \<bar>a ! k\<bar> + \<bar>c ! k\<bar> + 1 \<le> \<bar>b ! k\<bar>"
    and B: "square n B" and inv: "mat_mul B (tridiagonal_operator a b c n) = identity_matrix n"
    and n: "0 < n" and c0: "c ! 0 = 0"
  shows "1 / \<bar>b ! 0\<bar> \<le> norm_inf B"
proof -
  have ne: "B \<noteq> []" using squareD(1) [OF B] n by auto
  have "1 / \<bar>b ! 0\<bar> = \<bar>B ! 0 ! 0\<bar>"
    using dominant_inverse_first_entry [OF dom B inv n c0] by simp
  also have "\<dots> \<le> l1_norm (B ! 0)"
    using inverse_row(1) [OF B inv n] n by (intro l1_norm_entry) simp
  also have "\<dots> \<le> norm_inf B" by (rule norm_inf_first_row [OF ne])
  finally show ?thesis .
qed


subsection \<open>Enclosures of the exponential\<close>

lemma exp_neg_enclosure:
  fixes x :: real
  assumes "0 \<le> x" "x \<le> 1"
  shows "1 - x + x\<^sup>2 / 2 - x ^ 3 / 6 \<le> exp (- x)"
    and "exp (- x) \<le> 1 - x + x\<^sup>2 / 2 - x ^ 3 / 6 + x ^ 4 / 8"
proof -
  obtain t where t: "\<bar>t\<bar> \<le> \<bar>- x\<bar>"
    and eq: "exp (- x) = (\<Sum>m<4. (- x) ^ m / fact m) + exp t / fact 4 * (- x) ^ 4"
    using Maclaurin_exp_le [of "- x" 4] by blast
  have sum: "(\<Sum>m<4. (- x) ^ m / fact m) = 1 - x + x\<^sup>2 / 2 - x ^ 3 / 6"
    by (simp add: lessThan_nat_numeral fact_numeral power2_eq_square power3_eq_cube)
  have rem: "exp t / fact 4 * (- x) ^ 4 = exp t * x ^ 4 / 24"
    by (simp add: fact_numeral)
  have "exp t \<le> exp 1" using t assms by simp
  also have "\<dots> \<le> 3" by (rule exp_le)
  finally have "exp t \<le> 3" .
  then have "exp t * x ^ 4 \<le> 3 * x ^ 4" by (intro mult_right_mono) simp_all
  moreover have "0 \<le> exp t * x ^ 4" by simp
  ultimately show "1 - x + x\<^sup>2 / 2 - x ^ 3 / 6 \<le> exp (- x)"
    and "exp (- x) \<le> 1 - x + x\<^sup>2 / 2 - x ^ 3 / 6 + x ^ 4 / 8"
    unfolding eq sum rem by simp_all
qed

lemma check_boundary_sound:
  fixes q :: real
  assumes den: "0 < den" and lo: "0 \<le> lo" "lo \<le> den * q" and hi: "den * q \<le> hi"
    and q: "0 \<le> q" and P: "0 \<le> P" and \<rho>: "0 < \<rho>"
    and start: "l \<le> P * q ^ k" "P * q ^ k \<le> u"
    and checked: "check_boundary lo hi den \<rho> \<eta> l u es"
    and m: "m < length es"
  shows "\<bar>P / \<rho> * q ^ (k + m + 1) - fst (es ! m)\<bar> \<le> \<eta>"
  using start checked m
proof (induction es arbitrary: l u k m)
  case Nil
  then show ?case by simp
next
  case (Cons e es)
  obtain H l' u' where e: "e = (H, l', u')" by (cases e)
  from Cons.prems(3) have step: "l' * den \<le> l * lo" "u * hi \<le> u' * den"
    and near: "\<rho> * (H - \<eta>) \<le> l'" "u' \<le> \<rho> * (H + \<eta>)"
    and rest: "check_boundary lo hi den \<rho> \<eta> l' u' es"
    by (simp_all add: e)
  have pk: "0 \<le> P * q ^ k" using P q by simp
  have "l' * den \<le> l * lo" by (rule step(1))
  also have "\<dots> \<le> (P * q ^ k) * lo" using Cons.prems(1) lo(1) by (rule mult_right_mono)
  also have "\<dots> \<le> (P * q ^ k) * (den * q)" using lo(2) pk by (rule mult_left_mono)
  finally have "l' * den \<le> (P * q ^ Suc k) * den" by (simp add: mult_ac)
  then have low: "l' \<le> P * q ^ Suc k" using den by simp
  have "(P * q ^ Suc k) * den = (P * q ^ k) * (den * q)" by (simp add: mult_ac)
  also have "\<dots> \<le> (P * q ^ k) * hi" using hi pk by (rule mult_left_mono)
  also have "\<dots> \<le> u * hi"
  proof (rule mult_right_mono [OF Cons.prems(2)])
    have "0 \<le> den * q" using den q by simp
    then show "0 \<le> hi" using hi by simp
  qed
  also have "\<dots> \<le> u' * den" by (rule step(2))
  finally have high: "P * q ^ Suc k \<le> u'" using den by simp
  show ?case
  proof (cases m)
    case 0
    have "\<rho> * (H - \<eta>) \<le> P * q ^ Suc k" "P * q ^ Suc k \<le> \<rho> * (H + \<eta>)"
      using near low high by simp_all
    then have "H - \<eta> \<le> P * q ^ Suc k / \<rho>" "P * q ^ Suc k / \<rho> \<le> H + \<eta>"
      using \<rho> by (simp_all add: field_simps)
    then show ?thesis using 0 by (simp add: e abs_le_iff)
  next
    case (Suc m')
    from Cons.IH [OF low high rest, of m'] Cons.prems(4) Suc
    show ?thesis by simp
  qed
qed


subsection \<open>The sample run\<close>

lemma dominantD:
  assumes "dominant d a b c" "length a = n" "length b = n" "length c = n" "k < n"
  shows "\<bar>a ! k\<bar> + \<bar>c ! k\<bar> + d \<le> \<bar>b ! k\<bar>"
  using assms by (simp add: dominant_def list_all_length)

lemma sample_coefficients_eval:
  "sample_a =
     [0, 3, - 4, - 21, - 48, - 85, - 132, - 189, - 256, - 333, - 420, - 517, - 624, - 741, -
      868, - 1005, - 1152, - 1309, - 1476, - 1653, - 1840, - 2037, - 2244, - 2461, - 2688, -
      2925, - 3172, - 3429, - 3696, - 3973, - 4260, - 4557, - 4864, - 5181, - 5508, - 5845, -
      6192, - 6549, - 6916, - 7293]"
  "sample_b =
     [16016, 16026, 16056, 16106, 16176, 16266, 16376, 16506, 16656, 16826, 17016, 17226, 17456,
      17706, 17976, 18266, 18576, 18906, 19256, 19626, 20016, 20426, 20856, 21306, 21776, 22266,
      22776, 23306, 23856, 24426, 25016, 25626, 26256, 26906, 27576, 28266, 28976, 29706, 30456,
      31226]"
  "sample_c =
     [0, - 13, - 36, - 69, - 112, - 165, - 228, - 301, - 384, - 477, - 580, - 693, - 816, - 949,
      - 1092, - 1245, - 1408, - 1581, - 1764, - 1957, - 2160, - 2373, - 2596, - 2829, - 3072, -
      3325, - 3588, - 3861, - 4144, - 4437, - 4740, - 5053, - 5376, - 5709, - 6052, - 6405, -
      6768, - 7141, - 7524, - 7917]"
  by (simp_all add: sample_a_def sample_b_def sample_c_def upt_rec)

lemma sample_lengths:
  "length sample_a = 40" "length sample_b = 40" "length sample_c = 40"
  "length sample_rows = 101" "length sample_boundary = 99" "length sample_heights = 100"
  by (simp_all add: sample_a_def sample_b_def sample_c_def sample_rows_def
      sample_boundary_def sample_heights_def del: upt.simps)

lemma sample_dominant: "dominant 16000 sample_a sample_b sample_c"
  by (simp add: dominant_def sample_coefficients_eval)

lemma sample_ends: "sample_a ! 0 = 0" "sample_b ! 0 = 16016" "sample_c ! 0 = 0"
  "sample_c ! 39 = - 7917"
  by (simp_all add: sample_a_def sample_b_def sample_c_def del: upt.simps)

lemma sample_heights_eval: "sample_heights = [500000000, 999000500, 998001999, 997004496, 996007989, 995012479, 994017964, 993024443, 992031915, 991040379, 990049834, 989060279, 988071713, 987084135, 986097544, 985111940, 984127320, 983143685, 982161032, 981179362, 980198673, 979218965, 978240235, 977262484, 976285710, 975309912, 974335090, 973361242, 972388367, 971416464, 970445534, 969475573, 968506582, 967538560, 966571505, 965605416, 964640293, 963676135, 962712941, 961750709, 960789439, 959829130, 958869781, 957911390, 956953957, 955997482, 955041962, 954087398, 953133787, 952181130, 951229425, 950278671, 949328867, 948380012, 947432107, 946485148, 945539136, 944594069, 943649947, 942706769, 941764534, 940823240, 939882887, 938943474, 938005000, 937067463, 936130864, 935195201, 934260474, 933326680, 932393820, 931461892, 930530896, 929600830, 928671694, 927743486, 926816207, 925889854, 924964427, 924039924, 923116346, 922193691, 921271959, 920351147, 919431256, 918512284, 917594231, 916677096, 915760877, 914845574, 913931185, 913017711, 912105150, 911193500, 910282762, 909372934, 908464016, 907556006, 906648904, 905742708]"
  by (simp add: sample_heights_def sample_boundary_def)

lemma sample_boundary_checked:
  "check_boundary 23976011996000 23976011996003 24000000000000 1000 1
     1000000000000 1000000000000 sample_boundary"
  by (simp add: sample_boundary_def)

lemma create_tridiagonal_matrix_dominant:
  fixes a b c :: vec
  assumes dom: "\<And>k. k < M \<Longrightarrow> \<bar>a ! k\<bar> + \<bar>c ! k\<bar> < \<bar>b ! k\<bar>"
    and M: "0 < M" "length a = M" "length b = M" "length c = M"
  shows "\<exists>B. create_tridiagonal_matrix a b c = Inr (B, norm_inf B)"
proof -
  obtain B where "la_inv (tridiagonal_operator a b c M) = Inr B"
    using la_inv_succeeds [OF square_tridiagonal_operator dominant_tridiagonal_injective, of M a c b]
      dom by blast
  moreover have "b \<noteq> []" using M by auto
  ultimately show ?thesis
    using tridiagonal_eq [OF M] by (simp add: create_tridiagonal_matrix_def)
qed

lemma exp_step_enclosure:
  "23976011996000 \<le> 24000000000000 * exp (- (1 / 1000) :: real)"
  "24000000000000 * exp (- (1 / 1000) :: real) \<le> 23976011996003"
  using exp_neg_enclosure [of "1 / 1000"] by (simp_all add: power2_eq_square power3_eq_cube power4_eq_xxxx)

lemma sample_boundary_values:
  assumes "m < 100"
  shows "\<bar>10000000 * initial_grid 100 40 (5 / 2) 50 (1 / 10) (1 / 100) True ! (100 - m) ! 40
          - sample_heights ! m\<bar> \<le> 1"
proof (cases m)
  case 0
  have "initial_grid 100 40 (5 / 2) 50 (1 / 10) (1 / 100) True ! 100 ! 40 = 50"
    by (simp add: initial_grid_last intrinsic_def del: upt.simps)
  then show ?thesis using 0 by (simp add: sample_heights_def)
next
  case (Suc m')
  let ?q = "exp (- (1 / 1000) :: real)"
  have m': "m' < length sample_boundary" using assms Suc by (simp add: sample_lengths)
  have row: "initial_grid 100 40 (5 / 2) 50 (1 / 10) (1 / 100) True ! (100 - m) ! 40
      = 100 * exp (- (1 / 10) * (real 100 - real (100 - m)) * (1 / 100))"
    using assms Suc by (simp add: initial_grid_row boundary_row_def del: replicate.simps)
  have "- (1 / 10) * (real 100 - real (100 - m)) * (1 / 100) = real m * (- (1 / 1000))"
    using assms by (simp add: of_nat_diff)
  then have "exp (- (1 / 10) * (real 100 - real (100 - m)) * (1 / 100)) = ?q ^ m"
    by (simp only: exp_of_nat_mult)
  then have scaled: "10000000 * initial_grid 100 40 (5 / 2) 50 (1 / 10) (1 / 100) True ! (100 - m) ! 40
      = 1000000000000 / 1000 * ?q ^ (0 + m' + 1)"
    using row Suc by simp
  have "\<bar>1000000000000 / 1000 * ?q ^ (0 + m' + 1) - fst (sample_boundary ! m')\<bar> \<le> 1"
    by (rule check_boundary_sound [OF _ _ exp_step_enclosure _ _ _ _ _ sample_boundary_checked m'])
      simp_all
  moreover have "sample_heights ! m = fst (sample_boundary ! m')"
    using Suc m' by (simp add: sample_heights_def)
  ultimately show ?thesis by (simp only: scaled)
qed

lemma sample_rows_checked:
  "check_rows sample_a sample_b sample_c 16000 7917 300000 sample_rows sample_heights"
  unfolding sample_heights_eval sample_rows_def sample_coefficients_eval
  by (simp only: check_rows.simps step_residual_def l1_norm_def tri_vm_def list.size
      list.map zip_Cons_Cons zip_Nil zip.simps(1) case_prod_conv butlast.simps list.sel append.simps sum_list.Nil sum_list.Cons if_True if_False list.distinct simp_thms
      arith_simps more_arith_simps rel_simps)

lemma sample_scaled:
  assumes abc: "compute_transition_probabilities 40 (1 / 100) (1 / 10) 0 (1 / 4) = (a, b, c)"
    and k: "k < 40"
  shows "sample_a ! k = 16000 * a ! k" "sample_b ! k = 16000 * b ! k"
    "sample_c ! k = 16000 * c ! k"
proof -
  have "k < nat 40" using k by simp
  note nth = implicit_coefficients_nth [OF this, of "1 / 100" "1 / 10" 0 "1 / 4",
      unfolded abc fst_conv snd_conv]
  show "sample_a ! k = 16000 * a ! k" "sample_b ! k = 16000 * b ! k"
    "sample_c ! k = 16000 * c ! k"
    using k
    by (simp_all add: nth sample_a_def sample_b_def sample_c_def power2_eq_square
        algebra_simps del: upt.simps)
qed

lemma sample_dominance:
  assumes abc: "compute_transition_probabilities 40 (1 / 100) (1 / 10) 0 (1 / 4) = (a, b, c)"
    and k: "k < 40"
  shows "\<bar>a ! k\<bar> + \<bar>c ! k\<bar> + 1 \<le> \<bar>b ! k\<bar>"
  using dominantD [OF sample_dominant sample_lengths(1-3) k] sample_scaled [OF abc k]
  by (simp add: abs_mult)

lemma sample_rows_ends:
  "map (\<lambda>x. 10000000 * x) (take 40 (initial_grid 100 40 (5 / 2) 50 (1 / 10) (1 / 100) True ! 100))
     = sample_rows ! 0"
  "sample_rows ! 100 ! 20 = 51792485"
  by (simp_all add: sample_rows_def initial_grid_last intrinsic_def take_map upt_rec)

lemma near_value:
  fixes x :: real
  assumes "\<bar>10000000 * x - 51792485\<bar> \<le> 100 * 307917 / 16000"
  shows "\<bar>x - 5.179\<bar> \<le> 0.01"
proof -
  have "\<bar>x - 5179 / 1000\<bar> \<le> 1 / 100" using assms by linarith
  then show ?thesis by simp
qed

lemma sample_grid_value:
  assumes abc: "compute_transition_probabilities 40 (1 / 100) (1 / 10) 0 (1 / 4) = (a, b, c)"
    and B: "square 40 B"
    and inv: "mat_mul B (tridiagonal_operator a b c 40) = identity_matrix 40"
  shows "\<bar>backward_iteration (initial_grid 100 40 (5 / 2) 50 (1 / 10) (1 / 100) True)
            B a c 100 40 (5 / 2) 50 True False ! 0 ! 20 - 5.179\<bar> \<le> 0.01"
proof -
  let ?FV = "initial_grid 100 40 (5 / 2) 50 (1 / 10) (1 / 100) True"
  let ?G = "backward_iteration ?FV B a c 100 40 (5 / 2) 50 True False"
  let ?W = "map (\<lambda>x. 10000000 * x) (take 40 (?G ! (100 - 100)))"
  have FV: "length ?FV = 100 + 1" "\<And>i. i \<le> 100 \<Longrightarrow> length (?FV ! i) = 40 + 1"
    by (simp_all add: length_initial_grid length_initial_grid_row)
  have checked: "check_rows sample_a sample_b sample_c 16000 (- (sample_c ! (40 - 1))) 300000
      sample_rows sample_heights"
    using sample_rows_checked by (simp add: sample_ends)
  have a0: "a ! 0 = 0" using sample_scaled(1) [OF abc, of 0] by (simp add: sample_ends)
  have err: "length (sample_rows ! 100) = 40
      \<and> 16000 * l1_norm (map2 (-) ?W (sample_rows ! 100))
        \<le> real 100 * (\<bar>sample_c ! (40 - 1)\<bar> * 1 + 300000)"
  proof (rule grid_error [where a' = sample_a and b' = sample_b and c' = sample_c
        and a = a and b = b and c = c and d = 16000 and S = 10000000 and M = 40 and N = 100
        and B = B and FV = ?FV and Zs = sample_rows and Hs = sample_heights and tol = 300000
        and \<eta> = 1 and m = 100])
    show "\<And>k. k < 40 \<Longrightarrow> \<bar>sample_a ! k\<bar> + \<bar>sample_c ! k\<bar> + 16000 \<le> \<bar>sample_b ! k\<bar>"
      by (rule dominantD [OF sample_dominant sample_lengths(1-3)])
    show "\<And>k. k < 40 \<Longrightarrow> sample_a ! k = 16000 * a ! k"
      "\<And>k. k < 40 \<Longrightarrow> sample_b ! k = 16000 * b ! k"
      "\<And>k. k < 40 \<Longrightarrow> sample_c ! k = 16000 * c ! k"
      by (rule sample_scaled [OF abc]; assumption)+
    show "length sample_a = 40" "length sample_b = 40" "length sample_c = 40"
      by (rule sample_lengths)+
    show "(0::real) < 16000" "(0::real) \<le> 10000000" "(0::nat) < 40" by simp_all
    show "square 40 B" by (rule B)
    show "mat_mul B (tridiagonal_operator a b c 40) = identity_matrix 40" by (rule inv)
    show "a ! 0 = 0" by (rule a0)
    show "length ?FV = 100 + 1" by (rule FV(1))
    show "\<And>i. i \<le> 100 \<Longrightarrow> length (?FV ! i) = 40 + 1" by (rule FV(2))
    show "length sample_rows = 100 + 1" "length sample_heights = 100"
      by (simp_all add: sample_lengths)
    show "check_rows sample_a sample_b sample_c 16000 (- (sample_c ! (40 - 1))) 300000
        sample_rows sample_heights"
      by (rule checked)
    show "map (\<lambda>x. 10000000 * x) (take 40 (?FV ! 100)) = sample_rows ! 0"
      by (rule sample_rows_ends(1))
    show "\<And>m. m < 100 \<Longrightarrow> \<bar>10000000 * ?FV ! (100 - m) ! 40 - sample_heights ! m\<bar> \<le> 1"
      by (rule sample_boundary_values)
    show "(100::nat) \<le> 100" by simp
  qed
  have lenG: "length (?G ! 0) = 40 + 1"
    using backward_iteration_row_length [OF FV, of 0 B a c "5 / 2" 50 True False] by simp
  let ?e = "map2 (-) ?W (sample_rows ! 100)"
  have "20 < length ?e" using err lenG by simp
  then have "\<bar>?e ! 20\<bar> \<le> l1_norm ?e" by (rule l1_norm_entry)
  moreover have "?e ! 20 = 10000000 * ?G ! 0 ! 20 - 51792485"
    using err lenG by (simp add: sample_rows_ends(2))
  moreover have "16000 * l1_norm ?e \<le> 100 * 307917"
    using err by (simp add: sample_ends)
  ultimately have "\<bar>10000000 * ?G ! 0 ! 20 - 51792485\<bar> \<le> 100 * 307917 / 16000" by simp
  then show ?thesis by (rule near_value)
qed

lemma sample_norm:
  assumes abc: "compute_transition_probabilities 40 (1 / 100) (1 / 10) 0 (1 / 4) = (a, b, c)"
    and B: "square 40 B"
    and inv: "mat_mul B (tridiagonal_operator a b c 40) = identity_matrix 40"
  shows "\<bar>norm_inf B - 0.999\<bar> \<le> 0.01"
proof -
  have dom: "\<And>k. k < 40 \<Longrightarrow> \<bar>a ! k\<bar> + \<bar>c ! k\<bar> + 1 \<le> \<bar>b ! k\<bar>"
    by (rule sample_dominance [OF abc])
  have b0: "b ! 0 = 16016 / 16000" and c0: "c ! 0 = 0"
    using sample_scaled(2,3) [OF abc, of 0] by (simp_all add: sample_ends)
  have "norm_inf B \<le> 1"
    by (rule dominant_inverse_norm_upper [OF dom B inv]) simp_all
  moreover have "1 / \<bar>b ! 0\<bar> \<le> norm_inf B"
    by (rule dominant_inverse_norm_lower [OF dom B inv _ c0]) simp_all
  ultimately have "\<bar>norm_inf B - 999 / 1000\<bar> \<le> 1 / 100"
    unfolding b0 by (simp only: abs_le_iff) simp
  then show ?thesis by simp
qed


subsection \<open>Runs and failing calls the claims refer to\<close>














lemma six_nodes: "node_count (2 * 1) (2 * 1 / real_of_int 6) = 8"
  using node_count_third by simp

lemma initialize_six_nodes:
  "initialize_option_matrix 1 6 (2 * 1) (2 * 1 / real_of_int 6) 1 r dt is_call = Inl ValueError"
  using initialize_option_matrix_initial_grid [of 1 6 1 r dt is_call] six_nodes by simp

lemma six_operator_invertible:
  assumes "compute_transition_probabilities 6 (1 / real_of_int 1) 0 0 1 = (a, b, c)"
  shows "\<exists>B. create_tridiagonal_matrix a b c = Inr (B, norm_inf B)"
proof (rule create_tridiagonal_matrix_dominant)
  show "length a = 6" "length b = 6" "length c = 6"
    using implicit_coefficients_lengths [OF assms] by simp_all
  show "(0::nat) < 6" by simp
  fix k :: nat assume k: "k < 6"
  then have "k < nat 6" by simp
  note nth = implicit_coefficients_nth [OF this, of "1 / real_of_int 1" 0 0 1,
      unfolded assms fst_conv snd_conv]
  show "\<bar>a ! k\<bar> + \<bar>c ! k\<bar> < \<bar>b ! k\<bar>"
    unfolding nth by (simp add: abs_if power2_eq_square)
qed

lemma implicit_six_nodes:
  "vanilla_option_implicit 1 1 1 0 0 1 1 6 True False = Inl ValueError"
proof -
  obtain a b c where abc: "compute_transition_probabilities 6 (1 / real_of_int 1) 0 0 1 = (a, b, c)"
    using prod_cases3 by blast
  from six_operator_invertible [OF abc]
  obtain B where "create_tridiagonal_matrix a b c = Inr (B, norm_inf B)" ..
  then have "implicit_grid 1 1 0 0 1 1 6 True False = Inl ValueError"
    using implicit_grid_cases [of 1 6 1 1 0 0 1 True False] abc six_nodes by simp
  then show ?thesis by (simp add: vanilla_option_implicit_def)
qed

lemma european_step_transposed:
  assumes "0 < M" "length a = M" "length b = M" "length c = M"
    and "i < N" "length FV = N + 1" "length (FV ! (i + 1)) = M + 1"
  shows "explicit_matrix a b c (int M) = tridiagonal_operator a b c M
       \<and> take M (explicit_step (explicit_matrix a b c (int M)) a c M S_max dS K ic False i FV ! i)
           = map2 (+) (apply_matrix (transpose_matrix (tridiagonal_operator a b c M))
                         (take M (FV ! (i + 1))))
                      (explicit_k (FV ! (i + 1)) a c M)
       \<and> (\<forall>B n. create_tridiagonal_matrix a b c = Inr (B, n) \<longrightarrow>
              mat_mul B (tridiagonal_operator a b c M) = identity_matrix M
            \<and> take M (backward_step B a c M dS K ic False i FV ! i)
                = apply_matrix (transpose_matrix B)
                    (map2 (+) (take M (FV ! (i + 1))) (implicit_k (FV ! (i + 1)) a c M)))"
proof -
  have i: "i < length FV" using assms(5,6) by simp
  have A: "explicit_matrix a b c (int M) = tridiagonal_operator a b c M"
    by (rule explicit_matrix_eq [OF assms(1-4)])
  have v: "length (take M (FV ! (i + 1))) = M" using assms(7) by simp
  have explicit:
    "take M (explicit_step (explicit_matrix a b c (int M)) a c M S_max dS K ic False i FV ! i)
       = map2 (+) (apply_matrix (transpose_matrix (tridiagonal_operator a b c M))
                     (take M (FV ! (i + 1))))
                  (explicit_k (FV ! (i + 1)) a c M)"
    unfolding A explicit_step_row [OF i] explicit_row_european_take [OF assms(7)]
      dot_vm_transpose [OF square_tridiagonal_operator v] ..
  have implicit: "\<forall>B n. create_tridiagonal_matrix a b c = Inr (B, n) \<longrightarrow>
              mat_mul B (tridiagonal_operator a b c M) = identity_matrix M
            \<and> take M (backward_step B a c M dS K ic False i FV ! i)
                = apply_matrix (transpose_matrix B)
                    (map2 (+) (take M (FV ! (i + 1))) (implicit_k (FV ! (i + 1)) a c M))"
  proof (intro allI impI)
    fix B n assume B: "create_tridiagonal_matrix a b c = Inr (B, n)"
    note inv = create_tridiagonal_matrix_inverse [OF B assms(1-4)]
    have w: "length (map2 (+) (take M (FV ! (i + 1))) (implicit_k (FV ! (i + 1)) a c M)) = M"
      using v by (simp add: length_implicit_k)
    show "mat_mul B (tridiagonal_operator a b c M) = identity_matrix M
            \<and> take M (backward_step B a c M dS K ic False i FV ! i)
                = apply_matrix (transpose_matrix B)
                    (map2 (+) (take M (FV ! (i + 1))) (implicit_k (FV ! (i + 1)) a c M))"
      unfolding backward_step_row [OF i] implicit_row_european_take [OF assms(7)]
        dot_vm_transpose [OF inv(1) w]
      using inv(2) by simp
  qed
  show ?thesis using A explicit implicit by blast
qed

lemma terminal_row_when_built:
  assumes "0 < N" "0 < M" "0 < K" "j \<le> nat M"
  shows "(\<exists>FVe. explicit_boundary (nat N) (nat M) (2 * K) (2 * K / real_of_int M) K r dt is_call
                  = Inr FVe
            \<and> length (FVe ! nat N) = nat M + 1
            \<and> FVe ! nat N ! j = (if is_call then max (real j * (2 * K / real_of_int M) - K) 0
                                 else max (K - real j * (2 * K / real_of_int M)) 0))
       \<and> (\<forall>FVi. initialize_option_matrix N M (2 * K) (2 * K / real_of_int M) K r dt is_call
                  = Inr FVi \<longrightarrow>
              length (FVi ! nat N) = nat M + 1
            \<and> FVi ! nat N ! j = (if is_call then max (real j * (2 * K / real_of_int M) - K) 0
                                 else max (K - real j * (2 * K / real_of_int M)) 0))"
proof -
  have K: "K \<noteq> 0" using assms(3) by simp
  have j: "j < nat M + 1" using assms(4) by simp
  have row: "map (intrinsic (2 * K / real_of_int M) K is_call) [0..<nat M + 1] ! j
      = intrinsic (2 * K / real_of_int M) K is_call j"
    using j by (simp only: nth_map_upt) simp
  show ?thesis
    unfolding initialize_option_matrix_initial_grid [OF assms(1,2) K]
      explicit_boundary_initial_grid [OF assms(2) K]
    using row by (simp add: initial_grid_last intrinsic_def del: upt.simps)
qed


section \<open>The claims\<close>

subsection \<open>C1: the column the fair value is read from\<close>

text \<open>
  Claim C1 says that both entry points return \<open>FV[0, M/2]\<close>. The implicit entry point
  reads \<open>FV[0, M // 2]\<close>. The explicit one reads \<open>FV[0, (FV.shape[1] + 1) / 2]\<close>, which
  under Python 2 is the column \<open>M/2 + 1\<close>. At \<open>S_0 = 1, T = 1, K = 1, r = 0, q = 0,
  sigma = 1, N = 1, M = 2\<close>, a European call, the final grid has \<open>FV[0, 1] = 1/2\<close> in its
  middle column, and the function returns \<open>FV[0, 2] = 2\<close>. (\<open>fair_value_column_read\<close>
  gives the column each entry point reads for every even \<open>M\<close>.)
\<close>

theorem explicit_fair_value_column:
  "explicit_grid 1 1 0 0 1 1 2 True False = Inr ([[0, 1/2, 2], [0, 0, 1]], 1)
   \<and> VanillaOption_Explicit 1 1 1 0 0 1 1 2 True False = Inr (2, 1)
   \<and> [[0, 1/2, 2], [0, 0, (1::real)]] ! 0 ! nat (2 div 2) = 1/2"
  by (simp add: VanillaOption_Explicit_def explicit_call_example)


subsection \<open>C2: invalid parameters\<close>

text \<open>
  Claim C2 says that both entry points fail with an InvalidParameter error whenever
  \<open>N \<le> 0\<close>, \<open>M \<le> 0\<close>, \<open>T \<le> 0\<close> or \<open>K \<le> 0\<close>. Neither function checks its
  arguments. With \<open>T = 0\<close> (and \<open>K = 1, r = 0, q = 0, sigma = 1, N = 1, M = 2\<close>, a
  European call) the explicit entry point returns the pair \<open>(2, 1)\<close>.
\<close>

theorem invalid_parameter_counterexample:
  "(0::real) \<le> 0 \<and> VanillaOption_Explicit 1 0 1 0 0 1 1 2 True False = Inr (2, 1)"
  by (simp add: VanillaOption_Explicit_def explicit_zero_maturity_example)

text \<open>
  Claim C2, amended to what the code does. A zero \<open>N\<close> or \<open>M\<close> raises
  \<open>ZeroDivisionError\<close>; a negative one makes the call fail while the arrays are built;
  with positive sizes a zero strike raises \<open>ZeroDivisionError\<close> in \<open>np.arange\<close> (or, in
  the implicit scheme, \<open>LinAlgError\<close> before that). With positive sizes and a non-zero
  strike the explicit entry point returns a result; the implicit one returns a result, or
  raises \<open>LinAlgError\<close> when the operator is singular, or raises \<open>ValueError\<close> when
  \<open>np.arange(0, S_max + dS, dS)\<close> does not have \<open>M + 1\<close> elements, which rounding
  brings about for some strikes and sizes (\<open>K = 1, M = 6\<close> is one). The maturity \<open>T\<close>
  and the sign of \<open>K\<close> play no part.
\<close>

theorem parameters_are_not_validated:
  "(M = 0 \<or> N = 0 \<longrightarrow>
      VanillaOption_Explicit S_0 T K r q sigma N M ic ia = Inl ZeroDivisionError
    \<and> vanilla_option_implicit S_0 T K r q sigma N M ic ia = Inl ZeroDivisionError)
 \<and> (M < 0 \<or> N < 0 \<longrightarrow>
      isl (VanillaOption_Explicit S_0 T K r q sigma N M ic ia)
    \<and> isl (vanilla_option_implicit S_0 T K r q sigma N M ic ia))
 \<and> (0 < N \<and> 0 < M \<and> K = 0 \<longrightarrow>
      VanillaOption_Explicit S_0 T K r q sigma N M ic ia = Inl ZeroDivisionError
    \<and> (vanilla_option_implicit S_0 T K r q sigma N M ic ia = Inl ZeroDivisionError
       \<or> vanilla_option_implicit S_0 T K r q sigma N M ic ia = Inl LinAlgError))
 \<and> (0 < N \<and> 0 < M \<and> K \<noteq> 0 \<longrightarrow>
      (\<exists>res. VanillaOption_Explicit S_0 T K r q sigma N M ic ia = Inr res)
    \<and> ((\<exists>res. vanilla_option_implicit S_0 T K r q sigma N M ic ia = Inr res)
       \<or> vanilla_option_implicit S_0 T K r q sigma N M ic ia = Inl LinAlgError
       \<or> vanilla_option_implicit S_0 T K r q sigma N M ic ia = Inl ValueError
          \<and> node_count (2 * K) (2 * K / real_of_int M) \<noteq> nat M + 1))"
  unfolding entry_point_results
  using explicit_grid_zero_size [of M N T K r q sigma ic ia]
    implicit_grid_zero_size [of M N T K r q sigma ic ia]
    explicit_grid_negative_size [of M N T K r q sigma ic ia]
    implicit_grid_negative_size [of M N T K r q sigma ic ia]
    explicit_grid_zero_strike [of N M T r q sigma ic ia]
    implicit_grid_zero_strike [of N M T r q sigma ic ia]
    explicit_grid_succeeds [of N M K T r q sigma ic ia]
    implicit_grid_succeeds_or_singular [of N M K T r q sigma ic ia]
  by blast

theorem parameters_are_not_validated_witness:
  "((0::int) = 0 \<or> (1::int) = 0)
   \<and> VanillaOption_Explicit 1 1 1 0 0 1 1 0 True False = Inl ZeroDivisionError
   \<and> vanilla_option_implicit 1 1 1 0 0 1 1 0 True False = Inl ZeroDivisionError
   \<and> ((- 1::int) < 0 \<or> (1::int) < 0)
   \<and> isl (VanillaOption_Explicit 1 1 1 0 0 1 1 (- 1) True False)
   \<and> isl (vanilla_option_implicit 1 1 1 0 0 1 1 (- 1) True False)
   \<and> (0::int) < 1 \<and> (0::int) < 2 \<and> (0::real) = 0
   \<and> VanillaOption_Explicit 1 1 0 0 0 1 1 2 True False = Inl ZeroDivisionError
   \<and> (1::real) \<noteq> 0
   \<and> (\<exists>res. VanillaOption_Explicit 1 1 1 0 0 1 1 2 True False = Inr res)
   \<and> (\<exists>res. vanilla_option_implicit 1 1 1 0 0 1 1 2 True False = Inr res)
   \<and> (0::int) < 6
   \<and> (\<exists>res. VanillaOption_Explicit 1 1 1 0 0 1 1 6 True False = Inr res)
   \<and> vanilla_option_implicit 1 1 1 0 0 1 1 6 True False = Inl ValueError
   \<and> node_count (2 * 1) (2 * 1 / real_of_int 6) \<noteq> nat 6 + 1"
  using parameters_are_not_validated [of 0 1 1 1 1 0 0 1 True False]
    parameters_are_not_validated [of "- 1" 1 1 1 1 0 0 1 True False]
    parameters_are_not_validated [of 2 1 1 1 0 0 0 1 True False]
    parameters_are_not_validated [of 2 1 1 1 1 0 0 1 True False]
    parameters_are_not_validated [of 6 1 1 1 1 0 0 1 True False]
    implicit_six_nodes implicit_call_example six_nodes
  by (simp add: vanilla_option_implicit_def)


subsection \<open>C3: the boundary columns\<close>

text \<open>
  Claim C3 says that, for a European option, columns \<open>0\<close> and \<open>M\<close> of the final grid
  hold the values set by the boundary conditions. The step writes \<open>FV[i, 0:M]\<close>, which
  includes column \<open>0\<close>. For the European put with \<open>T = 1, K = 1, r = 0, q = 0, sigma = 1,
  N = 1, M = 4\<close> the explicit scheme starts with \<open>FV[0, 0] = 1\<close> and ends with
  \<open>FV[0, 0] = 5/4\<close>.
\<close>

theorem low_boundary_column_counterexample:
  "explicit_boundary 1 4 (2 * 1) (2 * 1 / real_of_int 4) 1 0 (1 / real_of_int 1) False
     = Inr [[1, 0, 0, 0, 0], [1, 1/2, 0, 0, 0]]
   \<and> explicit_grid 1 1 0 0 1 1 4 False False
       = Inr ([[5/4, 0, 1/4, 0, 0], [1, 1/2, 0, 0, 0]], 25/2)
   \<and> [[5/4, 0, 1/4, 0, 0], [1, 1/2, 0, 0, 0]] ! 0 ! 0
       \<noteq> [[1, 0, 0, 0, 0], [1, 1/2, 0, 0, (0::real)]] ! 0 ! 0"
  using explicit_put_four_example
  by (simp add: explicit_boundary_def arange_def assign_row_def Let_def upt_rec
      numeral_2_eq_2 eval_nat_numeral)

text \<open>
  Claim C3, amended: for every valid European input and both schemes, after the loop
  every entry of column \<open>M\<close>, at every time row \<open>i = 0..N\<close>, and the whole terminal row
  \<open>N\<close> equal the values set by the boundary conditions. (Column \<open>0\<close> of the rows
  \<open>0..N-1\<close> belongs to the slice the step rewrites.)
\<close>

theorem high_boundary_column_unchanged:
  assumes "0 < N" "0 < M" "0 < K" "i \<le> nat N"
  shows "(\<exists>FV0 FV n.
            explicit_boundary (nat N) (nat M) (2 * K) (2 * K / real_of_int M) K r
              (T / real_of_int N) ic = Inr FV0
          \<and> explicit_grid T K r q sigma N M ic False = Inr (FV, n)
          \<and> FV ! i ! nat M = FV0 ! i ! nat M \<and> FV ! nat N = FV0 ! nat N)
       \<and> (\<forall>FV n. implicit_grid T K r q sigma N M ic False = Inr (FV, n) \<longrightarrow>
            (\<exists>FV0.
               initialize_option_matrix N M (2 * K) (2 * K / real_of_int M) K r
                 (T / real_of_int N) ic = Inr FV0
             \<and> FV ! i ! nat M = FV0 ! i ! nat M \<and> FV ! nat N = FV0 ! nat N))"
proof -
  have K: "K \<noteq> 0" using assms(3) by simp
  let ?FV0 = "initial_grid (nat N) (nat M) (2 * K / real_of_int M) K r (T / real_of_int N) ic"
  have len: "length ?FV0 = nat N + 1" by (simp add: length_initial_grid)
  have rows: "\<And>i. i \<le> nat N \<Longrightarrow> length (?FV0 ! i) = nat M + 1"
    by (simp add: length_initial_grid_row)
  have ev: "length (explicit_exercise_values (2 * K) (2 * K / real_of_int M) K ic) = nat M + 1"
    by (rule explicit_exercise_values_valid [OF assms(2) K])
  have explicit: "\<exists>FV0 FV n.
            explicit_boundary (nat N) (nat M) (2 * K) (2 * K / real_of_int M) K r
              (T / real_of_int N) ic = Inr FV0
          \<and> explicit_grid T K r q sigma N M ic False = Inr (FV, n)
          \<and> FV ! i ! nat M = FV0 ! i ! nat M \<and> FV ! nat N = FV0 ! nat N"
    unfolding explicit_boundary_initial_grid [OF assms(2) K]
      explicit_grid_valid [OF assms(1,2) K]
    using explicit_loop_european_last_column [OF len rows assms(4) ev]
      explicit_loop_rows(2) [OF len]
    by (simp split: prod.splits)
  have implicit: "\<forall>FV n. implicit_grid T K r q sigma N M ic False = Inr (FV, n) \<longrightarrow>
            (\<exists>FV0.
               initialize_option_matrix N M (2 * K) (2 * K / real_of_int M) K r
                 (T / real_of_int N) ic = Inr FV0
             \<and> FV ! i ! nat M = FV0 ! i ! nat M \<and> FV ! nat N = FV0 ! nat N)"
  proof (intro allI impI)
    fix FV n
    assume ret: "implicit_grid T K r q sigma N M ic False = Inr (FV, n)"
    have nodes: "node_count (2 * K) (2 * K / real_of_int M) = nat M + 1"
      by (rule implicit_grid_returns [OF assms(1,2) K ret])
    show "\<exists>FV0.
               initialize_option_matrix N M (2 * K) (2 * K / real_of_int M) K r
                 (T / real_of_int N) ic = Inr FV0
             \<and> FV ! i ! nat M = FV0 ! i ! nat M \<and> FV ! nat N = FV0 ! nat N"
      using ret nodes backward_iteration_european_last_column [OF len rows assms(4)]
        backward_iteration_rows(2) [OF len]
      unfolding initialize_option_matrix_initial_grid [OF assms(1,2) K]
        implicit_grid_valid [OF assms(1,2) K nodes]
      by (auto split: prod.splits sum.splits)
  qed
  show ?thesis using explicit implicit by blast
qed

theorem high_boundary_column_unchanged_witness:
  "(0::int) < 1 \<and> (0::int) < 2 \<and> (0::real) < 1 \<and> (0::nat) \<le> nat 1
   \<and> implicit_grid 1 1 0 0 1 1 2 True False = Inr ([[1/8, 1/4, 2], [0, 0, 1]], 1)
   \<and> initialize_option_matrix 1 2 (2 * 1) (2 * 1 / real_of_int 2) 1 0 (1 / real_of_int 1) True
        = Inr [[0, 0, 2], [0, 0, 1]]
   \<and> [[1/8, 1/4, 2], [0, 0, 1]] ! 0 ! nat 2 = [[0, 0, 2], [0, 0, (1::real)]] ! 0 ! nat 2
   \<and> [[1/8, 1/4, 2], [0, 0, 1]] ! nat 1 = [[0, 0, 2], [0, 0, (1::real)]] ! nat 1"
  using high_boundary_column_unchanged
      [where N = 1 and M = 2 and K = 1 and i = 0 and T = 1 and r = 0 and q = 0
         and sigma = 1 and ic = True]
    implicit_call_example implicit_call_initial_grid
  by simp


subsection \<open>C4: the backward step\<close>

text \<open>
  Claim C4 says that the explicit step sets \<open>FV[i, 0:M]\<close> to \<open>A\<close> applied to the vector
  \<open>FV[i+1, 0:M]\<close>, plus \<open>k_i\<close>, and the implicit step to \<open>B\<close> applied to
  \<open>FV[i+1, 0:M] + k_i\<close>. The code computes \<open>np.dot(FV[i+1, 0:M], A)\<close> and
  \<open>np.dot(FV[i+1, :M] + k_i, B)\<close>: the row vector times the matrix, which is the
  transpose of the matrix applied to the vector (\<open>european_step_transposed\<close>), and
  neither matrix is symmetric. The entry \<open>k_i[M-1] = c[M-1] * FV[i+1, M]\<close> is the term
  that \<open>A\<close> applied to the vector lacks at the upper boundary, so the claim states the
  scheme and the code departs from it.

  For the European put with \<open>T = 1, K = 1, r = 0, q = 0, sigma = 1, N = 1, M = 2\<close> the
  row \<open>FV[1, 0:2]\<close> is \<open>[1, 0]\<close>, the explicit scheme sets \<open>FV[0, 0:2]\<close> to \<open>[1, 0]\<close>,
  and \<open>A\<close> applied to \<open>[1, 0]\<close> plus \<open>k_0\<close> is \<open>[1, 1/2]\<close>. For the European call with
  the same parameters \<open>FV[1, 0:2] + k_0\<close> is \<open>[0, 1/2]\<close>, the implicit scheme sets
  \<open>FV[0, 0:2]\<close> to \<open>[1/8, 1/4]\<close>, and \<open>B\<close> applied to \<open>[0, 1/2]\<close> is \<open>[0, 1/4]\<close>.
\<close>

theorem transposed_step_divergence:
  "explicit_coefficients 2 (1 / real_of_int 1) 0 0 1 = Some ([0, 1/2], [1, 0], [0, 1/2])
   \<and> explicit_boundary 1 2 (2 * 1) (2 * 1 / real_of_int 2) 1 0 (1 / real_of_int 1) False
       = Inr [[1, 0, 0], [1, 0, 0]]
   \<and> explicit_grid 1 1 0 0 1 1 2 False False = Inr ([[1, 0, 0], [1, 0, 0]], 1)
   \<and> map2 (+) (apply_matrix (explicit_matrix [0, 1/2] [1, 0] [0, 1/2] 2) (take 2 [1, 0, 0]))
               (explicit_k [1, 0, 0] [0, 1/2] [0, 1/2] 2) = [1, 1/2]
   \<and> take 2 [1, 0, (0::real)] \<noteq> [1, 1/2]
   \<and> compute_transition_probabilities 2 (1 / real_of_int 1) 0 0 1
       = ([0, - 1/2], [1, 2], [0, - 1/2])
   \<and> create_tridiagonal_matrix [0, - 1/2] [1, 2] [0, - 1/2] = Inr ([[1, 0], [1/4, 1/2]], 1)
   \<and> initialize_option_matrix 1 2 (2 * 1) (2 * 1 / real_of_int 2) 1 0 (1 / real_of_int 1) True
       = Inr [[0, 0, 2], [0, 0, 1]]
   \<and> implicit_grid 1 1 0 0 1 1 2 True False = Inr ([[1/8, 1/4, 2], [0, 0, 1]], 1)
   \<and> apply_matrix [[1, 0], [1/4, 1/2]]
        (map2 (+) (take 2 [0, 0, 1]) (implicit_k [0, 0, 1] [0, - 1/2] [0, - 1/2] 2)) = [0, 1/4]
   \<and> take 2 [1/8, 1/4, (2::real)] \<noteq> [0, 1/4]"
  using explicit_put_example explicit_put_coefficients implicit_call_coefficients
    implicit_call_operator implicit_call_initial_grid implicit_call_example
  by (simp add: apply_matrix_def explicit_matrix_def explicit_k_def implicit_k_def
      explicit_boundary_def explicit_coefficients_arrays
      arange_def assign_row_def np_diag_def mat_add_def Let_def upt_rec numeral_2_eq_2)


subsection \<open>C5: the American floor\<close>





subsection \<open>C6: the terminal row\<close>

text \<open>
  Claim C6 says that for every valid input, after the boundary conditions are set, row
  \<open>N\<close> of the value grid is the discretised payoff at every space index \<open>j = 0..M\<close>.
  The explicit notebook builds the row from \<open>np.arange(S_min, S_max + dS/2.0, dS)\<close>,
  which has \<open>M + 1\<close> elements. The implicit notebook builds it from
  \<open>np.arange(0, S_max + dS, dS)\<close>, whose stop value is a whole step above the last node:
  the number of elements is the ceiling of a quotient that is \<open>M + 1\<close> in exact
  arithmetic and a little more for some inputs in double precision. For
  \<open>K = 1, M = 6\<close> the doubles are \<open>dS = 6004799503160661 / 2^54\<close>,
  \<open>S_max + dS = 5254199565265579 / 2^51\<close> and the quotient
  \<open>7881299347898369 / 2^50\<close>, just above \<open>7\<close>: \<open>np.arange\<close> returns \<open>8\<close> values, the
  assignment of \<open>8\<close> values to the row of \<open>7\<close> raises \<open>ValueError\<close>, and no grid is
  built. (\<open>terminal_row_when_built\<close>: whenever the grid is built, its row \<open>N\<close> is the
  payoff, in both notebooks.)
\<close>

theorem terminal_row_assignment_fails:
  "node_count (2 * 1) (2 * 1 / real_of_int 6) = 8
   \<and> initialize_option_matrix 1 6 (2 * 1) (2 * 1 / real_of_int 6) 1 r dt is_call
       = Inl ValueError
   \<and> vanilla_option_implicit 1 1 1 0 0 1 1 6 True False = Inl ValueError
   \<and> (\<exists>FVe. explicit_boundary 1 6 (2 * 1) (2 * 1 / real_of_int 6) 1 r dt is_call = Inr FVe
          \<and> length (FVe ! 1) = 6 + 1)"
proof -
  have "\<exists>FVe. explicit_boundary (nat 1) (nat 6) (2 * 1) (2 * 1 / real_of_int 6) 1 r dt is_call
                 = Inr FVe \<and> length (FVe ! nat 1) = nat 6 + 1"
    using terminal_row_when_built [of 1 6 1 0 r dt is_call] by auto
  then show ?thesis
    using six_nodes initialize_six_nodes [of r dt is_call] implicit_six_nodes by simp
qed


subsection \<open>C7: American against European\<close>





subsection \<open>C8: bounds on the fair value\<close>





subsection \<open>C9: the sample run\<close>

text \<open>
  Claim C9: for \<open>S_0 = 50, T = 1, K = 50, r = 0.1, q = 0, sigma = 0.25, N = 100,
  M = 40\<close>, a European call, the implicit entry point returns a fair value within
  \<open>0.01\<close> of \<open>5.179\<close> and a norm within \<open>0.01\<close> of \<open>0.999\<close>.

  The call returns: in double precision \<open>np.arange(0, 102.5, 2.5)\<close> has \<open>41\<close> elements
  and the operator, which is dominant by rows, is inverted. The values are those of the
  model, in exact arithmetic: the fair value lies within \<open>0.0002\<close> of \<open>5.1792485\<close>
  (the rows of \<open>sample_rows\<close> satisfy the hundred steps up to a residual that is
  checked, and the dominance of the operator bounds the distance to the exact rows), and
  the norm lies between \<open>1/1.001\<close> and \<open>1\<close>.
\<close>

theorem sample_run_values:
  "\<exists>fair norm. vanilla_option_implicit 50 1 50 (1 / 10) 0 (1 / 4) 100 40 True False
       = Inr (fair, norm) \<and> \<bar>fair - 5.179\<bar> \<le> 0.01 \<and> \<bar>norm - 0.999\<bar> \<le> 0.01"
proof -
  obtain a b c where abc: "compute_transition_probabilities 40 (1 / 100) (1 / 10) 0 (1 / 4) = (a, b, c)"
    using prod_cases3 by blast
  have len: "length a = 40" "length b = 40" "length c = 40"
    using implicit_coefficients_lengths [OF abc] by simp_all
  have "\<And>k. k < 40 \<Longrightarrow> \<bar>a ! k\<bar> + \<bar>c ! k\<bar> < \<bar>b ! k\<bar>"
    using sample_dominance [OF abc] by force
  from create_tridiagonal_matrix_dominant [OF this _ len]
  obtain B where create: "create_tridiagonal_matrix a b c = Inr (B, norm_inf B)" by auto
  have B: "square 40 B" "mat_mul B (tridiagonal_operator a b c 40) = identity_matrix 40"
    using create_tridiagonal_matrix_inverse(1,2) [OF create _ len] by simp_all
  let ?G = "backward_iteration (initial_grid 100 40 (5 / 2) 50 (1 / 10) (1 / 100) True)
              B a c 100 40 (5 / 2) 50 True False"
  have "vanilla_option_implicit 50 1 50 (1 / 10) 0 (1 / 4) 100 40 True False
      = Inr (?G ! 0 ! 20, norm_inf B)"
    using implicit_grid_valid [of 100 40 50 1 "1 / 10" 0 "1 / 4" True False] abc create
      node_count_examples
    by (simp add: vanilla_option_implicit_def)
  then show ?thesis
    using sample_grid_value [OF abc B] sample_norm [OF abc B] by blast
qed


subsection \<open>C10: the low-boundary correction\<close>




end
